(* ===== verification/Prelude.thy ===== *)
theory Prelude
  imports Main "HOL-Library.Word" "HOL-Library.Sublist" "HOL-Library.AList"
begin

text \<open>
  Shared vocabulary of the development: the types that stand for Go's machine types, the
  collections of simplification rules the component proofs draw on, and generic facts on
  lists and maps.

  A Go \<open>string\<close> or \<open>[]byte\<close> is a \<^typ>\<open>string\<close> (one \<^typ>\<open>char\<close> per byte).
  A \<open>time.Time\<close> is the number of nanoseconds since Go's zero time, so \<open>t.IsZero()\<close>
  is \<open>t = 0\<close>; a \<open>time.Duration\<close> is a number of nanoseconds.  The clock is never read:
  every operation that calls \<open>time.Now()\<close> takes the reading as an argument.
\<close>

unbundle bit_operations_syntax

type_synonym time = int
type_synonym duration = int
type_synonym go_error = string
type_synonym u8 = "8 word"
type_synonym u16 = "16 word"
type_synonym u32 = "32 word"
type_synonym u64 = "64 word"

named_theorems inv_defs \<open>definitions of the components' invariants\<close>
named_theorems view_simps \<open>what an operation does to the abstract view of a component\<close>
named_theorems frame_simps \<open>fields an operation leaves alone\<close>

abbreviation millisecond :: duration where "millisecond \<equiv> 1000000"
abbreviation second :: duration where "second \<equiv> 1000000000"

definition is_zero :: "time \<Rightarrow> bool" where
  "is_zero t \<longleftrightarrow> t = 0"

text \<open>Go's 64-bit \<open>int\<close>: a mathematical integer reduced to the signed 64-bit range.\<close>

definition wrap64 :: "int \<Rightarrow> int" where
  "wrap64 x = (x + 2 ^ 63) mod 2 ^ 64 - 2 ^ 63"

definition in_int64 :: "int \<Rightarrow> bool" where
  "in_int64 x \<longleftrightarrow> - (2 ^ 63) \<le> x \<and> x < 2 ^ 63"

lemma wrap64_id [simp]: "in_int64 x \<Longrightarrow> wrap64 x = x"
  by (simp add: wrap64_def in_int64_def)

lemma in_int64_wrap64 [simp, intro]: "in_int64 (wrap64 x)"
  using pos_mod_bound [of "2 ^ 64" "x + 2 ^ 63"] pos_mod_sign [of "2 ^ 64" "x + 2 ^ 63"]
  by (simp add: wrap64_def in_int64_def)

text \<open>Go's integer division truncates towards zero.\<close>

definition go_div :: "int \<Rightarrow> int \<Rightarrow> int" where
  "go_div a b = sgn a * sgn b * (\<bar>a\<bar> div \<bar>b\<bar>)"

subsection \<open>The last elements of a list\<close>

definition last_n :: "nat \<Rightarrow> 'a list \<Rightarrow> 'a list" where
  "last_n n xs = drop (length xs - n) xs"

lemma length_last_n [simp]: "length (last_n n xs) = min n (length xs)"
  by (auto simp: last_n_def)

lemma last_n_short [simp]: "length xs \<le> n \<Longrightarrow> last_n n xs = xs"
  by (simp add: last_n_def)

lemma last_n_0 [simp]: "last_n 0 xs = []"
  by (simp add: last_n_def)

lemma set_last_n: "set (last_n n xs) \<subseteq> set xs"
  by (simp add: last_n_def set_drop_subset)

lemma last_n_suffix: "\<exists>ys. xs = ys @ last_n n xs"
  by (metis append_take_drop_id last_n_def)

lemma last_n_last_n [simp]: "last_n m (last_n n xs) = last_n (min m n) xs"
  by (cases "n \<le> length xs"; cases "m \<le> n") (auto simp: last_n_def)

lemma last_n_append:
  "last_n n (xs @ ys) = last_n (n - length ys) xs @ last_n n ys"
proof (cases "n \<le> length ys")
  case False
  then have "length xs + length ys - n = length xs - (n - length ys)" by arith
  with False show ?thesis by (simp add: last_n_def)
qed (simp add: last_n_def)

lemma last_n_last_n_append [simp]: "last_n n (last_n n xs @ ys) = last_n n (xs @ ys)"
  by (simp add: last_n_append min_def)

lemma last_n_snoc:
  "0 < n \<Longrightarrow> last_n n (xs @ [x]) = last_n (n - 1) xs @ [x]"
  by (simp add: last_n_append)

lemma last_n_full_snoc:
  "xs \<noteq> [] \<Longrightarrow> last_n (length xs) (xs @ [x]) = tl xs @ [x]"
  by (cases xs) (simp_all add: last_n_def)

lemma last_n_filter:
  "last_n (length (filter P xs)) (filter P xs) = filter P xs"
  by simp

subsection \<open>Association lists as Go maps in an iteration order\<close>

text \<open>
  Go iterates a map in an unspecified order.  Where the order can be seen, the model takes the
  map as an association list with distinct keys: the list is one possible order, and the
  theorems hold for all of them.
\<close>

definition keys_of :: "('k \<times> 'v) list \<Rightarrow> 'k list" where
  "keys_of m = map fst m"

lemma map_of_in_keys: "map_of m k = Some v \<Longrightarrow> k \<in> set (keys_of m)"
  by (force simp: keys_of_def dest: map_of_SomeD)

lemma map_of_not_keys: "map_of m k = None \<longleftrightarrow> k \<notin> set (keys_of m)"
  by (simp add: keys_of_def map_of_eq_None_iff)

lemma keys_of_simps [simp]:
  "keys_of [] = []" "keys_of (kv # m) = fst kv # keys_of m"
  "keys_of (m @ m') = keys_of m @ keys_of m'"
  by (simp_all add: keys_of_def)

lemma map_of_rev_distinct: "distinct (map fst xs) \<Longrightarrow> map_of (rev xs) = map_of xs"
  by (rule map_of_eqI) (auto simp: rev_map [symmetric] map_of_eq_Some_iff)

lemma update_fresh: "k \<notin> fst ` set xs \<Longrightarrow> AList.update k v xs = xs @ [(k, v)]"
  by (induction xs) auto

lemma update_same_keys: "k \<in> fst ` set xs \<Longrightarrow> map fst (AList.update k v xs) = map fst xs"
  by (induction xs) auto

lemma set_update_snd: "set (AList.update k v xs) \<subseteq> insert (k, v) (set xs)"
  by (induction xs) auto

lemma update_commutes:
  "k \<noteq> l \<Longrightarrow> k \<in> fst ` set xs \<Longrightarrow> l \<in> fst ` set xs \<Longrightarrow>
     AList.update k v (AList.update l w xs) = AList.update l w (AList.update k v xs)"
  by (induction xs) auto

subsection \<open>Subsequences\<close>

lemma subseq_snoc_both: "subseq xs ys \<Longrightarrow> subseq (xs @ [x]) (ys @ [x])"
  by (simp add: list_emb_append_mono)

lemma subseq_snoc_right: "subseq xs ys \<Longrightarrow> subseq xs (ys @ [y])"
  by (rule subseq_rev_drop_many)

end
