(* ===== verification/GoStrings.thy ===== *)
theory GoStrings
  imports Prelude "HOL-Library.Char_ord" "HOL-Library.List_Lexorder"
begin

text \<open>
  The functions of Go's packages \<open>strings\<close>, \<open>strconv\<close> and \<open>bufio\<close> that the program
  calls, on byte strings.  \<open>TrimSpace\<close>, \<open>ToLower\<close>, \<open>EqualFold\<close> and \<open>Fields\<close> are
  modelled on their ASCII range: a multi-byte UTF-8 rune is kept as it is.  Strings compare
  bytewise, which is the lexicographic order of \<open>HOL-Library.List_Lexorder\<close> on the order of
  \<open>HOL-Library.Char_ord\<close>.
\<close>

abbreviation nl :: char where "nl \<equiv> CHR 0x0A"
abbreviation cr :: char where "cr \<equiv> CHR 0x0D"
abbreviation tab :: char where "tab \<equiv> CHR 0x09"
abbreviation dquote :: char where "dquote \<equiv> CHR 0x22"
abbreviation backslash :: char where "backslash \<equiv> CHR 0x5C"
abbreviation nul :: char where "nul \<equiv> CHR 0x00"

definition HasPrefix :: "string \<Rightarrow> string \<Rightarrow> bool" where
  "HasPrefix s p \<longleftrightarrow> length p \<le> length s \<and> take (length p) s = p"

definition HasSuffix :: "string \<Rightarrow> string \<Rightarrow> bool" where
  "HasSuffix s p \<longleftrightarrow> length p \<le> length s \<and> drop (length s - length p) s = p"

definition TrimLeft :: "string \<Rightarrow> string \<Rightarrow> string" where
  "TrimLeft s cutset = dropWhile (\<lambda>c. c \<in> set cutset) s"

definition TrimRight :: "string \<Rightarrow> string \<Rightarrow> string" where
  "TrimRight s cutset = rev (dropWhile (\<lambda>c. c \<in> set cutset) (rev s))"

definition is_space :: "char \<Rightarrow> bool" where
  "is_space c \<longleftrightarrow> c \<in> set [CHR '' '', tab, nl, CHR 0x0B, CHR 0x0C, cr]"

definition TrimSpace :: "string \<Rightarrow> string" where
  "TrimSpace s = rev (dropWhile is_space (rev (dropWhile is_space s)))"

lemma TrimSpace_no_space: "\<forall>c\<in>set s. \<not> is_space c \<Longrightarrow> TrimSpace s = s"
  by (simp add: TrimSpace_def dropWhile_eq_self_iff) (metis dropWhile_eq_self_iff hd_in_set rev_rev_ident set_rev)

fun Split :: "string \<Rightarrow> char \<Rightarrow> string list" where
  "Split [] sep = [[]]"
| "Split (c # s) sep =
     (if c = sep then [] # Split s sep
      else case Split s sep of w # ws \<Rightarrow> (c # w) # ws | [] \<Rightarrow> [[c]])"

fun Join :: "string list \<Rightarrow> string \<Rightarrow> string" where
  "Join [] sep = []"
| "Join [w] sep = w"
| "Join (w # v # ws) sep = w @ sep @ Join (v # ws) sep"

definition Fields :: "string \<Rightarrow> string list" where
  "Fields s = filter (\<lambda>w. w \<noteq> []) (Split (map (\<lambda>c. if is_space c then CHR '' '' else c) s) CHR '' '')"

fun Index_byte :: "string \<Rightarrow> char \<Rightarrow> nat option" where
  "Index_byte [] c = None"
| "Index_byte (d # s) c = (if d = c then Some 0 else map_option Suc (Index_byte s c))"

fun Contains :: "string \<Rightarrow> string \<Rightarrow> bool" where
  "Contains [] sub = (sub = [])"
| "Contains (c # s) sub = (HasPrefix (c # s) sub \<or> Contains s sub)"

text \<open>\<open>strings.ReplaceAll\<close> for the one-byte patterns the program replaces.\<close>

definition ReplaceAll_byte :: "string \<Rightarrow> char \<Rightarrow> string \<Rightarrow> string" where
  "ReplaceAll_byte s old new = concat (map (\<lambda>c. if c = old then new else [c]) s)"

definition lower_char :: "char \<Rightarrow> char" where
  "lower_char c = (if 65 \<le> (of_char c :: nat) \<and> (of_char c :: nat) \<le> 90 then char_of ((of_char c :: nat) + 32) else c)"

definition ToLower :: "string \<Rightarrow> string" where
  "ToLower s = map lower_char s"

definition EqualFold :: "string \<Rightarrow> string \<Rightarrow> bool" where
  "EqualFold s t \<longleftrightarrow> ToLower s = ToLower t"

subsection \<open>Numbers\<close>

definition is_digit :: "char \<Rightarrow> bool" where
  "is_digit c \<longleftrightarrow> 48 \<le> (of_char c :: nat) \<and> (of_char c :: nat) \<le> 57"

definition digit_val :: "char \<Rightarrow> int" where
  "digit_val c = int (of_char c) - 48"

definition digit_char :: "nat \<Rightarrow> char" where
  "digit_char d = char_of (d + 48)"

definition digits_val :: "string \<Rightarrow> int" where
  "digits_val s = foldl (\<lambda>n c. 10 * n + digit_val c) 0 s"

text \<open>
  \<open>strconv.Atoi\<close>: an optional sign, then one or more decimal digits, and the value must fit the
  64-bit \<open>int\<close>; anything else is an error (\<open>None\<close>).
\<close>

definition Atoi :: "string \<Rightarrow> int option" where
  "Atoi s =
     (let neg = (case s of c # _ \<Rightarrow> c = CHR ''-'' | [] \<Rightarrow> False);
          body = (case s of c # s' \<Rightarrow> if c = CHR ''-'' \<or> c = CHR ''+'' then s' else s | [] \<Rightarrow> []);
          n = digits_val body;
          v = (if neg then - n else n)
      in if body = [] \<or> \<not> list_all is_digit body \<or> \<not> in_int64 v then None else Some v)"

text \<open>\<open>strconv.ParseUint(s, 10, 64)\<close>: digits only.\<close>

definition ParseUint64 :: "string \<Rightarrow> nat option" where
  "ParseUint64 s =
     (if s = [] \<or> \<not> list_all is_digit s \<or> digits_val s \<ge> 2 ^ 64 then None
      else Some (nat (digits_val s)))"

fun nat_digits :: "nat \<Rightarrow> string" where
  "nat_digits n = (if n < 10 then [digit_char n] else nat_digits (n div 10) @ [digit_char (n mod 10)])"

declare nat_digits.simps [simp del]

definition Itoa :: "int \<Rightarrow> string" where
  "Itoa n = (if n < 0 then CHR ''-'' # nat_digits (nat (- n)) else nat_digits (nat n))"

subsection \<open>Lines: \<open>bufio.Scanner\<close> with \<open>ScanLines\<close>\<close>

text \<open>
  The scanner splits at newlines, drops one carriage return before each, and yields no empty
  last line for a final newline.  A line that does not fit the buffer stops it with
  \<open>ErrTooLong\<close>; a line of \<open>max - 1\<close> bytes still fits with its newline.
\<close>

fun raw_lines :: "string \<Rightarrow> string list" where
  "raw_lines s = (case Split s nl of ws \<Rightarrow> if ws \<noteq> [] \<and> last ws = [] then butlast ws else ws)"

definition drop_cr :: "string \<Rightarrow> string" where
  "drop_cr l = (if l \<noteq> [] \<and> last l = cr then butlast l else l)"

datatype scan_result = Lines "string list" | TooLong "string list"

definition scan_lines :: "nat \<Rightarrow> string \<Rightarrow> scan_result" where
  "scan_lines lim s =
     (let ls = raw_lines s; good = takeWhile (\<lambda>l. length l < lim) ls
      in if length good = length ls then Lines (map drop_cr ls) else TooLong (map drop_cr good))"

abbreviation default_scan_max :: nat where "default_scan_max \<equiv> 65536"
abbreviation big_scan_max :: nat where "big_scan_max \<equiv> 1048576"

subsection \<open>Facts\<close>

lemma HasPrefix_prefix: "HasPrefix s p \<longleftrightarrow> prefix p s"
  by (auto simp: HasPrefix_def prefix_def) (metis append_take_drop_id)

lemma HasSuffix_suffix: "HasSuffix s p \<longleftrightarrow> suffix p s"
proof
  assume "HasSuffix s p"
  then show "suffix p s" by (metis HasSuffix_def suffix_drop)
qed (auto simp: HasSuffix_def suffix_def)

lemma HasPrefix_append [simp]: "HasPrefix (p @ s) p"
  by (simp add: HasPrefix_def)

lemma HasPrefix_Nil [simp]: "HasPrefix s []"
  by (simp add: HasPrefix_def)

lemma HasPrefix_Cons [simp]: "HasPrefix (c # s) (d # p) \<longleftrightarrow> c = d \<and> HasPrefix s p"
  by (auto simp: HasPrefix_def)

lemma Split_neq_Nil [simp]: "Split s sep \<noteq> []"
  by (induction s) (auto split: list.splits)

lemma Split_no_sep: "sep \<notin> set s \<Longrightarrow> Split s sep = [s]"
  by (induction s) auto

lemma Split_append:
  "sep \<notin> set w \<Longrightarrow> Split (w @ sep # s) sep = w # Split s sep"
  by (induction w) auto

lemma Split_append_sep: "Split (a @ sep # b) sep = Split a sep @ Split b sep"
  by (induction a) (auto split: list.splits)

lemma Split_parts_no_sep: "w \<in> set (Split s sep) \<Longrightarrow> sep \<notin> set w"
  by (induction s arbitrary: w) (auto split: list.splits if_splits)

lemma Split_Join:
  "ws \<noteq> [] \<Longrightarrow> \<forall>w\<in>set ws. sep \<notin> set w \<Longrightarrow> Split (Join ws [sep]) sep = ws"
  by (induction ws "[sep]" rule: Join.induct) (auto simp: Split_no_sep Split_append)

lemma Join_Split [simp]: "Join (Split s sep) [sep] = s"
proof (induction s)
  case (Cons c s)
  then show ?case
    by (cases "Split s sep" rule: list.exhaust; cases "tl (Split s sep)") auto
qed simp

lemma Join_snoc: "ws \<noteq> [] \<Longrightarrow> Join (ws @ [v]) sep = Join ws sep @ sep @ v"
  by (induction ws sep rule: Join.induct) auto

lemma raw_lines_Join_nl:
  assumes "ls \<noteq> []" and "\<forall>l\<in>set ls. nl \<notin> set l"
  shows "raw_lines (Join ls [nl] @ [nl]) = ls"
proof -
  have "Join ls [nl] @ [nl] = Join (ls @ [[]]) [nl]"
    using assms(1) by (simp add: Join_snoc)
  then have "Split (Join ls [nl] @ [nl]) nl = ls @ [[]]"
    using assms by (simp add: Split_Join)
  then show ?thesis by simp
qed

lemma drop_cr_id: "cr \<notin> set l \<Longrightarrow> drop_cr l = l"
  by (auto simp: drop_cr_def dest: last_in_set)

lemma drop_cr_set: "set (drop_cr l) \<subseteq> set l"
  by (auto simp: drop_cr_def dest: in_set_butlastD)

lemma scan_lines_Lines:
  "\<forall>l\<in>set (raw_lines s). length l < lim \<Longrightarrow> scan_lines lim s = Lines (map drop_cr (raw_lines s))"
  by (simp add: scan_lines_def takeWhile_eq_all_conv [THEN iffD2] del: raw_lines.simps)

lemma scan_lines_LinesD:
  assumes "scan_lines lim s = Lines ls"
  shows "ls = map drop_cr (raw_lines s)" and "l \<in> set (raw_lines s) \<Longrightarrow> length l < lim"
proof -
  let ?t = "takeWhile (\<lambda>l. length l < lim) (raw_lines s)"
  have len: "length ?t = length (raw_lines s)" and ls: "ls = map drop_cr (raw_lines s)"
    using assms by (auto simp: scan_lines_def Let_def simp del: raw_lines.simps split: if_splits)
  have "?t = raw_lines s"
    using len takeWhile_eq_take [of "\<lambda>l. length l < lim" "raw_lines s"] by simp
  then show "ls = map drop_cr (raw_lines s)" and "l \<in> set (raw_lines s) \<Longrightarrow> length l < lim"
    using ls set_takeWhileD [of l "\<lambda>l. length l < lim" "raw_lines s"] by auto
qed

lemma scan_lines_no_nl:
  assumes "scan_lines lim s = Lines ls" and "l \<in> set ls"
  shows "nl \<notin> set l"
proof -
  from assms obtain r where r: "r \<in> set (raw_lines s)" "l = drop_cr r"
    by (auto simp: scan_lines_def Let_def split: if_splits)
  then have "r \<in> set (Split s nl)"
    by (auto split: if_splits dest: in_set_butlastD)
  then have "nl \<notin> set r" by (rule Split_parts_no_sep)
  then show ?thesis using r(2) drop_cr_set [of r] by auto
qed

lemma digit_char_digit [simp]: "d < 10 \<Longrightarrow> is_digit (digit_char d)"
  by (simp add: is_digit_def digit_char_def)

lemma digit_val_char [simp]: "d < 10 \<Longrightarrow> digit_val (digit_char d) = int d"
  by (simp add: digit_val_def digit_char_def)

lemma digits_val_snoc: "digits_val (s @ [c]) = 10 * digits_val s + digit_val c"
  by (simp add: digits_val_def)

lemma nat_digits_neq_Nil [simp]: "nat_digits n \<noteq> []"
  by (subst nat_digits.simps) simp

lemma nat_digits_all: "list_all is_digit (nat_digits n)"
  by (induction n rule: nat_digits.induct) (subst nat_digits.simps, simp)

lemma digits_val_nat_digits [simp]: "digits_val (nat_digits n) = int n"
proof (induction n rule: nat_digits.induct)
  case (1 n)
  show ?case
  proof (cases "n < 10")
    case True
    then show ?thesis by (subst nat_digits.simps) (simp add: digits_val_def)
  next
    case False
    with 1 have "digits_val (nat_digits n) = 10 * int (n div 10) + int (n mod 10)"
      by (subst nat_digits.simps) (simp add: digits_val_snoc)
    then show ?thesis by presburger
  qed
qed

lemma length_nat_digits: "n < 10 ^ k \<Longrightarrow> 0 < k \<Longrightarrow> length (nat_digits n) \<le> k"
proof (induction n arbitrary: k rule: nat_digits.induct)
  case (1 n)
  show ?case
  proof (cases "n < 10")
    case True
    then show ?thesis using "1.prems" by (subst nat_digits.simps) simp
  next
    case False
    then obtain j where k: "k = Suc j" "0 < j"
      using "1.prems" by (cases k; cases "k - 1") auto
    then have "n div 10 < 10 ^ j" using "1.prems" by (simp add: less_mult_imp_div_less mult.commute)
    then have "length (nat_digits (n div 10)) \<le> j" using "1.IH" False k by blast
    then show ?thesis using False k by (subst nat_digits.simps) simp
  qed
qed

lemma nat_digits_chars: "c \<in> set (nat_digits n) \<Longrightarrow> is_digit c"
  using nat_digits_all [of n] by (auto simp: list_all_iff)

lemma nat_digits_sign:
  "hd (nat_digits n) \<noteq> CHR ''-''" "hd (nat_digits n) \<noteq> CHR ''+''"
  using nat_digits_all [of n]
  by (cases "nat_digits n"; auto simp: is_digit_def)+

lemma Atoi_Itoa: "in_int64 n \<Longrightarrow> Atoi (Itoa n) = Some n"
proof (cases "n < 0")
  case True
  assume "in_int64 n"
  with True show ?thesis
    using nat_digits_all [of "nat (- n)"]
    by (simp add: Atoi_def Itoa_def Let_def)
next
  case False
  assume n: "in_int64 n"
  obtain c s where cs: "nat_digits (nat n) = c # s"
    by (metis list.exhaust nat_digits_neq_Nil)
  have "c \<noteq> CHR ''-''" "c \<noteq> CHR ''+''"
    using nat_digits_sign [of "nat n"] cs by auto
  then show ?thesis
    using False n cs nat_digits_all [of "nat n"] digits_val_nat_digits [of "nat n"]
    by (simp add: Atoi_def Itoa_def Let_def)
qed

end
