(* ===== verification/GoPath.thy ===== *)
theory GoPath
  imports GoStrings
begin

text \<open>
  \<open>filepath.Clean\<close>, \<open>Join\<close>, \<open>Dir\<close> and \<open>Base\<close> of Go on a Unix host: a path is split at
  its slashes, empty and \<open>.\<close> elements are dropped, and \<open>..\<close> removes the element before it.  A
  rooted path drops a leading \<open>..\<close>; a relative one keeps it.
\<close>

abbreviation slash :: char where "slash \<equiv> CHR ''/''"

definition rooted :: "string \<Rightarrow> bool" where
  "rooted p \<longleftrightarrow> (case p of c # _ \<Rightarrow> c = slash | [] \<Rightarrow> False)"

text \<open>The elements kept so far are on a stack, last element first.\<close>

fun clean_elems :: "bool \<Rightarrow> string list \<Rightarrow> string list \<Rightarrow> string list" where
  "clean_elems root stack [] = rev stack"
| "clean_elems root stack (e # es) =
     (if e = [] \<or> e = ''.'' then clean_elems root stack es
      else if e = ''..'' then
        (case stack of
           [] \<Rightarrow> clean_elems root (if root then [] else [''..'']) es
         | t # stack' \<Rightarrow> if t = ''..'' then clean_elems root (''..'' # stack) es
                         else clean_elems root stack' es)
      else clean_elems root (e # stack) es)"

definition path_elems :: "string \<Rightarrow> string list" where
  "path_elems p = clean_elems (rooted p) [] (Split p slash)"

definition Clean :: "string \<Rightarrow> string" where
  "Clean p =
     (let es = path_elems p
      in if rooted p then slash # Join es [slash]
         else if es = [] then ''.'' else Join es [slash])"

definition path_Join :: "string list \<Rightarrow> string" where
  "path_Join ps =
     (case dropWhile (\<lambda>p. p = []) ps of [] \<Rightarrow> [] | qs \<Rightarrow> Clean (Join qs [slash]))"

definition Base :: "string \<Rightarrow> string" where
  "Base p =
     (if p = [] then ''.''
      else let q = TrimRight p [slash] in if q = [] then [slash] else last (Split q slash))"

subsection \<open>Elements of a cleaned path\<close>

definition plain_elem :: "string \<Rightarrow> bool" where
  "plain_elem e \<longleftrightarrow> e \<noteq> [] \<and> e \<noteq> ''.'' \<and> e \<noteq> ''..'' \<and> slash \<notin> set e"

text \<open>Cleaned elements are some \<open>..\<close> (none when rooted), then plain elements.\<close>

definition clean_shape :: "bool \<Rightarrow> string list \<Rightarrow> bool" where
  "clean_shape root es \<longleftrightarrow>
     (\<exists>n ps. es = replicate n ''..'' @ ps \<and> (root \<longrightarrow> n = 0) \<and> list_all plain_elem ps)"

lemma clean_elems_shape:
  assumes "clean_shape root (rev stack)" and "\<forall>e\<in>set es. slash \<notin> set e"
  shows "clean_shape root (clean_elems root stack es)"
  using assms
proof (induction root stack es rule: clean_elems.induct)
  case (1 root stack)
  then show ?case by simp
next
  case (2 root stack e es)
  show ?case
  proof (cases "e = [] \<or> e = ''.''")
    case True
    with 2 show ?thesis by auto
  next
    case ne: False
    show ?thesis
    proof (cases "e = ''..''")
      case False
      obtain n ps where "rev stack = replicate n ''..'' @ ps" "root \<longrightarrow> n = 0" "list_all plain_elem ps"
        using "2.prems" by (auto simp: clean_shape_def)
      moreover have "plain_elem e" using "2.prems" ne False by (auto simp: plain_elem_def)
      ultimately have "clean_shape root (rev (e # stack))"
        unfolding clean_shape_def by (intro exI [of _ n] exI [of _ "ps @ [e]"]) simp
      then show ?thesis using 2 ne False by auto
    next
      case dd: True
      show ?thesis
      proof (cases stack)
        case Nil
        have "clean_shape root (rev (if root then [] else [''..'']))"
          unfolding clean_shape_def
          by (intro exI [of _ "if root then 0 else 1"] exI [of _ "[]"]) simp
        then show ?thesis using 2 ne dd Nil by auto
      next
        case (Cons t st)
        obtain n ps where np: "rev stack = replicate n ''..'' @ ps" "root \<longrightarrow> n = 0" "list_all plain_elem ps"
          using "2.prems" by (auto simp: clean_shape_def)
        show ?thesis
        proof (cases "t = ''..''")
          case True
          have "ps = []"
          proof (rule ccontr)
            assume "ps \<noteq> []"
            then have "last (rev stack) = last ps" using np by simp
            then have "plain_elem t" using np(3) Cons \<open>ps \<noteq> []\<close> by (simp add: list_all_iff)
            then show False using True by (simp add: plain_elem_def)
          qed
          then have "clean_shape root (rev (''..'' # stack))"
            unfolding clean_shape_def using np Cons True
            by (intro exI [of _ "Suc n"] exI [of _ "[]"]) (auto simp: replicate_append_same)
          then show ?thesis using 2 ne dd Cons True by auto
        next
          case False
          have "ps \<noteq> []"
          proof
            assume "ps = []"
            then have "last (rev stack) \<in> set (replicate n ''..'')" using np Cons
              by (metis append_Nil2 last_in_set rev_is_Nil_conv list.distinct(1))
            then show False using False Cons by simp
          qed
          then obtain qs q where qs: "ps = qs @ [q]" by (metis rev_exhaust)
          then have "rev st = replicate n ''..'' @ qs" using np(1) Cons by simp
          then have "clean_shape root (rev st)"
            unfolding clean_shape_def using np qs by auto
          then show ?thesis using 2 ne dd Cons False by auto
        qed
      qed
    qed
  qed
qed

lemma path_elems_shape: "clean_shape (rooted p) (path_elems p)"
  unfolding path_elems_def
  by (rule clean_elems_shape) (auto simp: clean_shape_def dest: Split_parts_no_sep)

lemma clean_elems_plain:
  "list_all plain_elem es \<Longrightarrow> clean_elems root stack (es @ fs) = clean_elems root (rev es @ stack) fs"
  by (induction es arbitrary: stack) (auto simp: plain_elem_def)

lemma clean_elems_plain_all:
  "list_all plain_elem es \<Longrightarrow> clean_elems root stack es = rev stack @ es"
  using clean_elems_plain [of es root stack "[]"] by simp

lemma Join_prefix_cons: "es \<noteq> [] \<Longrightarrow> Join (e # es) sep = e @ sep @ Join es sep"
  by (cases es) simp_all

lemma Join_append: "es \<noteq> [] \<Longrightarrow> fs \<noteq> [] \<Longrightarrow> Join (es @ fs) sep = Join es sep @ sep @ Join fs sep"
  by (induction es sep rule: Join.induct) (auto simp: Join_prefix_cons)

lemma plain_no_slash: "list_all plain_elem es \<Longrightarrow> \<forall>w\<in>set es. slash \<notin> set w"
  by (auto simp: list_all_iff plain_elem_def)

lemma Split_Join_plain:
  "es \<noteq> [] \<Longrightarrow> list_all plain_elem es \<Longrightarrow> Split (Join es [slash]) slash = es"
  by (simp add: Split_Join plain_no_slash)

subsection \<open>Joining plain elements onto a path\<close>

lemma clean_elems_append_plain:
  "list_all plain_elem fs \<Longrightarrow> clean_elems root stack (es @ fs) = clean_elems root stack es @ fs"
  by (induction root stack es rule: clean_elems.induct)
    (auto simp: clean_elems_plain_all split: list.split)

lemma rooted_append: "p \<noteq> [] \<Longrightarrow> rooted (p @ q) = rooted p"
  by (cases p) (simp_all add: rooted_def)

lemma plain_not_rooted: "plain_elem e \<Longrightarrow> \<not> rooted (e @ q)"
  by (cases e) (auto simp: plain_elem_def rooted_def)

lemma Join_Cons_head: "\<exists>q. Join (e # es) sep = e @ q"
  by (cases es) auto

lemma Join_plain_not_rooted: "list_all plain_elem es \<Longrightarrow> \<not> rooted (Join es [slash])"
proof (cases es)
  case (Cons e es')
  assume p: "list_all plain_elem es"
  obtain q where "Join es [slash] = e @ q" using Join_Cons_head [of e es'] Cons by auto
  then show ?thesis using p Cons by (simp add: plain_not_rooted)
qed (simp add: rooted_def)

lemma path_elems_Join_plain:
  "es \<noteq> [] \<Longrightarrow> list_all plain_elem es \<Longrightarrow> path_elems (Join es [slash]) = es"
  by (simp add: path_elems_def Split_Join_plain clean_elems_plain_all)

lemma Clean_Join_plain:
  "es \<noteq> [] \<Longrightarrow> list_all plain_elem es \<Longrightarrow> Clean (Join es [slash]) = Join es [slash]"
  by (simp add: Clean_def Let_def path_elems_Join_plain Join_plain_not_rooted)

lemma path_Join_two:
  "d \<noteq> [] \<Longrightarrow> e \<noteq> [] \<Longrightarrow> path_Join [d, e] = Clean (d @ slash # e)"
  by (simp add: path_Join_def)

lemma path_elems_append_plain:
  "d \<noteq> [] \<Longrightarrow> es \<noteq> [] \<Longrightarrow> list_all plain_elem es \<Longrightarrow>
     path_elems (d @ slash # Join es [slash]) = path_elems d @ es"
  by (simp add: path_elems_def rooted_append Split_append_sep Split_Join_plain clean_elems_append_plain)

lemma path_Join_plain_suffix: "\<exists>P. \<forall>e. plain_elem e \<longrightarrow> path_Join [d, e] = P @ e"
proof (cases "d = []")
  case True
  have "path_Join [d, e] = [] @ e" if "plain_elem e" for e
    using Clean_Join_plain [of "[e]"] that True by (auto simp: path_Join_def plain_elem_def)
  then show ?thesis by blast
next
  case d: False
  let ?X = "path_elems d"
  let ?P = "(if rooted d then [slash] else []) @ (if ?X = [] then [] else Join ?X [slash] @ [slash])"
  have "path_Join [d, e] = ?P @ e" if e: "plain_elem e" for e
  proof -
    have "e \<noteq> []" using e by (simp add: plain_elem_def)
    moreover have "path_elems (d @ slash # e) = ?X @ [e]"
      using path_elems_append_plain [of d "[e]"] d e by simp
    ultimately show ?thesis
      using d by (simp add: path_Join_two Clean_def Let_def rooted_append Join_snoc)
  qed
  then show ?thesis by blast
qed

end
