(* ===== verification/AtomicFile.thy ===== *)
theory AtomicFile
  imports GoPath
begin

text \<open>
  The write-to-a-temporary-file-then-rename idiom that \<open>internal/lock/acquire.go\<close>
  (\<open>writeOwnerAtomic\<close>), \<open>internal/serverid/identity.go\<close> (\<open>Write\<close>) and
  \<open>internal/serverid/properties_writer.go\<close> (\<open>PatchProperties\<close>) share.  A directory maps
  paths to contents; the content of a structured file is the value it decodes to, or
  \<open>Garbled\<close> when it does not decode (as a half-written file).  The states a crash could
  expose are listed in the order the calls produce them, and every call can be the one that
  fails.
\<close>

datatype 'a content = Garbled | Holds 'a

type_synonym 'a dir = "string \<rightharpoonup> 'a content"

datatype write_fault =
    NoFault
  | MkdirFails go_error
  | CreateTempFails go_error
  | WriteFails go_error
  | CloseFails go_error
  | RenameFails go_error

definition atomic_states :: "write_fault \<Rightarrow> string \<Rightarrow> string \<Rightarrow> 'a \<Rightarrow> 'a dir \<Rightarrow> 'a dir list" where
  "atomic_states f tmp final v d =
     (let created = d(tmp \<mapsto> Garbled); written = d(tmp \<mapsto> Holds v); removed = d(tmp := None)
      in case f of
           MkdirFails _ \<Rightarrow> [d]
         | CreateTempFails _ \<Rightarrow> [d]
         | WriteFails _ \<Rightarrow> [d, created, removed]
         | CloseFails _ \<Rightarrow> [d, created, written, removed]
         | RenameFails _ \<Rightarrow> [d, created, written, removed]
         | NoFault \<Rightarrow> [d, created, written, removed(final \<mapsto> Holds v)])"

fun fault_error :: "write_fault \<Rightarrow> go_error option" where
  "fault_error NoFault = None"
| "fault_error (MkdirFails e) = Some e"
| "fault_error (CreateTempFails e) = Some e"
| "fault_error (WriteFails e) = Some e"
| "fault_error (CloseFails e) = Some e"
| "fault_error (RenameFails e) = Some e"

definition atomic_write :: "write_fault \<Rightarrow> string \<Rightarrow> string \<Rightarrow> 'a \<Rightarrow> 'a dir \<Rightarrow> go_error option \<times> 'a dir" where
  "atomic_write f tmp final v d = (fault_error f, last (atomic_states f tmp final v d))"

lemma atomic_states_old_or_new:
  "tmp \<noteq> final \<Longrightarrow> s \<in> set (atomic_states f tmp final v d) \<Longrightarrow>
     s final = d final \<or> (f = NoFault \<and> s final = Some (Holds v))"
  by (cases f) (auto simp: atomic_states_def Let_def)

lemma atomic_states_frame:
  "p \<noteq> tmp \<Longrightarrow> p \<noteq> final \<Longrightarrow> s \<in> set (atomic_states f tmp final v d) \<Longrightarrow> s p = d p"
  by (cases f) (auto simp: atomic_states_def Let_def)

lemma atomic_write_error:
  "d tmp = None \<Longrightarrow> fst (atomic_write f tmp final v d) = Some e \<Longrightarrow> snd (atomic_write f tmp final v d) = d"
  by (cases f) (auto simp: atomic_write_def atomic_states_def Let_def fun_upd_idem)

lemma atomic_write_ok:
  "d tmp = None \<Longrightarrow> tmp \<noteq> final \<Longrightarrow> fst (atomic_write f tmp final v d) = None \<Longrightarrow>
     snd (atomic_write f tmp final v d) = d(final \<mapsto> Holds v)"
  by (cases f) (auto simp: atomic_write_def atomic_states_def Let_def fun_upd_idem)

lemma atomic_write_NoFault [simp]:
  "d tmp = None \<Longrightarrow> tmp \<noteq> final \<Longrightarrow> atomic_write NoFault tmp final v d = (None, d(final \<mapsto> Holds v))"
  by (simp add: atomic_write_def atomic_states_def Let_def fun_upd_idem)

end
