(* ===== verification/Lock.thy ===== *)
theory Lock
  imports AtomicFile
begin

text \<open>
  Cross-instance ownership, \<open>internal/lock/owner.go\<close> and \<open>internal/lock/acquire.go\<close>: the
  owner file of a server directory, its classification from the point of view of an instance, and
  acquire, refresh and release.  The directory shared by the instances is a map from paths to
  owner files.
\<close>

definition DefaultStaleAfter :: duration where "DefaultStaleAfter = 60 * second"
definition HeartbeatInterval :: duration where "HeartbeatInterval = 10 * second"

record owner =
  own_Instance :: string
  own_Slot :: string
  own_Host :: string
  own_PID :: int
  own_StartedAt :: time
  own_Heartbeat :: time

datatype lock_state = StateFree | StateOwnedSelf | StateOwnedOther | StateStale

datatype lock_error =
    HeldBySelf string
  | StaleNeedsForce owner
  | HeldByOther owner
  | ReadFailed go_error
  | ParseFailed
  | WriteFailed go_error

text \<open>\<open>ErrAlreadyHeld\<close> wraps the first three.\<close>

fun is_ErrAlreadyHeld :: "lock_error \<Rightarrow> bool" where
  "is_ErrAlreadyHeld (HeldBySelf _) = True"
| "is_ErrAlreadyHeld (StaleNeedsForce _) = True"
| "is_ErrAlreadyHeld (HeldByOther _) = True"
| "is_ErrAlreadyHeld _ = False"

definition Path :: "string \<Rightarrow> string" where
  "Path serverDir = path_Join [serverDir, ''.mcsm'', ''owner.json'']"

text \<open>A failing read (not a missing file) is the argument \<open>io\<close>.\<close>

definition Read :: "go_error option \<Rightarrow> string \<Rightarrow> owner dir \<Rightarrow> lock_error + owner option" where
  "Read io serverDir d =
     (case io of Some e \<Rightarrow> Inl (ReadFailed e)
      | None \<Rightarrow>
          (case d (Path serverDir) of
             None \<Rightarrow> Inr None
           | Some Garbled \<Rightarrow> Inl ParseFailed
           | Some (Holds o') \<Rightarrow> Inr (Some o')))"

definition IsStale :: "time \<Rightarrow> owner option \<Rightarrow> duration \<Rightarrow> bool" where
  "IsStale now o' threshold =
     (case o' of None \<Rightarrow> False | Some o'' \<Rightarrow> now - own_Heartbeat o'' > threshold)"

definition Classify :: "time \<Rightarrow> owner option \<Rightarrow> string \<Rightarrow> duration \<Rightarrow> lock_state" where
  "Classify now o' instanceName staleThreshold =
     (case o' of
        None \<Rightarrow> StateFree
      | Some o'' \<Rightarrow>
          if IsStale now o' staleThreshold then StateStale
          else if own_Instance o'' = instanceName then StateOwnedSelf
          else StateOwnedOther)"

text \<open>Removing an absent file is no error; another failure leaves the file.\<close>

definition Remove :: "go_error option \<Rightarrow> string \<Rightarrow> owner dir \<Rightarrow> go_error option \<times> owner dir" where
  "Remove io serverDir d =
     (if d (Path serverDir) = None then (None, d)
      else case io of Some e \<Rightarrow> (Some e, d) | None \<Rightarrow> (None, d(Path serverDir := None)))"

definition writeOwnerAtomic :: "write_fault \<Rightarrow> string \<Rightarrow> string \<Rightarrow> owner \<Rightarrow> owner dir \<Rightarrow> go_error option \<times> owner dir" where
  "writeOwnerAtomic f tmp serverDir o' d = atomic_write f tmp (Path serverDir) o' d"

text \<open>A held lock: the heartbeat loop runs while \<open>h_cancel\<close> (the cancel function is set).\<close>

record held =
  h_serverDir :: string
  h_owner :: owner
  h_cancel :: bool

record lock_req =
  rq_dir :: string
  rq_instance :: string
  rq_slot :: string
  rq_host :: string
  rq_pid :: int
  rq_force :: bool

definition new_owner :: "time \<Rightarrow> lock_req \<Rightarrow> owner" where
  "new_owner now r =
     \<lparr>own_Instance = rq_instance r, own_Slot = rq_slot r, own_Host = rq_host r, own_PID = rq_pid r,
      own_StartedAt = now, own_Heartbeat = now\<rparr>"

text \<open>The decision taken on the owner record that was read: \<open>None\<close> lets the write proceed.\<close>

definition acquire_refusal :: "time \<Rightarrow> lock_req \<Rightarrow> owner option \<Rightarrow> lock_error option" where
  "acquire_refusal now r cur =
     (case cur of
        None \<Rightarrow> None
      | Some c \<Rightarrow>
          (case Classify now cur (rq_instance r) DefaultStaleAfter of
             StateOwnedSelf \<Rightarrow> if own_Slot c \<noteq> rq_slot r then Some (HeldBySelf (own_Slot c)) else None
           | StateStale \<Rightarrow> if \<not> rq_force r then Some (StaleNeedsForce c) else None
           | StateOwnedOther \<Rightarrow> Some (HeldByOther c)
           | StateFree \<Rightarrow> None))"

definition TryAcquire ::
    "time \<Rightarrow> go_error option \<Rightarrow> write_fault \<Rightarrow> string \<Rightarrow> lock_req \<Rightarrow> owner dir \<Rightarrow> (lock_error + held) \<times> owner dir" where
  "TryAcquire now io f tmp r d =
     (case Read io (rq_dir r) d of
        Inl e \<Rightarrow> (Inl e, d)
      | Inr cur \<Rightarrow>
          (case acquire_refusal now r cur of
             Some e \<Rightarrow> (Inl e, d)
           | None \<Rightarrow>
               (case writeOwnerAtomic f tmp (rq_dir r) (new_owner now r) d of
                  (Some e, d') \<Rightarrow> (Inl (WriteFailed e), d')
                | (None, d') \<Rightarrow>
                    (Inr \<lparr>h_serverDir = rq_dir r, h_owner = new_owner now r, h_cancel = True\<rparr>, d'))))"

text \<open>The writing half of an acquisition that was not refused.\<close>

definition acquire_write ::
    "time \<Rightarrow> write_fault \<Rightarrow> string \<Rightarrow> lock_req \<Rightarrow> owner dir \<Rightarrow> (lock_error + held) \<times> owner dir" where
  "acquire_write now f tmp r d =
     (case writeOwnerAtomic f tmp (rq_dir r) (new_owner now r) d of
        (Some e, d') \<Rightarrow> (Inl (WriteFailed e), d')
      | (None, d') \<Rightarrow> (Inr \<lparr>h_serverDir = rq_dir r, h_owner = new_owner now r, h_cancel = True\<rparr>, d'))"

lemma TryAcquire_halves:
  "TryAcquire now io f tmp r d =
     (case Read io (rq_dir r) d of
        Inl e \<Rightarrow> (Inl e, d)
      | Inr cur \<Rightarrow> (case acquire_refusal now r cur of
                      Some e \<Rightarrow> (Inl e, d)
                    | None \<Rightarrow> acquire_write now f tmp r d))"
  by (simp add: TryAcquire_def acquire_write_def split: sum.split option.split)

definition Refresh :: "time \<Rightarrow> write_fault \<Rightarrow> string \<Rightarrow> held \<Rightarrow> owner dir \<Rightarrow> go_error option \<times> held \<times> owner dir" where
  "Refresh now f tmp h d =
     (let h = h\<lparr>h_owner := (h_owner h)\<lparr>own_Heartbeat := now\<rparr>\<rparr>;
          (e, d') = writeOwnerAtomic f tmp (h_serverDir h) (h_owner h) d
      in (e, h, d'))"

definition Release :: "go_error option \<Rightarrow> held \<Rightarrow> owner dir \<Rightarrow> go_error option \<times> held \<times> owner dir" where
  "Release io h d =
     (let h = (if h_cancel h then h\<lparr>h_cancel := False\<rparr> else h);
          (e, d') = Remove io (h_serverDir h) d
      in (e, h, d'))"

subsection \<open>Classification\<close>

lemma Classify_cases:
  "Classify now o' me thr = StateFree \<longleftrightarrow> o' = None"
  "Classify now (Some c) me thr = StateStale \<longleftrightarrow> now - own_Heartbeat c > thr"
  "Classify now (Some c) me thr = StateOwnedSelf \<longleftrightarrow> now - own_Heartbeat c \<le> thr \<and> own_Instance c = me"
  "Classify now (Some c) me thr = StateOwnedOther \<longleftrightarrow> now - own_Heartbeat c \<le> thr \<and> own_Instance c \<noteq> me"
  by (auto simp: Classify_def IsStale_def split: option.splits)

text \<open>
  The classification of an owner record is exactly the documented table: free without a
  record, stale when its heartbeat is older than the threshold whoever owns it, and otherwise owned
  by this instance or by another.  Two instances never both see a fresh record as their own.
\<close>

theorem Classify_table:
  "Classify now None me thr = StateFree
   \<and> (Classify now (Some c) me thr = StateStale \<longleftrightarrow> now - own_Heartbeat c > thr)
   \<and> (Classify now (Some c) me thr = StateOwnedSelf \<longleftrightarrow> now - own_Heartbeat c \<le> thr \<and> own_Instance c = me)
   \<and> (Classify now (Some c) me thr = StateOwnedOther \<longleftrightarrow> now - own_Heartbeat c \<le> thr \<and> own_Instance c \<noteq> me)"
  by (auto simp: Classify_def IsStale_def)

subsection \<open>Acquiring\<close>

lemma acquire_refusal_None:
  "acquire_refusal now r cur = None \<longleftrightarrow>
     (case cur of None \<Rightarrow> True
      | Some c \<Rightarrow> if now - own_Heartbeat c > DefaultStaleAfter then rq_force r
                  else own_Instance c = rq_instance r \<and> own_Slot c = rq_slot r)"
  by (cases cur) (auto simp: acquire_refusal_def Classify_def IsStale_def split: if_splits)

lemma TryAcquire_ok_iff:
  assumes "d tmp = None" and "tmp \<noteq> Path (rq_dir r)"
  shows "(\<exists>h d'. TryAcquire now io f tmp r d = (Inr h, d')) \<longleftrightarrow>
    (\<exists>cur. Read io (rq_dir r) d = Inr cur \<and> acquire_refusal now r cur = None \<and> fault_error f = None)"
  using assms
  by (auto simp: TryAcquire_def writeOwnerAtomic_def atomic_write_def split: sum.splits option.splits prod.splits)

lemma TryAcquire_Inr:
  assumes "TryAcquire now io f tmp r d = (Inr h, d')" and "d tmp = None" and "tmp \<noteq> Path (rq_dir r)"
  shows "d' = d(Path (rq_dir r) \<mapsto> Holds (new_owner now r))
    \<and> h = \<lparr>h_serverDir = rq_dir r, h_owner = new_owner now r, h_cancel = True\<rparr>
    \<and> (\<exists>cur. Read io (rq_dir r) d = Inr cur \<and> acquire_refusal now r cur = None)"
proof -
  obtain cur where c: "Read io (rq_dir r) d = Inr cur" "acquire_refusal now r cur = None"
    using assms(1) by (auto simp: TryAcquire_def split: sum.splits option.splits prod.splits)
  obtain e dd where w: "writeOwnerAtomic f tmp (rq_dir r) (new_owner now r) d = (e, dd)" by fastforce
  have e: "e = None" "dd = d'" "h = \<lparr>h_serverDir = rq_dir r, h_owner = new_owner now r, h_cancel = True\<rparr>"
    using assms(1) c w by (auto simp: TryAcquire_def split: option.splits)
  have "d' = d(Path (rq_dir r) \<mapsto> Holds (new_owner now r))"
    using atomic_write_ok [where f = f and d = d and v = "new_owner now r", OF assms(2,3)] w e
    by (simp add: writeOwnerAtomic_def)
  then show ?thesis using c e by simp
qed

lemma TryAcquire_Inl:
  assumes "TryAcquire now io f tmp r d = (Inl e, d')" and "d tmp = None"
  shows "d' = d"
proof -
  have w: "fst (writeOwnerAtomic f tmp (rq_dir r) v d) = Some e' \<Longrightarrow>
      snd (writeOwnerAtomic f tmp (rq_dir r) v d) = d" for v e'
    unfolding writeOwnerAtomic_def using assms(2) by (rule atomic_write_error)
  show ?thesis
    using assms(1) w [of "new_owner now r"]
    by (cases "writeOwnerAtomic f tmp (rq_dir r) (new_owner now r) d")
       (auto simp: TryAcquire_def split: sum.splits option.splits)
qed


definition demo_req :: "string \<Rightarrow> string \<Rightarrow> lock_req" where
  "demo_req inst sl = \<lparr>rq_dir = ''/srv/a'', rq_instance = inst, rq_slot = sl, rq_host = ''h'', rq_pid = 7, rq_force = False\<rparr>"

lemma demo_path: "Path ''/srv/a'' = ''/srv/a/.mcsm/owner.json''"
  by code_simp

lemma demo_dir: "rq_dir (demo_req i s) = ''/srv/a''"
  by (simp add: demo_req_def)


subsection \<open>The protocol between instances\<close>

text \<open>
  The instances that share one server directory: the clock, the directory, and the lock each
  (instance, slot) believes it holds.  A refused acquire changes nothing and needs no step; a crash
  forgets the lock and leaves the file.  Time advances only while every holder's last heartbeat is
  within the stale threshold, which is what the 10-second heartbeat loop is there for.
\<close>

record world =
  w_now :: time
  w_dir :: "owner dir"
  w_held :: "string \<times> string \<Rightarrow> held option"

inductive lock_step :: "string \<Rightarrow> world \<Rightarrow> world \<Rightarrow> bool" for D where
  acquire:
    "rq_dir r = D \<Longrightarrow> w_dir w tmp = None \<Longrightarrow> tmp \<noteq> Path D \<Longrightarrow>
     TryAcquire (w_now w) io f tmp r (w_dir w) = (Inr h, d') \<Longrightarrow>
     lock_step D w (w\<lparr>w_dir := d', w_held := (w_held w)((rq_instance r, rq_slot r) \<mapsto> h)\<rparr>)"
| refresh:
    "w_held w k = Some h \<Longrightarrow> w_dir w tmp = None \<Longrightarrow> tmp \<noteq> Path D \<Longrightarrow>
     Refresh (w_now w) NoFault tmp h (w_dir w) = (None, h', d') \<Longrightarrow>
     lock_step D w (w\<lparr>w_dir := d', w_held := (w_held w)(k \<mapsto> h')\<rparr>)"
| release:
    "w_held w k = Some h \<Longrightarrow> Release None h (w_dir w) = (None, h', d') \<Longrightarrow>
     lock_step D w (w\<lparr>w_dir := d', w_held := (w_held w)(k := None)\<rparr>)"
| crash: "lock_step D w (w\<lparr>w_held := (w_held w)(k := None)\<rparr>)"
| tick:
    "w_now w \<le> t \<Longrightarrow> (\<And>k h. w_held w k = Some h \<Longrightarrow> t - own_Heartbeat (h_owner h) \<le> DefaultStaleAfter) \<Longrightarrow>
     lock_step D w (w\<lparr>w_now := t\<rparr>)"

inductive lock_reachable :: "string \<Rightarrow> world \<Rightarrow> world \<Rightarrow> bool" for D w0 where
  lr_start: "lock_reachable D w0 w0"
| lr_step: "lock_reachable D w0 w \<Longrightarrow> lock_step D w w' \<Longrightarrow> lock_reachable D w0 w'"

inductive_cases lock_stepE: "lock_step D w w'"

definition lock_inv :: "string \<Rightarrow> world \<Rightarrow> bool" where
  [inv_defs]: "lock_inv D w \<longleftrightarrow>
     (\<forall>k h. w_held w k = Some h \<longrightarrow>
        h_serverDir h = D \<and> w_dir w (Path D) = Some (Holds (h_owner h))
        \<and> (own_Instance (h_owner h), own_Slot (h_owner h)) = k
        \<and> w_now w - own_Heartbeat (h_owner h) \<le> DefaultStaleAfter)"

lemma lock_inv_holder:
  "lock_inv D w \<Longrightarrow> w_held w k = Some h \<Longrightarrow>
     h_serverDir h = D \<and> w_dir w (Path D) = Some (Holds (h_owner h))
     \<and> (own_Instance (h_owner h), own_Slot (h_owner h)) = k
     \<and> w_now w - own_Heartbeat (h_owner h) \<le> DefaultStaleAfter"
  unfolding inv_defs by blast

lemma lock_inv_unique:
  "lock_inv D w \<Longrightarrow> w_held w k = Some h \<Longrightarrow> w_held w k' = Some h' \<Longrightarrow> k = k'"
  using lock_inv_holder [of D w k h] lock_inv_holder [of D w k' h'] by auto

lemma acquire_excludes_others:
  assumes "lock_inv D w" and "rq_dir r = D" and "w_dir w tmp = None" and "tmp \<noteq> Path D"
    and "TryAcquire (w_now w) io f tmp r (w_dir w) = (Inr h, d')" and "w_held w k = Some h0"
  shows "k = (rq_instance r, rq_slot r)"
proof -
  obtain cur where cur: "Read io D (w_dir w) = Inr cur" "acquire_refusal (w_now w) r cur = None"
    using TryAcquire_Inr [OF assms(5,3)] assms(2,4) by auto
  have h: "w_dir w (Path D) = Some (Holds (h_owner h0))"
      "(own_Instance (h_owner h0), own_Slot (h_owner h0)) = k"
      "w_now w - own_Heartbeat (h_owner h0) \<le> DefaultStaleAfter"
    using lock_inv_holder [OF assms(1,6)] by auto
  then have "cur = Some (h_owner h0)" using cur(1) by (auto simp: Read_def split: option.splits)
  then show ?thesis using cur(2) h(2,3) by (auto simp: acquire_refusal_None split: if_splits)
qed

lemma lock_step_inv: "lock_step D w w' \<Longrightarrow> lock_inv D w \<Longrightarrow> lock_inv D w'"
proof (induction rule: lock_step.induct)
  case (acquire r w tmp io f h d')
  have a: "d' = (w_dir w)(Path D \<mapsto> Holds (new_owner (w_now w) r))"
      "h = \<lparr>h_serverDir = D, h_owner = new_owner (w_now w) r, h_cancel = True\<rparr>"
    using TryAcquire_Inr [OF acquire(4,2)] acquire(1,3) by auto
  have only: "w_held w k = None" if "k \<noteq> (rq_instance r, rq_slot r)" for k
    using acquire_excludes_others [OF acquire.prems acquire(1-4)] that by (cases "w_held w k") auto
  show ?case
    using only by (auto simp: inv_defs a new_owner_def DefaultStaleAfter_def)
next
  case (refresh w k h tmp h' d')
  have hi: "h_serverDir h = D" "(own_Instance (h_owner h), own_Slot (h_owner h)) = k"
    using lock_inv_holder [OF refresh.prems refresh(1)] by auto
  have a: "h' = h\<lparr>h_owner := (h_owner h)\<lparr>own_Heartbeat := w_now w\<rparr>\<rparr>"
      "d' = (w_dir w)(Path D \<mapsto> Holds ((h_owner h)\<lparr>own_Heartbeat := w_now w\<rparr>))"
    using refresh(2-4) hi by (auto simp: Refresh_def Let_def writeOwnerAtomic_def)
  have only: "w_held w k' = None" if "k' \<noteq> k" for k'
    using lock_inv_unique [OF refresh.prems refresh(1), of k'] that by (cases "w_held w k'") auto
  show ?case
    using only hi by (auto simp: inv_defs a DefaultStaleAfter_def)
next
  case (release w k h h' d')
  have only: "w_held w k' = None" if "k' \<noteq> k" for k'
    using lock_inv_unique [OF release.prems release(1), of k'] that by (cases "w_held w k'") auto
  then show ?case by (auto simp: inv_defs)
next
  case (crash w k)
  then show ?case by (auto simp: inv_defs)
next
  case (tick w t)
  then show ?case by (auto simp: inv_defs)
qed

lemma lock_reachable_inv: "lock_reachable D w0 w \<Longrightarrow> lock_inv D w0 \<Longrightarrow> lock_inv D w"
  by (induction rule: lock_reachable.induct) (auto intro: lock_step_inv)

definition no_holder :: "world \<Rightarrow> bool" where
  "no_holder w \<longleftrightarrow> (\<forall>k. w_held w k = None)"

lemma lock_inv_no_holder: "no_holder w \<Longrightarrow> lock_inv D w"
  by (simp add: inv_defs no_holder_def)

text \<open>
  C4: mutual exclusion, when the acquisitions of a directory do not overlap.  From any directory in which nobody holds the lock, whatever owner
  file is left in it, and through any sequence of acquires (forced or not), refreshes, releases and
  crashes of any instances, in which holders keep their heartbeat within the stale threshold, two
  holders at the same time are the same slot of the same instance, and the owner file is theirs.
\<close>

theorem lock_mutual_exclusion:
  assumes "no_holder w0" and "lock_reachable D w0 w"
    and "w_held w k = Some h" and "w_held w k' = Some h'"
  shows "k = k' \<and> w_dir w (Path D) = Some (Holds (h_owner h))"
  using lock_reachable_inv [OF assms(2) lock_inv_no_holder [OF assms(1)]] assms(3,4)
    lock_inv_unique lock_inv_holder by blast

definition demo_world :: world where
  "demo_world = \<lparr>w_now = 5, w_dir = Map.empty, w_held = (\<lambda>_. None)\<rparr>"

definition demo_held :: held where
  "demo_held = \<lparr>h_serverDir = ''/srv/a'', h_owner = new_owner 5 (demo_req ''i'' ''s''), h_cancel = True\<rparr>"

lemma demo_acquire:
  "TryAcquire 5 None NoFault ''/tmp1'' (demo_req ''i'' ''s'') Map.empty =
     (Inr demo_held, [''/srv/a/.mcsm/owner.json'' \<mapsto> Holds (new_owner 5 (demo_req ''i'' ''s''))])"
  by (simp add: TryAcquire_def Read_def acquire_refusal_def demo_req_def writeOwnerAtomic_def demo_path demo_held_def)

theorem lock_mutual_exclusion_witness:
  "\<exists>w :: world. w_held w (''i'', ''s'') = Some demo_held \<and> w_dir w (Path ''/srv/a'') = Some (Holds (h_owner demo_held))"
proof -
  let ?w = "demo_world\<lparr>w_dir := [''/srv/a/.mcsm/owner.json'' \<mapsto> Holds (new_owner 5 (demo_req ''i'' ''s''))],
      w_held := (w_held demo_world)((''i'', ''s'') \<mapsto> demo_held)\<rparr>"
  have st: "lock_step ''/srv/a'' demo_world ?w"
    using lock_step.acquire [of "demo_req ''i'' ''s''" "''/srv/a''" demo_world "''/tmp1''" None NoFault demo_held]
      demo_acquire
    by (simp add: demo_req_def demo_world_def demo_path)
  have r: "lock_reachable ''/srv/a'' demo_world ?w"
    by (rule lr_step [OF lr_start st])
  have n: "no_holder demo_world" by (simp add: no_holder_def demo_world_def)
  have h: "w_held ?w (''i'', ''s'') = Some demo_held" by simp
  have d: "w_dir ?w (Path ''/srv/a'') = Some (Holds (h_owner demo_held))"
    by (rule conjunct2 [OF lock_mutual_exclusion [OF n r h h]])
  show ?thesis by (rule exI) (rule conjI [OF h d])
qed

subsection \<open>A holder that lost its lock\<close>

text \<open>
  Release and refresh do not look at the owner file.  A holder whose lock went stale and was
  stolen (a suspended machine, a stalled file system) therefore deletes the new holder's file when
  its slot stops, or writes itself back over it at its next heartbeat.
\<close>

text \<open>
  After another instance has legitimately taken over the server, the previous holder's
  release removes the new holder's owner file, and its refresh makes the file name the previous
  holder again, so that the new holder is classified as a foreign instance's lock.
\<close>

theorem stale_holder_destroys_stolen_lock:
  assumes "TryAcquire now io f tmp r d = (Inr h, d')" and "d tmp = None" and "tmp \<noteq> Path (rq_dir r)"
    and "h_serverDir old = rq_dir r" and "own_Instance (h_owner old) \<noteq> rq_instance r"
    and "d' tmp' = None" and "tmp' \<noteq> Path (rq_dir r)"
  shows "d' (Path (rq_dir r)) = Some (Holds (h_owner h))
    \<and> snd (snd (Release None old d')) (Path (rq_dir r)) = None
    \<and> (\<exists>c. Read None (rq_dir r) (snd (snd (Refresh now NoFault tmp' old d'))) = Inr (Some c)
          \<and> Classify now (Some c) (rq_instance r) DefaultStaleAfter = StateOwnedOther)"
proof -
  have d': "d' = d(Path (rq_dir r) \<mapsto> Holds (new_owner now r))" "h_owner h = new_owner now r"
    using TryAcquire_Inr [OF assms(1-3)] by auto
  show ?thesis
    using assms(4-7)
    by (simp add: d' Release_def Remove_def Refresh_def Let_def writeOwnerAtomic_def Read_def
        Classify_cases DefaultStaleAfter_def)
qed

theorem stale_holder_destroys_stolen_lock_witness:
  "\<exists>d'. snd (snd (Release None (demo_held\<lparr>h_owner := (h_owner demo_held)\<lparr>own_Instance := ''other''\<rparr>\<rparr>) d'))
     (Path ''/srv/a'') = None \<and> d' (Path ''/srv/a'') \<noteq> None"
  using stale_holder_destroys_stolen_lock [OF demo_acquire, where tmp' = "''/tmp2''" and
      old = "demo_held\<lparr>h_owner := (h_owner demo_held)\<lparr>own_Instance := ''other''\<rparr>\<rparr>"]
  by (auto simp: demo_req_def demo_path demo_held_def)

subsection \<open>Two acquisitions that overlap\<close>

text \<open>
  The race the comment on \<open>TryAcquire\<close> names.  When two requests for a free server
  both read before either writes, both succeed; the owner file names the later writer, and the
  first one's release or next heartbeat destroys that record.
\<close>

theorem overlapping_acquires_both_succeed:
  assumes "d (Path D) = None" and "rq_dir r1 = D" and "rq_dir r2 = D"
    and "d t1 = None" and "d t2 = None" and "t1 \<noteq> Path D" and "t2 \<noteq> Path D"
  shows "\<exists>h1 h2 d1 d2. acquire_refusal now1 r1 None = None \<and> acquire_refusal now2 r2 None = None
    \<and> Read None D d = Inr None
    \<and> acquire_write now1 NoFault t1 r1 d = (Inr h1, d1)
    \<and> acquire_write now2 NoFault t2 r2 d1 = (Inr h2, d2)
    \<and> d2 (Path D) = Some (Holds (h_owner h2))
    \<and> snd (snd (Release None h1 d2)) (Path D) = None"
  using assms
  by (simp add: acquire_refusal_def Read_def acquire_write_def writeOwnerAtomic_def Release_def Remove_def Let_def)

theorem overlapping_acquires_both_succeed_witness:
  "\<exists>h1 h2 d1 d2. acquire_write 5 NoFault ''/tmp1'' (demo_req ''i'' ''s'') Map.empty = (Inr h1, d1)
     \<and> acquire_write 6 NoFault ''/tmp2'' (demo_req ''j'' ''t'') d1 = (Inr h2, d2)
     \<and> snd (snd (Release None h1 d2)) (Path ''/srv/a'') = None"
  using overlapping_acquires_both_succeed [of Map.empty "''/srv/a''" "demo_req ''i'' ''s''"
      "demo_req ''j'' ''t''" "''/tmp1''" "''/tmp2''" 5 6]
  by (auto simp: demo_dir demo_path)

end
