(* ===== verification/Heartbeat.thy ===== *)
theory Heartbeat
  imports Lock
begin

text \<open>
  The two goroutines of a held lock (\<open>internal/lock/acquire.go\<close>): the heartbeat loop, which
  takes the mutex in \<open>Refresh\<close> at every tick, and the caller of \<open>Release\<close>, which cancels
  the loop and waits for it to end while it holds that mutex.
\<close>

datatype heartbeat_pc =
    HbSelect      \<comment> \<open>at the \<open>select\<close> of the loop\<close>
  | HbWantMutex   \<comment> \<open>a tick was taken, \<open>Refresh\<close> is at \<open>h.mu.Lock()\<close>\<close>
  | HbInRefresh   \<comment> \<open>inside \<open>Refresh\<close>, holding the mutex\<close>
  | HbExited      \<comment> \<open>returned, \<open>done\<close> is closed\<close>

datatype release_pc =
    RelNotCalled
  | RelWantMutex  \<comment> \<open>at \<open>h.mu.Lock()\<close>\<close>
  | RelCancel     \<comment> \<open>holding the mutex, about to cancel\<close>
  | RelJoin       \<comment> \<open>holding the mutex, at \<open><-h.done\<close>\<close>
  | RelRemove     \<comment> \<open>holding the mutex, about to remove \<open>owner.json\<close>\<close>
  | RelReturned

record held_threads =
  ht_heartbeat :: heartbeat_pc
  ht_release :: release_pc
  ht_cancelled :: bool

definition mutex_free :: "held_threads \<Rightarrow> bool" where
  "mutex_free s \<longleftrightarrow> ht_heartbeat s \<noteq> HbInRefresh \<and> ht_release s \<notin> {RelCancel, RelJoin, RelRemove}"

inductive held_step :: "held_threads \<Rightarrow> held_threads \<Rightarrow> bool" where
  hb_tick: "ht_heartbeat s = HbSelect \<Longrightarrow> held_step s (s\<lparr>ht_heartbeat := HbWantMutex\<rparr>)"
| hb_lock: "ht_heartbeat s = HbWantMutex \<Longrightarrow> mutex_free s \<Longrightarrow> held_step s (s\<lparr>ht_heartbeat := HbInRefresh\<rparr>)"
| hb_unlock: "ht_heartbeat s = HbInRefresh \<Longrightarrow> held_step s (s\<lparr>ht_heartbeat := HbSelect\<rparr>)"
| hb_done: "ht_heartbeat s = HbSelect \<Longrightarrow> ht_cancelled s \<Longrightarrow> held_step s (s\<lparr>ht_heartbeat := HbExited\<rparr>)"
| rel_call: "ht_release s = RelNotCalled \<Longrightarrow> held_step s (s\<lparr>ht_release := RelWantMutex\<rparr>)"
| rel_lock: "ht_release s = RelWantMutex \<Longrightarrow> mutex_free s \<Longrightarrow> held_step s (s\<lparr>ht_release := RelCancel\<rparr>)"
| rel_cancel: "ht_release s = RelCancel \<Longrightarrow>
     held_step s (s\<lparr>ht_release := RelJoin, ht_cancelled := True\<rparr>)"
| rel_join: "ht_release s = RelJoin \<Longrightarrow> ht_heartbeat s = HbExited \<Longrightarrow> held_step s (s\<lparr>ht_release := RelRemove\<rparr>)"
| rel_return: "ht_release s = RelRemove \<Longrightarrow> held_step s (s\<lparr>ht_release := RelReturned\<rparr>)"

inductive_cases held_stepE: "held_step s t"

definition acquired :: held_threads where
  "acquired = \<lparr>ht_heartbeat = HbSelect, ht_release = RelNotCalled, ht_cancelled = False\<rparr>"

inductive held_reachable :: "held_threads \<Rightarrow> bool" where
  ht_start: "held_reachable acquired"
| ht_step: "held_reachable s \<Longrightarrow> held_step s t \<Longrightarrow> held_reachable t"

definition held_inv :: "held_threads \<Rightarrow> bool" where
  [inv_defs]: "held_inv s \<longleftrightarrow>
     (ht_cancelled s \<longleftrightarrow> ht_release s \<in> {RelJoin, RelRemove, RelReturned})
   \<and> (ht_heartbeat s = HbExited \<longrightarrow> ht_cancelled s)
   \<and> (ht_release s \<in> {RelRemove, RelReturned} \<longrightarrow> ht_heartbeat s = HbExited)
   \<and> \<not> (ht_heartbeat s = HbInRefresh \<and> ht_release s \<in> {RelCancel, RelJoin, RelRemove})"

lemma held_step_inv: "held_step s t \<Longrightarrow> held_inv s \<Longrightarrow> held_inv t"
  by (induction rule: held_step.induct) (auto simp: inv_defs mutex_free_def)

lemma acquired_inv: "held_inv acquired"
  by (simp add: inv_defs acquired_def)

lemma held_reachable_inv: "held_reachable s \<Longrightarrow> held_inv s"
  by (induction rule: held_reachable.induct) (auto intro: acquired_inv held_step_inv)

definition deadlocked :: "held_threads \<Rightarrow> bool" where
  "deadlocked s \<longleftrightarrow> ht_heartbeat s = HbWantMutex \<and> ht_release s = RelJoin"

lemma deadlocked_no_step: "deadlocked s \<Longrightarrow> \<not> held_step s t"
  by (auto simp: deadlocked_def mutex_free_def elim!: held_stepE)

lemma step_unless_deadlocked:
  assumes "held_inv s" and "\<not> deadlocked s" and "ht_release s \<noteq> RelReturned"
  shows "\<exists>t. held_step s t"
proof (cases "ht_release s")
  case RelWantMutex
  then show ?thesis
    using assms held_step.intros
    by (cases "ht_heartbeat s") (fastforce simp: inv_defs mutex_free_def)+
next
  case RelJoin
  then show ?thesis
    using assms held_step.intros
    by (cases "ht_heartbeat s") (fastforce simp: inv_defs deadlocked_def)+
qed (use assms held_step.intros in blast)+

definition deadlock_state :: held_threads where
  "deadlock_state = \<lparr>ht_heartbeat = HbWantMutex, ht_release = RelJoin, ht_cancelled = True\<rparr>"

lemma deadlock_reachable: "held_reachable deadlock_state"
proof -
  let ?s = "\<lambda>h r c. \<lparr>ht_heartbeat = h, ht_release = r, ht_cancelled = c\<rparr>"
  have "held_reachable (?s HbSelect RelWantMutex False)"
    using ht_step [OF ht_start rel_call] by (simp add: acquired_def)
  then have "held_reachable (?s HbSelect RelCancel False)"
    using ht_step [OF _ rel_lock] by (force simp: mutex_free_def)
  then have "held_reachable (?s HbSelect RelJoin True)"
    using ht_step [OF _ rel_cancel] by force
  then show ?thesis
    using ht_step [OF _ hb_tick] by (force simp: deadlock_state_def)
qed

text \<open>
  C39: a release can hang for ever, and in exactly one way.  A reachable state of the two
  goroutines from which nothing more can happen, and in which the release has not returned, is
  the one where the heartbeat took a tick and waits for the mutex that the release holds while it
  waits for the heartbeat; and that state is reachable.  The slot calls \<open>Release\<close> with its own
  mutex held, so it hangs with it.
\<close>

theorem release_deadlock_exact:
  assumes "held_reachable s" and "ht_release s \<noteq> RelReturned"
  shows "(\<nexists>t. held_step s t) \<longleftrightarrow> deadlocked s"
  using deadlocked_no_step step_unless_deadlocked [OF held_reachable_inv [OF assms(1)] _ assms(2)]
  by blast

theorem release_deadlock_exact_witness:
  "held_reachable deadlock_state \<and> ht_release deadlock_state = RelJoin \<and> (\<nexists>t. held_step deadlock_state t)"
  using release_deadlock_exact [OF deadlock_reachable] deadlock_reachable
  by (simp add: deadlock_state_def deadlocked_def)

end
