(* ===== verification/Wire.thy ===== *)
theory Wire
  imports GoStrings
begin

text \<open>
  Bytes on the wire: \<open>[]byte\<close> buffers, the little-endian 32-bit integers of
  \<open>encoding/binary\<close>, and \<open>io.ReadFull\<close> over the bytes a connection still delivers.
\<close>

definition byte_of :: "char \<Rightarrow> u8" where
  "byte_of c = word_of_nat (of_char c)"

definition char_of_byte :: "u8 \<Rightarrow> char" where
  "char_of_byte b = char_of (unat b)"

definition bytes_of :: "string \<Rightarrow> u8 list" where
  "bytes_of s = map byte_of s"

definition string_of :: "u8 list \<Rightarrow> string" where
  "string_of bs = map char_of_byte bs"

lemma unat_u8_less: "unat (b::u8) < 256"
proof -
  have "unat b < 2 ^ LENGTH(8)" by (rule unsigned_less)
  then show ?thesis by simp
qed

lemma unat_byte_of [simp]: "unat (byte_of c) = of_char c"
  by (simp add: byte_of_def unsigned_of_nat take_bit_nat_eq_self)

lemma char_of_byte_of [simp]: "char_of_byte (byte_of c) = c"
  by (simp add: char_of_byte_def)

lemma byte_of_char_of_byte [simp]: "byte_of (char_of_byte b) = b"
proof -
  have "unat b < 256" by (rule unat_u8_less)
  then show ?thesis by (simp add: byte_of_def char_of_byte_def)
qed

lemma string_of_bytes_of [simp]: "string_of (bytes_of s) = s"
  by (simp add: string_of_def bytes_of_def comp_def)

lemma length_bytes_of [simp]: "length (bytes_of s) = length s"
  by (simp add: bytes_of_def)

lemma char_of_byte_0 [simp]: "char_of_byte 0 = nul"
  by (simp add: char_of_byte_def char_of_def)

lemma byte_of_eq_0 [simp]: "byte_of c = 0 \<longleftrightarrow> c = nul"
  by (metis byte_of_char_of_byte char_of_byte_0 char_of_byte_of)

lemma sint_of_nat_small: "n < 2 ^ 31 \<Longrightarrow> sint (word_of_nat n :: u32) = int n"
  by (simp add: signed_of_nat signed_take_bit_int_eq_self)

lemma unat_of_nat_small: "n < 2 ^ 32 \<Longrightarrow> unat (word_of_nat n :: u32) = n"
  by (simp add: unsigned_of_nat take_bit_nat_eq_self)

subsection \<open>Little-endian 32-bit integers\<close>

definition PutUint32 :: "u32 \<Rightarrow> u8 list" where
  "PutUint32 w = [ucast w, ucast (drop_bit 8 w), ucast (drop_bit 16 w), ucast (drop_bit 24 w)]"

definition Uint32 :: "u8 list \<Rightarrow> u32" where
  "Uint32 bs = ucast (bs ! 0) OR push_bit 8 (ucast (bs ! 1)) OR push_bit 16 (ucast (bs ! 2))
     OR push_bit 24 (ucast (bs ! 3))"

lemma length_PutUint32 [simp]: "length (PutUint32 w) = 4"
  by (simp add: PutUint32_def)

lemma Uint32_PutUint32 [simp]: "Uint32 (PutUint32 w) = w"
proof (rule bit_word_eqI)
  fix n
  assume "n < LENGTH(32)"
  then have n: "n < 32" by simp
  consider "n < 8" | "8 \<le> n \<and> n < 16" | "16 \<le> n \<and> n < 24" | "24 \<le> n" by linarith
  then show "bit (Uint32 (PutUint32 w)) n = bit w n"
    using n by cases (auto simp: Uint32_def PutUint32_def bit_simps)
qed

subsection \<open>Reading from a connection\<close>

text \<open>
  What a connection still delivers before it ends (or before the deadline fires) is a byte list.
  \<open>io.ReadFull\<close> of \<open>n\<close> bytes takes them from its front, or fails when fewer arrive; the
  bytes it did read are consumed all the same.
\<close>

definition ReadFull :: "nat \<Rightarrow> u8 list \<Rightarrow> u8 list option \<times> u8 list" where
  "ReadFull n s = (if n \<le> length s then (Some (take n s), drop n s) else (None, []))"

lemma ReadFull_append [simp]: "length bs = n \<Longrightarrow> ReadFull n (bs @ rest) = (Some bs, rest)"
  by (simp add: ReadFull_def)

lemma ReadFull_short: "length s < n \<Longrightarrow> ReadFull n s = (None, [])"
  by (simp add: ReadFull_def)

lemma ReadFull_Some: "ReadFull n s = (Some bs, r) \<Longrightarrow> s = bs @ r \<and> length bs = n"
  by (auto simp: ReadFull_def split: if_splits)

end
