(* ===== verification/Rcon.thy ===== *)
theory Rcon
  imports Wire
begin

text \<open>
  The Source RCON client, \<open>internal/rcon/rcon.go\<close>.  The connection is the list of bytes it
  still delivers before it ends or the deadline fires, and the list of the packets written; a
  write can fail, which is an argument of the operation.
\<close>

definition typeLogin :: u32 where "typeLogin = 3"
definition typeExecCmd :: u32 where "typeExecCmd = 2"
definition typeResponse :: u32 where "typeResponse = 0"
definition maxPayload :: nat where "maxPayload = 1413"

datatype rcon_error =
    ErrAuthFailed
  | ErrClosed
  | CommandTooLong
  | WriteError go_error
  | ReadError
  | ImplausibleLength u32
  | IdMismatch u32 u32
  | AuthIdMismatch u32 u32
  | Panic

record client =
  cl_id :: u32
  cl_closed :: bool
  cl_in :: "u8 list"
  cl_out :: "u8 list list"

subsection \<open>Wire helpers\<close>

text \<open>
  The length is computed in \<open>int32\<close>; \<open>make\<close> panics on a negative size, and the writes at
  fixed offsets panic when the buffer is shorter than the header.
\<close>

definition writePacket :: "u32 \<Rightarrow> u32 \<Rightarrow> string \<Rightarrow> rcon_error + u8 list" where
  "writePacket rid ptype payload =
     (let body = bytes_of payload;
          len = (word_of_nat (4 + 4 + length body + 2) :: u32);
          n = sint (4 + len)
      in if n < 12 then Inl Panic
         else let room = nat n - 12;
                  copied = take room body
              in Inr (PutUint32 len @ PutUint32 rid @ PutUint32 ptype @ copied
                      @ replicate (room - length copied) 0))"

fun until_nul :: "u8 list \<Rightarrow> u8 list" where
  "until_nul [] = []"
| "until_nul (b # bs) = (if b = 0 then [] else b # until_nul bs)"

definition readPacket :: "u8 list \<Rightarrow> (rcon_error + u32 \<times> u32 \<times> string) \<times> u8 list" where
  "readPacket s =
     (case ReadFull 4 s of
        (None, r) \<Rightarrow> (Inl ReadError, r)
      | (Some lenBuf, r) \<Rightarrow>
          let len = Uint32 lenBuf
          in if len < 10 \<or> 4096 < len then (Inl (ImplausibleLength len), r)
             else case ReadFull (unat len) r of
                    (None, r') \<Rightarrow> (Inl ReadError, r')
                  | (Some body, r') \<Rightarrow>
                      (Inr (Uint32 (take 4 body), Uint32 (take 4 (drop 4 body)),
                            string_of (until_nul (drop 8 body))), r'))"

subsection \<open>The client\<close>

text \<open>\<open>atomic.Int32.Add\<close> wraps; identifiers that are not positive restart at 1.\<close>

definition nextID :: "client \<Rightarrow> u32 \<times> client" where
  "nextID c =
     (let rid = cl_id c + 1
      in if sint rid \<le> 0 then (1, c\<lparr>cl_id := 1\<rparr>) else (rid, c\<lparr>cl_id := rid\<rparr>))"

definition send_packet :: "go_error option \<Rightarrow> u32 \<Rightarrow> u32 \<Rightarrow> string \<Rightarrow> client \<Rightarrow> rcon_error + client" where
  "send_packet werr rid ptype payload c =
     (case writePacket rid ptype payload of
        Inl e \<Rightarrow> Inl e
      | Inr p \<Rightarrow> (case werr of Some e \<Rightarrow> Inl (WriteError e) | None \<Rightarrow> Inr (c\<lparr>cl_out := cl_out c @ [p]\<rparr>)))"

definition authenticate :: "go_error option \<Rightarrow> string \<Rightarrow> client \<Rightarrow> (rcon_error + unit) \<times> client" where
  "authenticate werr password c =
     (let (rid, c1) = nextID c
      in case send_packet werr rid typeLogin password c1 of
           Inl e \<Rightarrow> (Inl e, c1)
         | Inr c2 \<Rightarrow>
             (case readPacket (cl_in c2) of
                (Inl e, r) \<Rightarrow> (Inl e, c2\<lparr>cl_in := r\<rparr>)
              | (Inr (respID, _, _), r) \<Rightarrow>
                  let c3 = c2\<lparr>cl_in := r\<rparr>
                  in if respID = -1 then (Inl ErrAuthFailed, c3)
                     else if respID \<noteq> rid then (Inl (AuthIdMismatch rid respID), c3)
                     else (Inr (), c3)))"

text \<open>
  \<open>Dial\<close>: connecting may fail (the argument \<open>conn\<close> is then the error); the bytes the server
  will answer with are known once it is connected.  On a failed login the connection is closed
  and no client is returned.
\<close>

definition Dial :: "go_error + u8 list \<Rightarrow> go_error option \<Rightarrow> string \<Rightarrow> rcon_error + client" where
  "Dial conn werr password =
     (case conn of
        Inl e \<Rightarrow> Inl (WriteError e)
      | Inr s \<Rightarrow>
          let c = \<lparr>cl_id = 0, cl_closed = False, cl_in = s, cl_out = []\<rparr>
          in case authenticate werr password c of
               (Inl e, _) \<Rightarrow> Inl e
             | (Inr (), c') \<Rightarrow> Inr c')"

definition Cmd :: "go_error option \<Rightarrow> string \<Rightarrow> client \<Rightarrow> (rcon_error + string) \<times> client" where
  "Cmd werr command c =
     (if cl_closed c then (Inl ErrClosed, c)
      else if maxPayload < length command then (Inl CommandTooLong, c)
      else let (rid, c1) = nextID c
           in case send_packet werr rid typeExecCmd command c1 of
                Inl e \<Rightarrow> (Inl e, c1)
              | Inr c2 \<Rightarrow>
                  (case readPacket (cl_in c2) of
                     (Inl e, r) \<Rightarrow> (Inl e, c2\<lparr>cl_in := r\<rparr>)
                   | (Inr (respID, _, payload), r) \<Rightarrow>
                       let c3 = c2\<lparr>cl_in := r\<rparr>
                       in if respID \<noteq> rid then (Inl (IdMismatch rid respID), c3)
                          else (Inr payload, c3)))"

definition Close :: "client \<Rightarrow> client" where
  "Close c = (if cl_closed c then c else c\<lparr>cl_closed := True, cl_in := []\<rparr>)"

subsection \<open>Session passwords\<close>

definition hex_digits :: string where
  "hex_digits = ''0123456789abcdef''"

text \<open>The random bytes are the argument; \<open>None\<close> is a failed read of the random source.\<close>

definition GenPassword :: "u8 list option \<Rightarrow> string option" where
  "GenPassword rnd =
     (case rnd of
        None \<Rightarrow> None
      | Some b \<Rightarrow> Some (concat (map (\<lambda>v. [hex_digits ! unat (drop_bit 4 v), hex_digits ! unat (v AND 0x0F)]) b)))"

subsection \<open>Packets round-trip\<close>

lemma until_nul_append_nul:
  "0 \<notin> set bs \<Longrightarrow> until_nul (bs @ 0 # r) = bs"
  by (induction bs) auto

lemma writePacket_small:
  assumes "length payload \<le> 4086"
  shows "writePacket rid ptype payload =
    Inr (PutUint32 (word_of_nat (length payload + 10)) @ PutUint32 rid @ PutUint32 ptype
         @ bytes_of payload @ [0, 0])"
proof -
  have n: "sint (4 + word_of_nat (4 + 4 + length payload + 2) :: u32) = int (length payload + 14)"
  proof -
    have "4 + word_of_nat (4 + 4 + length payload + 2) = (word_of_nat (length payload + 14) :: u32)"
      by (simp add: add.commute)
    moreover have "sint (word_of_nat (length payload + 14) :: u32) = int (length payload + 14)"
      using assms by (intro sint_of_nat_small) simp
    ultimately show ?thesis by (simp only:)
  qed
  have r: "nat (int (length payload + 14)) - 12 = length payload + 2" by simp
  have z: "replicate (length payload + 2 - length (bytes_of payload)) (0::u8) = [0, 0]"
    by (simp add: numeral_2_eq_2)
  have l: "4 + 4 + length payload + 2 = length payload + 10" by simp
  show ?thesis
    unfolding writePacket_def Let_def length_bytes_of n r
    by (simp add: z l numeral_2_eq_2 add.commute)
qed

lemma readPacket_writePacket:
  assumes "length payload \<le> 4086" and "nul \<notin> set payload" and "writePacket rid ptype payload = Inr p"
  shows "readPacket (p @ rest) = (Inr (rid, ptype, payload), rest)"
proof -
  let ?len = "word_of_nat (length payload + 10) :: u32"
  let ?body = "PutUint32 rid @ PutUint32 ptype @ bytes_of payload @ [0, 0]"
  have p: "p = PutUint32 ?len @ ?body"
    using assms(3) writePacket_small [OF assms(1)] by simp
  have u: "unat ?len = length payload + 10"
    using assms(1) by (intro unat_of_nat_small) simp
  then have ok: "\<not> (?len < 10 \<or> 4096 < ?len)"
    using assms(1) by (simp add: word_less_nat_alt)
  have lb: "length ?body = unat ?len" unfolding u by simp
  have z: "0 \<notin> set (bytes_of payload)"
    using assms(2) by (auto simp: bytes_of_def)
  have "ReadFull 4 (p @ rest) = (Some (PutUint32 ?len), ?body @ rest)"
    using ReadFull_append [of "PutUint32 ?len" 4 "?body @ rest"] by (simp add: p)
  moreover have "ReadFull (unat ?len) (?body @ rest) = (Some ?body, rest)"
    by (rule ReadFull_append [OF lb])
  ultimately show ?thesis
    using ok z by (simp add: readPacket_def Let_def until_nul_append_nul [where r = "[0]"])
qed

lemma Inr_writePacket:
  "length payload \<le> 4086 \<Longrightarrow> \<exists>p. writePacket rid ptype payload = Inr p"
  by (simp add: writePacket_small)

subsection \<open>Request identifiers\<close>

lemma nextID_positive:
  "nextID c = (rid, c') \<Longrightarrow> 0 < sint rid \<and> cl_id c' = rid"
  by (auto simp: nextID_def Let_def split: if_splits)

lemma nextID_frame [frame_simps]:
  "cl_closed (snd (nextID c)) = cl_closed c" "cl_in (snd (nextID c)) = cl_in c"
  "cl_out (snd (nextID c)) = cl_out c"
  by (simp_all add: nextID_def Let_def)

text \<open>
  Every identifier the client sends is a positive \<open>int32\<close>, also when the counter
  wraps, so it is never the \<open>-1\<close> the server answers a failed login with.
\<close>

theorem nextID_never_auth_failure:
  "0 < sint (fst (nextID c)) \<and> fst (nextID c) \<noteq> -1 \<and> cl_id (snd (nextID c)) = fst (nextID c)"
proof -
  have "0 < sint (fst (nextID c)) \<and> cl_id (snd (nextID c)) = fst (nextID c)"
    using nextID_positive [of c] by (cases "nextID c") auto
  then show ?thesis by auto
qed

subsection \<open>One command\<close>

lemma Cmd_ok:
  assumes "\<not> cl_closed c" and "length command \<le> maxPayload"
    and "writePacket (fst (nextID c)) ptype reply = Inr p"
    and "length reply \<le> 4086" and "nul \<notin> set reply" and "cl_in c = p @ rest"
  shows "fst (Cmd None command c) = Inr reply \<and> cl_in (snd (Cmd None command c)) = rest"
proof -
  obtain rid c1 where n: "nextID c = (rid, c1)" by fastforce
  have c1: "cl_in c1 = p @ rest" using n assms(6) nextID_frame [of c] by simp
  obtain q where q: "writePacket rid typeExecCmd command = Inr q"
    using Inr_writePacket assms(2) by (fastforce simp: maxPayload_def)
  have "readPacket (p @ rest) = (Inr (rid, ptype, reply), rest)"
    using assms(3-5) n by (intro readPacket_writePacket) simp_all
  then show ?thesis
    using assms(1,2) by (simp add: Cmd_def n send_packet_def q c1)
qed

text \<open>
  A command within the payload limit on an open connection whose next packet is the
  server's answer to it returns exactly that answer, and leaves the rest of the connection's bytes
  for the next command.
\<close>

theorem cmd_returns_matching_reply:
  assumes "\<not> cl_closed c" and "length command \<le> maxPayload"
    and "length reply \<le> 4086" and "nul \<notin> set reply"
    and "writePacket (fst (nextID c)) ptype reply = Inr p" and "cl_in c = p @ rest"
  shows "fst (Cmd None command c) = Inr reply \<and> cl_in (snd (Cmd None command c)) = rest"
  using assms Cmd_ok by blast

definition demo_client :: "u8 list \<Rightarrow> client" where
  "demo_client s = \<lparr>cl_id = 1, cl_closed = False, cl_in = s, cl_out = []\<rparr>"

theorem cmd_returns_matching_reply_witness:
  "fst (Cmd None ''list'' (demo_client (projr (writePacket 2 0 ''none'') @ [7]))) = Inr ''none''
   \<and> cl_in (snd (Cmd None ''list'' (demo_client (projr (writePacket 2 0 ''none'') @ [7])))) = [7]"
proof -
  obtain p where p: "writePacket 2 0 ''none'' = Inr p"
    using Inr_writePacket by fastforce
  have rid: "fst (nextID (demo_client s)) = 2" for s
    by (simp add: nextID_def demo_client_def)
  show ?thesis
    by (rule cmd_returns_matching_reply [of _ _ _ 0 p]) (simp_all add: demo_client_def p rid [unfolded demo_client_def] maxPayload_def)
qed

subsection \<open>A late answer\<close>

text \<open>
  When a command times out before its answer arrives, the answer is still delivered later.  The
  client does not discard it: the next command reads it, finds a foreign identifier and fails,
  and its own answer becomes the late one.
\<close>

lemma Cmd_stale:
  assumes "\<not> cl_closed c" and "length command \<le> maxPayload"
    and "writePacket old ptype reply = Inr p" and "old \<noteq> fst (nextID c)"
    and "length reply \<le> 4086" and "nul \<notin> set reply" and "cl_in c = p @ rest"
  shows "fst (Cmd None command c) = Inl (IdMismatch (fst (nextID c)) old)
    \<and> cl_in (snd (Cmd None command c)) = rest
    \<and> cl_id (snd (Cmd None command c)) = fst (nextID c) \<and> \<not> cl_closed (snd (Cmd None command c))"
proof -
  obtain rid c1 where n: "nextID c = (rid, c1)" by fastforce
  have c1: "cl_in c1 = p @ rest" "\<not> cl_closed c1" "cl_id c1 = rid"
    using n assms(1,7) nextID_frame [of c] nextID_positive [OF n] by simp_all
  obtain q where q: "writePacket rid typeExecCmd command = Inr q"
    using Inr_writePacket assms(2) by (fastforce simp: maxPayload_def)
  have "readPacket (p @ rest) = (Inr (old, ptype, reply), rest)"
    using assms(3,5,6) by (intro readPacket_writePacket) simp_all
  then show ?thesis
    using assms(1,2,4) by (simp add: Cmd_def n send_packet_def q c1)
qed

text \<open>The answers a server sends for the commands numbered \<open>k, k+1, \<dots>\<close>.\<close>

fun answers :: "nat \<Rightarrow> string list \<Rightarrow> u8 list" where
  "answers k [] = []"
| "answers k (r # rs) =
     (case writePacket (word_of_nat k) typeResponse r of Inr p \<Rightarrow> p | Inl _ \<Rightarrow> []) @ answers (Suc k) rs"

fun run_cmds :: "string list \<Rightarrow> client \<Rightarrow> (rcon_error + string) list" where
  "run_cmds [] c = []"
| "run_cmds (x # xs) c = (case Cmd None x c of (r, c') \<Rightarrow> r # run_cmds xs c')"

lemma nextID_small:
  "k < 2 ^ 31 - 1 \<Longrightarrow> cl_id c = word_of_nat k \<Longrightarrow> fst (nextID c) = word_of_nat (Suc k)"
proof -
  assume k: "k < 2 ^ 31 - 1" and c: "cl_id c = word_of_nat k"
  have e: "cl_id c + 1 = word_of_nat (Suc k)" using c by (simp add: add.commute)
  have "sint (word_of_nat (Suc k) :: u32) = int (Suc k)"
    using k by (intro sint_of_nat_small) simp
  then show ?thesis unfolding nextID_def e Let_def by simp
qed

lemma word_of_nat_Suc_neq: "k < 2 ^ 31 - 1 \<Longrightarrow> (word_of_nat k :: u32) \<noteq> word_of_nat (Suc k)"
  by (simp add: add.commute)

lemma run_cmds_desync:
  assumes "\<forall>x\<in>set cmds. length x \<le> maxPayload" and "\<forall>r\<in>set replies. length r \<le> 4086 \<and> nul \<notin> set r"
    and "length replies = length cmds" and "k + length cmds < 2 ^ 31 - 1"
    and "\<not> cl_closed c" and "cl_id c = word_of_nat k" and "cl_in c = answers k replies @ rest"
  shows "\<forall>r\<in>set (run_cmds cmds c). \<exists>a b. r = Inl (IdMismatch a b)"
  using assms
proof (induction cmds arbitrary: replies k c)
  case Nil
  then show ?case by simp
next
  case (Cons x cmds)
  then obtain r rs where rr: "replies = r # rs" by (cases replies) auto
  obtain p where p: "writePacket (word_of_nat k) typeResponse r = Inr p"
    using Inr_writePacket Cons.prems(2) rr by fastforce
  have nid: "fst (nextID c) = word_of_nat (Suc k)"
    using Cons.prems by (intro nextID_small) simp_all
  have st: "fst (Cmd None x c) = Inl (IdMismatch (fst (nextID c)) (word_of_nat k))
      \<and> cl_in (snd (Cmd None x c)) = answers (Suc k) rs @ rest
      \<and> cl_id (snd (Cmd None x c)) = fst (nextID c) \<and> \<not> cl_closed (snd (Cmd None x c))"
    using Cons.prems rr p nid word_of_nat_Suc_neq [of k]
    by (intro Cmd_stale [of _ _ _ typeResponse r p]) simp_all
  have "\<forall>q\<in>set (run_cmds cmds (snd (Cmd None x c))). \<exists>a b. q = Inl (IdMismatch a b)"
    using Cons.prems st nid rr by (intro Cons.IH [of rs "Suc k"]) simp_all
  then show ?case
    using st by (auto simp: case_prod_beta)
qed

definition is_mismatch :: "rcon_error + string \<Rightarrow> bool" where
  "is_mismatch r = (case r of Inl (IdMismatch _ _) \<Rightarrow> True | _ \<Rightarrow> False)"

text \<open>
  Once one answer is late (the connection still holds the answer to command \<open>k\<close> when
  command \<open>k + 1\<close> is sent, and the server answers every command in order), every later
  command on that connection fails with an identifier mismatch, although the server answered it.
\<close>

theorem late_answer_desynchronises:
  assumes "\<forall>x\<in>set cmds. length x \<le> maxPayload" and "\<forall>r\<in>set replies. length r \<le> 4086 \<and> nul \<notin> set r"
    and "length replies = length cmds" and "k + length cmds < 2 ^ 31 - 1"
    and "\<not> cl_closed c" and "cl_id c = word_of_nat k" and "cl_in c = answers k replies @ rest"
  shows "list_all is_mismatch (run_cmds cmds c)"
  using run_cmds_desync [OF assms] by (auto simp: list_all_iff is_mismatch_def)

theorem late_answer_desynchronises_witness:
  "list_all is_mismatch (run_cmds [''list'', ''save-on''] (demo_client (answers 1 [''ok'', ''none''])))"
  by (rule late_answer_desynchronises [of _ "[''ok'', ''none'']" 1 _ "[]"])
     (simp_all add: maxPayload_def demo_client_def)

subsection \<open>Passwords\<close>

lemma concat_pair_length: "length (concat (map (\<lambda>v. [f v, g v]) b)) = 2 * length b"
  by (induction b) simp_all

lemma nibble_bounds: "unat (drop_bit 4 (v::u8)) < 16" "unat (v AND 0x0F) < 16"
proof -
  have "unat (drop_bit 4 v) = drop_bit 4 (unat v)" by (rule unat_drop_bit_eq)
  then have "unat (drop_bit 4 v) = unat v div 16" by (simp only: drop_bit_eq_div) simp
  then show "unat (drop_bit 4 v) < 16" using unat_u8_less [of v] by simp
  have "v AND 0x0F = take_bit 4 v" by (simp add: take_bit_eq_mask mask_numeral)
  then show "unat (v AND 0x0F) < 16"
    using take_bit_nat_less_exp [of 4 "unat v"] by (simp add: unsigned_take_bit_eq)
qed

lemma byte_nibbles: "(v::u8) = push_bit 4 (drop_bit 4 v) OR (v AND 0x0F)"
proof -
  have "v AND 0x0F = take_bit 4 v" by (simp add: take_bit_eq_mask mask_numeral)
  then show ?thesis
    by (simp add: bit_eq_iff bit_simps) (auto simp: not_less)
qed

lemma hex_digits_inj: "i < 16 \<Longrightarrow> j < 16 \<Longrightarrow> hex_digits ! i = hex_digits ! j \<Longrightarrow> i = j"
proof -
  have "distinct hex_digits" by (simp add: hex_digits_def)
  moreover have "length hex_digits = 16" by (simp add: hex_digits_def)
  ultimately show "i < 16 \<Longrightarrow> j < 16 \<Longrightarrow> hex_digits ! i = hex_digits ! j \<Longrightarrow> i = j"
    by (simp add: nth_eq_iff_index_eq)
qed

lemma hex_byte_inj:
  assumes "hex_digits ! unat (drop_bit 4 v) = hex_digits ! unat (drop_bit 4 (w::u8))"
    and "hex_digits ! unat (v AND 0x0F) = hex_digits ! unat (w AND 0x0F)"
  shows "v = w"
proof -
  have "drop_bit 4 v = drop_bit 4 w" "v AND 0x0F = w AND 0x0F"
    using assms nibble_bounds hex_digits_inj by (metis word_unat_eq_iff)+
  then show ?thesis by (metis byte_nibbles)
qed

lemma GenPassword_length: "GenPassword (Some b) = Some p \<Longrightarrow> length p = 2 * length b"
  by (auto simp: GenPassword_def concat_pair_length)

lemma GenPassword_chars: "GenPassword (Some b) = Some p \<Longrightarrow> set p \<subseteq> set hex_digits"
proof -
  have "length hex_digits = 16" by (simp add: hex_digits_def)
  then show "GenPassword (Some b) = Some p \<Longrightarrow> set p \<subseteq> set hex_digits"
    using nibble_bounds by (auto simp: GenPassword_def)
qed

lemma GenPassword_total: "\<exists>p. GenPassword (Some b) = Some p"
  by (simp add: GenPassword_def)

text \<open>
  A generated password is 32 hexadecimal digits for the 16 random bytes, and two
  different byte strings give different passwords, so none of the randomness is lost.
\<close>

theorem GenPassword_faithful:
  "length (the (GenPassword (Some b))) = 2 * length b
   \<and> set (the (GenPassword (Some b))) \<subseteq> set hex_digits
   \<and> (GenPassword (Some b) = GenPassword (Some b') \<longleftrightarrow> b = b')"
proof (intro conjI)
  let ?h = "\<lambda>v::u8. [hex_digits ! unat (drop_bit 4 v), hex_digits ! unat (v AND 0x0F)]"
  obtain p where p: "GenPassword (Some b) = Some p" using GenPassword_total by blast
  show "length (the (GenPassword (Some b))) = 2 * length b" using GenPassword_length [OF p] p by simp
  show "set (the (GenPassword (Some b))) \<subseteq> set hex_digits" using GenPassword_chars [OF p] p by simp
  have "concat (map ?h b) = concat (map ?h b') \<Longrightarrow> b = b'"
  proof (induction b arbitrary: b')
    case Nil
    then show ?case by (cases b') auto
  next
    case (Cons v b)
    then show ?case by (cases b') (auto dest: hex_byte_inj)
  qed
  then show "GenPassword (Some b) = GenPassword (Some b') \<longleftrightarrow> b = b'"
    by (auto simp: GenPassword_def)
qed

end
