(* ===== verification/Slp.thy ===== *)
theory Slp
  imports Wire
begin

text \<open>
  The Server List Ping client, \<open>internal/slp/slp.go\<close>: VarInts, length-prefixed packets and the
  probe.  The JSON text of a status is decoded by the parameter \<open>unmarshal\<close>; the connection is
  the list of bytes the server delivers before it ends or the deadline fires.
\<close>

record players =
  pl_max :: int
  pl_online :: int

record status =
  st_version :: string
  st_players :: players
  st_description :: "string option"
  st_raw :: string
  st_latency :: int

datatype slp_error =
    DialError go_error
  | SlpWriteError go_error
  | SlpEOF
  | VarIntTooLong
  | UnexpectedPacketId u32
  | JsonLengthExceedsBody
  | JsonError
  | SlpPanic

subsection \<open>VarInts\<close>

function writeVarInt :: "u32 \<Rightarrow> u8 list" where
  "writeVarInt uv =
     (if uv AND NOT 0x7F = 0 then [ucast uv]
      else ucast (uv AND 0x7F OR 0x80) # writeVarInt (drop_bit 7 uv))"
  by pat_completeness auto

lemma take_bit_7_iff: "take_bit 7 uv = uv \<longleftrightarrow> (uv::u32) < 128"
proof -
  have "take_bit 7 uv = uv \<longleftrightarrow> take_bit 7 (unat uv) = unat uv"
    by (metis unsigned_take_bit_eq word_unat_eq_iff)
  also have "\<dots> \<longleftrightarrow> unat uv < 128"
    by (simp add: take_bit_nat_eq_self_iff)
  finally show ?thesis by (simp add: word_less_nat_alt)
qed

lemma varint_last_iff: "(uv::u32) AND NOT 0x7F = 0 \<longleftrightarrow> uv < 128"
proof -
  have "uv AND NOT 0x7F = 0 \<longleftrightarrow> take_bit 7 uv = uv"
  proof -
    have m: "(0x7F::u32) = mask 7" by (simp add: mask_numeral)
    have "uv AND NOT (mask 7) = 0 \<longleftrightarrow> (\<forall>n. bit uv n \<longrightarrow> n < 7)"
    proof
      assume z: "uv AND NOT (mask 7) = 0"
      show "\<forall>n. bit uv n \<longrightarrow> n < 7"
      proof (intro allI impI)
        fix n
        assume n: "bit uv n"
        then have "n < 32" using bit_imp_le_length [of uv n] by simp
        moreover have "\<not> bit (uv AND NOT (mask 7)) n" by (simp add: z)
        ultimately show "n < 7" using n by (auto simp: bit_simps)
      qed
    qed (auto intro!: bit_word_eqI simp: bit_simps)
    also have "\<dots> \<longleftrightarrow> take_bit 7 uv = uv"
    proof
      assume "\<forall>n. bit uv n \<longrightarrow> n < 7"
      then show "take_bit 7 uv = uv" by (auto intro!: bit_word_eqI simp: bit_take_bit_iff)
    next
      assume "take_bit 7 uv = uv"
      then show "\<forall>n. bit uv n \<longrightarrow> n < 7" by (metis bit_take_bit_iff)
    qed
    finally show ?thesis by (simp only: m)
  qed
  also have "\<dots> \<longleftrightarrow> uv < 128"
    by (rule take_bit_7_iff)
  finally show ?thesis .
qed

lemma unat_drop_bit_7: "unat (drop_bit 7 (uv::u32)) = unat uv div 128"
proof -
  have "unat (drop_bit 7 uv) = drop_bit 7 (unat uv)" by (rule unat_drop_bit_eq)
  then show ?thesis by (simp only: drop_bit_eq_div) simp
qed

termination writeVarInt
proof (relation "measure unat")
  fix uv :: u32
  assume "uv AND NOT 0x7F \<noteq> 0"
  then have "128 \<le> unat uv" by (simp only: varint_last_iff) (simp add: word_less_nat_alt)
  then show "(drop_bit 7 uv, uv) \<in> measure unat" by (simp only: in_measure unat_drop_bit_7)
qed simp

declare writeVarInt.simps [simp del]

text \<open>The loop of \<open>readVarInt\<close>: at most five bytes; the first argument counts those left.\<close>

fun readVarInt_loop :: "nat \<Rightarrow> u32 \<Rightarrow> nat \<Rightarrow> u8 list \<Rightarrow> (slp_error + u32) \<times> u8 list" where
  "readVarInt_loop 0 num shift s = (Inl VarIntTooLong, s)"
| "readVarInt_loop (Suc k) num shift s =
     (case s of
        [] \<Rightarrow> (Inl SlpEOF, [])
      | b # s' \<Rightarrow>
          let num = num OR push_bit shift (ucast (b AND 0x7F))
          in if b AND 0x80 = 0 then (Inr num, s') else readVarInt_loop k num (shift + 7) s')"

definition readVarInt :: "u8 list \<Rightarrow> (slp_error + u32) \<times> u8 list" where
  "readVarInt s = readVarInt_loop 5 0 0 s"

text \<open>The same loop over a buffer and a position.\<close>

record byte_reader =
  br_buf :: "u8 list"
  br_pos :: nat

fun br_varInt_loop :: "nat \<Rightarrow> u32 \<Rightarrow> nat \<Rightarrow> byte_reader \<Rightarrow> (slp_error + u32) \<times> byte_reader" where
  "br_varInt_loop 0 num shift r = (Inl VarIntTooLong, r)"
| "br_varInt_loop (Suc k) num shift r =
     (if length (br_buf r) \<le> br_pos r then (Inl SlpEOF, r)
      else let c = br_buf r ! br_pos r;
               r = r\<lparr>br_pos := br_pos r + 1\<rparr>;
               num = num OR push_bit shift (ucast (c AND 0x7F))
           in if c AND 0x80 = 0 then (Inr num, r) else br_varInt_loop k num (shift + 7) r)"

definition br_varInt :: "byte_reader \<Rightarrow> (slp_error + u32) \<times> byte_reader" where
  "br_varInt r = br_varInt_loop 5 0 0 r"

subsection \<open>Packets\<close>

definition writeString :: "string \<Rightarrow> u8 list" where
  "writeString s = writeVarInt (word_of_nat (length s)) @ bytes_of s"

definition writeUint16 :: "u16 \<Rightarrow> u8 list" where
  "writeUint16 v = [ucast (drop_bit 8 v), ucast v]"

definition buildPacket :: "u8 \<Rightarrow> u8 list list \<Rightarrow> u8 list" where
  "buildPacket pid parts =
     (let body = writeVarInt (ucast pid) @ concat parts
      in writeVarInt (word_of_nat (length body)) @ body)"

definition PutUint64_be :: "u64 \<Rightarrow> u8 list" where
  "PutUint64_be w = map (\<lambda>i. ucast (drop_bit (8 * (7 - i)) w)) [0..<8]"

subsection \<open>The probe\<close>

definition handshake :: "string \<Rightarrow> int \<Rightarrow> u8 list" where
  "handshake host port =
     buildPacket 0 [writeVarInt (- 1), writeString host, writeUint16 (word_of_int port), writeVarInt 1]"

text \<open>Parsing the body of the status response, after the outer length.\<close>

definition parse_status_body ::
    "(string \<Rightarrow> status option) \<Rightarrow> u8 list \<Rightarrow> slp_error + status" where
  "parse_status_body unmarshal body =
     (let r0 = \<lparr>br_buf = body, br_pos = 0\<rparr>
      in case br_varInt r0 of
           (Inl e, _) \<Rightarrow> Inl e
         | (Inr pid, r) \<Rightarrow>
             if pid \<noteq> 0 then Inl (UnexpectedPacketId pid)
             else case br_varInt r of
                    (Inl e, _) \<Rightarrow> Inl e
                  | (Inr jsonLen, r) \<Rightarrow>
                      if sint jsonLen > int (length (br_buf r)) - int (br_pos r) then Inl JsonLengthExceedsBody
                      else if sint jsonLen < 0 then Inl SlpPanic
                      else let jsonBytes = string_of (take (nat (sint jsonLen)) (drop (br_pos r) (br_buf r)))
                           in case unmarshal jsonBytes of
                                None \<Rightarrow> Inl JsonError
                              | Some st \<Rightarrow> Inr (st\<lparr>st_raw := jsonBytes\<rparr>))"

text \<open>The optional ping: any failure leaves the latency at zero.\<close>

definition ping_latency :: "go_error option \<Rightarrow> int \<Rightarrow> u8 list \<Rightarrow> int" where
  "ping_latency werr elapsed s =
     (if werr \<noteq> None then 0
      else let (_, s1) = readVarInt s
           in case readVarInt s1 of
                (Inl _, _) \<Rightarrow> 0
              | (Inr respID, s2) \<Rightarrow>
                  if respID \<noteq> 1 then 0
                  else if fst (ReadFull 8 s2) = None then 0 else elapsed)"

text \<open>
  \<open>Probe\<close>: \<open>conn\<close> is the dial error or the bytes the server will deliver, the three write
  errors are those of the handshake, the status request and the ping, and \<open>elapsed\<close> is the
  measured round trip.  \<open>make([]byte, pktLen)\<close> and the slice of the JSON panic on a negative
  length; the result is then \<open>SlpPanic\<close>.
\<close>

definition Probe ::
    "(string \<Rightarrow> status option) \<Rightarrow> go_error + u8 list \<Rightarrow> go_error option \<times> go_error option \<times> go_error option
     \<Rightarrow> int \<Rightarrow> slp_error + status" where
  "Probe unmarshal conn werrs elapsed =
     (case werrs of (w1, w2, w3) \<Rightarrow>
      case conn of
        Inl e \<Rightarrow> Inl (DialError e)
      | Inr s \<Rightarrow>
          (case w1 of Some e \<Rightarrow> Inl (SlpWriteError e) | None \<Rightarrow>
          (case w2 of Some e \<Rightarrow> Inl (SlpWriteError e) | None \<Rightarrow>
          (case readVarInt s of
             (Inl e, _) \<Rightarrow> Inl e
           | (Inr pktLen, s1) \<Rightarrow>
               if sint pktLen < 0 then Inl SlpPanic
               else case ReadFull (nat (sint pktLen)) s1 of
                      (None, _) \<Rightarrow> Inl SlpEOF
                    | (Some body, s2) \<Rightarrow>
                        (case parse_status_body unmarshal body of
                           Inl e \<Rightarrow> Inl e
                         | Inr st \<Rightarrow> Inr (st\<lparr>st_latency := ping_latency w3 elapsed s2\<rparr>))))))"

subsection \<open>VarInts round-trip\<close>

lemma bit_128: "bit (0x80::u8) n \<longleftrightarrow> n = 7" "bit (0x80::u32) n \<longleftrightarrow> n = 7"
  using bit_exp_iff [of 7 n, where 'a = u8] bit_exp_iff [of 7 n, where 'a = u32]
  by (auto simp: possible_bit_word)

lemma varint_byte_last:
  assumes "(uv::u32) < 128"
  shows "(ucast uv :: u8) AND 0x80 = 0" "(ucast ((ucast uv :: u8) AND 0x7F) :: u32) = uv"
proof -
  have t: "take_bit 7 uv = uv" using assms by (simp only: take_bit_7_iff)
  have b: "bit uv n \<Longrightarrow> n < 7" for n
    using t by (metis bit_take_bit_iff)
  have m7: "(0x7F::u8) = mask 7" by (simp add: mask_numeral)
  show "(ucast uv :: u8) AND 0x80 = 0"
    by (rule bit_word_eqI) (auto simp: bit_128 bit_simps simp del: bit_numeral_word_iff dest: b)
  show "(ucast ((ucast uv :: u8) AND 0x7F) :: u32) = uv"
    unfolding m7 by (rule bit_word_eqI) (auto simp: bit_simps dest: b bit_imp_le_length)
qed

lemma varint_byte_more:
  "(ucast ((uv::u32) AND 0x7F OR 0x80) :: u8) AND 0x80 \<noteq> 0"
  "(ucast ((ucast (uv AND 0x7F OR 0x80) :: u8) AND 0x7F) :: u32) = take_bit 7 uv"
proof -
  have m: "(0x7F::u8) = mask 7" "(0x7F::u32) = mask 7"
    by (simp_all add: mask_numeral)
  have "bit ((ucast (uv AND 0x7F OR 0x80) :: u8) AND 0x80) 7"
    unfolding m by (simp add: bit_simps bit_128 del: bit_numeral_word_iff)
  then show "(ucast (uv AND 0x7F OR 0x80) :: u8) AND 0x80 \<noteq> 0"
    by (metis bit_0_eq bot_apply bot_bool_def)
  show "(ucast ((ucast (uv AND 0x7F OR 0x80) :: u8) AND 0x7F) :: u32) = take_bit 7 uv"
    unfolding m by (rule bit_word_eqI) (auto simp: bit_simps bit_128 simp del: bit_numeral_word_iff)
qed

lemma varint_accumulate:
  "(num OR push_bit shift (take_bit 7 uv)) OR push_bit (shift + 7) (drop_bit 7 uv) = num OR push_bit shift (uv::u32)"
proof (rule bit_word_eqI)
  fix n
  have "bit uv (7 + (n - (shift + 7))) \<longleftrightarrow> bit uv (n - shift)" if "shift + 7 \<le> n"
    using that by (simp add: add.commute)
  then show "bit ((num OR push_bit shift (take_bit 7 uv)) OR push_bit (shift + 7) (drop_bit 7 uv)) n
      = bit (num OR push_bit shift uv) n"
    if "n < LENGTH(32)"
    using that by (cases "shift + 7 \<le> n") (auto simp: bit_simps)
qed

lemma readVarInt_loop_write:
  assumes "unat uv < 2 ^ (7 * k)" and "0 < k"
  shows "readVarInt_loop k num shift (writeVarInt uv @ rest) = (Inr (num OR push_bit shift uv), rest)"
  using assms
proof (induction uv arbitrary: k num shift rule: writeVarInt.induct)
  case (1 uv)
  show ?case
  proof (cases k)
    case 0
    with "1.prems" show ?thesis by simp
  next
    case (Suc k')
    show ?thesis
    proof (cases "uv < 128")
      case True
      then have "writeVarInt uv = [ucast uv]"
        by (subst writeVarInt.simps) (simp only: varint_last_iff if_True)
      then show ?thesis using Suc varint_byte_last [OF True] by simp
    next
      case False
      then have nl: "uv AND NOT 0x7F \<noteq> 0" by (simp only: varint_last_iff not_False_eq_True)
      then have w: "writeVarInt uv = ucast (uv AND 0x7F OR 0x80) # writeVarInt (drop_bit 7 uv)"
        by (subst writeVarInt.simps) (simp only: if_False)
      have "unat (drop_bit 7 uv) < 2 ^ (7 * k')"
        unfolding unat_drop_bit_7 using "1.prems" Suc by (simp add: less_mult_imp_div_less power_add)
      moreover have "0 < k'"
        using False "1.prems" Suc by (cases k') (auto simp: word_less_nat_alt)
      ultimately show ?thesis
        using "1.IH" [OF nl] Suc varint_byte_more [of uv]
        by (simp only: w append_Cons readVarInt_loop.simps list.case Let_def if_False varint_accumulate)
    qed
  qed
qed

lemma readVarInt_write [simp]: "readVarInt (writeVarInt v @ rest) = (Inr v, rest)"
proof -
  have "unat v < 2 ^ LENGTH(32)" by (rule unsigned_less)
  then have "unat v < 2 ^ (7 * 5)" by simp
  then show ?thesis using readVarInt_loop_write [of v 5 0 0 rest] by (simp add: readVarInt_def)
qed

lemma br_varInt_loop_step:
  assumes "br_pos r < length (br_buf r)" and "br_buf r ! br_pos r = c"
  shows "br_varInt_loop (Suc k) num shift r =
    (if c AND 0x80 = 0 then (Inr (num OR push_bit shift (ucast (c AND 0x7F))), r\<lparr>br_pos := br_pos r + 1\<rparr>)
     else br_varInt_loop k (num OR push_bit shift (ucast (c AND 0x7F))) (shift + 7) (r\<lparr>br_pos := br_pos r + 1\<rparr>))"
  using assms by (simp add: Let_def)

lemma br_varInt_loop_read:
  assumes "br_pos r \<le> length (br_buf r)"
    and "readVarInt_loop k num shift (drop (br_pos r) (br_buf r)) = (res, s)"
  shows "\<exists>r'. br_varInt_loop k num shift r = (res, r') \<and> br_buf r' = br_buf r
         \<and> br_pos r' \<le> length (br_buf r) \<and> s = drop (br_pos r') (br_buf r)"
  using assms
proof (induction k arbitrary: num shift r)
  case 0
  then show ?case by auto
next
  case (Suc k)
  show ?case
  proof (cases "br_pos r < length (br_buf r)")
    case True
    let ?r = "r\<lparr>br_pos := br_pos r + 1\<rparr>"
    obtain c where c: "br_buf r ! br_pos r = c" by simp
    have d: "drop (br_pos r) (br_buf r) = c # drop (br_pos ?r) (br_buf ?r)"
      using Cons_nth_drop_Suc [OF True] c by simp
    obtain num' where n: "num OR push_bit shift (ucast (c AND 0x7F)) = num'" by simp
    have le: "br_pos ?r \<le> length (br_buf ?r)" using True by simp
    note step = br_varInt_loop_step [OF True c, of k num shift, unfolded n]
    note read = Suc.prems(2) [unfolded d readVarInt_loop.simps list.case Let_def n]
    show ?thesis
    proof (cases "c AND 0x80 = 0")
      case c0: True
      show ?thesis
        using step [unfolded if_P [OF c0]] read [unfolded if_P [OF c0]] le
        by (intro exI [of _ ?r]) simp
    next
      case c1: False
      show ?thesis
        using Suc.IH [OF le read [unfolded if_not_P [OF c1]]]
        unfolding step if_not_P [OF c1] by simp
    qed
  next
    case False
    with Suc.prems show ?thesis by auto
  qed
qed

lemma br_varInt_write:
  assumes "br_buf r = pre @ writeVarInt v @ rest" and "br_pos r = length pre"
  shows "br_varInt r = (Inr v, r\<lparr>br_pos := length pre + length (writeVarInt v)\<rparr>)"
proof -
  have "readVarInt_loop 5 0 0 (drop (br_pos r) (br_buf r)) = (Inr v, rest)"
    using assms readVarInt_write [of v rest] by (simp add: readVarInt_def)
  moreover have "br_pos r \<le> length (br_buf r)" using assms by simp
  ultimately obtain r' where r': "br_varInt r = (Inr v, r')" "br_buf r' = br_buf r"
      "br_pos r' \<le> length (br_buf r)" "rest = drop (br_pos r') (br_buf r)"
    unfolding br_varInt_def using br_varInt_loop_read by blast
  have "length rest = length (br_buf r) - br_pos r'"
    by (subst r'(4)) simp
  then have "br_pos r' = length pre + length (writeVarInt v)"
    using r'(3) assms(1) by simp
  then show ?thesis using r'(1,2) by simp
qed

text \<open>
  C28: a VarInt read back from the wire is the integer that was written, for every 32-bit
  value, and reading stops exactly at its end.
\<close>

theorem varint_roundtrip: "readVarInt (writeVarInt v @ rest) = (Inr v, rest)"
  by simp

lemma length_writeVarInt_le:
  "unat uv < 2 ^ (7 * k) \<Longrightarrow> 0 < k \<Longrightarrow> 0 < length (writeVarInt uv) \<and> length (writeVarInt uv) \<le> k"
proof (induction uv arbitrary: k rule: writeVarInt.induct)
  case (1 uv)
  show ?case
  proof (cases "uv < 128")
    case True
    then have "writeVarInt uv = [ucast uv]"
      by (subst writeVarInt.simps) (simp only: varint_last_iff if_True)
    then show ?thesis using "1.prems" by simp
  next
    case False
    then have nl: "uv AND NOT 0x7F \<noteq> 0" by (simp only: varint_last_iff not_False_eq_True)
    then have w: "length (writeVarInt uv) = Suc (length (writeVarInt (drop_bit 7 uv)))"
      by (subst writeVarInt.simps) (simp only: if_False list.size)
    obtain k' where k: "k = Suc k'" using "1.prems" by (cases k) auto
    have lt: "unat (drop_bit 7 uv) < 2 ^ (7 * k')"
      unfolding unat_drop_bit_7 using "1.prems" k by (simp add: less_mult_imp_div_less power_add)
    have "128 \<le> unat uv" using False by (simp add: word_less_nat_alt)
    then have "0 < k'" using "1.prems" k by (cases k') auto
    then show ?thesis using "1.IH" [OF nl lt] w k by simp
  qed
qed

subsection \<open>A well-behaved server\<close>

text \<open>The response of a server that answers the status request and then the ping.\<close>

definition status_response :: "string \<Rightarrow> u8 list \<Rightarrow> u8 list" where
  "status_response json pong = buildPacket 0 [writeString json] @ buildPacket 1 [pong]"

lemma parse_status_body_ok:
  assumes "length json < 2 ^ 31" and "unmarshal json = Some st"
  shows "parse_status_body unmarshal (writeVarInt 0 @ writeString json) = Inr (st\<lparr>st_raw := json\<rparr>)"
proof -
  let ?w = "writeVarInt 0" and ?l = "writeVarInt (word_of_nat (length json))"
  let ?body = "?w @ writeString json"
  have b: "?body = ?w @ ?l @ bytes_of json" by (simp add: writeString_def)
  have 1: "br_varInt \<lparr>br_buf = ?body, br_pos = 0\<rparr> = (Inr 0, \<lparr>br_buf = ?body, br_pos = length ?w\<rparr>)"
    using br_varInt_write [of "\<lparr>br_buf = ?body, br_pos = 0\<rparr>" "[]" 0 "writeString json"] by simp
  have 2: "br_varInt \<lparr>br_buf = ?body, br_pos = length ?w\<rparr> =
      (Inr (word_of_nat (length json)), \<lparr>br_buf = ?body, br_pos = length ?w + length ?l\<rparr>)"
    using br_varInt_write [of "\<lparr>br_buf = ?body, br_pos = length ?w\<rparr>" ?w "word_of_nat (length json)" "bytes_of json"]
    by (simp add: b)
  have s: "sint (word_of_nat (length json) :: u32) = int (length json)"
    using assms(1) by (rule sint_of_nat_small)
  have d: "drop (length ?w + length ?l) ?body = bytes_of json" by (simp add: b)
  have lb: "int (length ?body) = int (length ?w + length ?l) + int (length json)" by (simp add: b)
  show ?thesis
    unfolding parse_status_body_def Let_def 1 prod.case sum.case if_False 2
    using assms(2) by (simp only: byte_reader.simps s d lb) simp
qed

lemma Probe_status_response:
  assumes "length json < 2 ^ 31 - 16" and "unmarshal json = Some st" and "length pong = 8"
  shows "Probe unmarshal (Inr (status_response json pong)) (None, None, None) elapsed
    = Inr (st\<lparr>st_raw := json, st_latency := elapsed\<rparr>)"
proof -
  let ?body = "writeVarInt 0 @ writeString json" and ?pb = "writeVarInt 1 @ pong"
  have ws: "length (writeVarInt v) \<le> 5" for v
  proof -
    have "unat v < 2 ^ LENGTH(32)" by (rule unsigned_less)
    then have "unat v < 2 ^ (7 * 5)" by simp
    then show ?thesis using length_writeVarInt_le [of v 5] by simp
  qed
  have "length ?body \<le> 10 + length json"
    using ws [of 0] ws [of "word_of_nat (length json)"] by (simp add: writeString_def)
  then have sl: "sint (word_of_nat (length ?body) :: u32) = int (length ?body)"
    using assms(1) by (intro sint_of_nat_small) simp
  have rsp: "status_response json pong =
      writeVarInt (word_of_nat (length ?body)) @ ?body @ writeVarInt (word_of_nat (length ?pb)) @ ?pb"
    by (simp add: status_response_def buildPacket_def Let_def)
  have ping: "ping_latency None elapsed (writeVarInt (word_of_nat (length ?pb)) @ ?pb) = elapsed"
    using assms(3) ReadFull_append [of pong 8 "[]"] by (simp add: ping_latency_def)
  have rf: "ReadFull (nat (sint (word_of_nat (length ?body) :: u32)))
        (?body @ writeVarInt (word_of_nat (length ?pb)) @ ?pb)
      = (Some ?body, writeVarInt (word_of_nat (length ?pb)) @ ?pb)"
    unfolding sl by (rule ReadFull_append) simp
  have nn: "\<not> sint (word_of_nat (length ?body) :: u32) < 0" unfolding sl by simp
  have ps: "parse_status_body unmarshal ?body = Inr (st\<lparr>st_raw := json\<rparr>)"
    using assms by (intro parse_status_body_ok) simp_all
  show ?thesis
    unfolding Probe_def prod.case sum.case option.case rsp readVarInt_write rf ps ping
    using nn by simp
qed

text \<open>
  Probing a server that answers with a status packet and a pong returns the decoded
  status, with the JSON text it was decoded from and the measured latency.
\<close>

theorem probe_reads_status:
  assumes "length json < 2 ^ 31 - 16" and "unmarshal json = Some st" and "length pong = 8"
  shows "Probe unmarshal (Inr (status_response json pong)) (None, None, None) elapsed
    = Inr (st\<lparr>st_raw := json, st_latency := elapsed\<rparr>)"
  by (rule Probe_status_response) (fact assms)+

definition demo_unmarshal :: "string \<Rightarrow> status option" where
  "demo_unmarshal j =
     (if j = ''{}'' then Some \<lparr>st_version = [], st_players = \<lparr>pl_max = 0, pl_online = 0\<rparr>,
                            st_description = None, st_raw = [], st_latency = 0\<rparr> else None)"

theorem probe_reads_status_witness:
  "Probe demo_unmarshal (Inr (status_response ''{}'' [1,2,3,4,5,6,7,8])) (None, None, None) 12
    = Inr \<lparr>st_version = [], st_players = \<lparr>pl_max = 0, pl_online = 0\<rparr>,
           st_description = None, st_raw = ''{}'', st_latency = 12\<rparr>"
proof -
  let ?st = "\<lparr>st_version = [], st_players = \<lparr>pl_max = 0, pl_online = 0\<rparr>,
              st_description = None, st_raw = [], st_latency = 0\<rparr>"
  have "Probe demo_unmarshal (Inr (status_response ''{}'' [1,2,3,4,5,6,7,8])) (None, None, None) 12
      = Inr (?st\<lparr>st_raw := ''{}'', st_latency := 12\<rparr>)"
    by (rule probe_reads_status) (simp_all add: demo_unmarshal_def)
  then show ?thesis by (simp only: status.simps)
qed

text \<open>
  A server that announces a negative packet length makes the probe panic instead of
  returning an error; no other answer is needed, whatever follows.
\<close>

theorem probe_panics_on_negative_length:
  assumes "sint pktLen < 0"
  shows "Probe unmarshal (Inr (writeVarInt pktLen @ rest)) (None, None, w) elapsed = Inl SlpPanic"
  using assms by (simp add: Probe_def)

theorem probe_panics_on_negative_length_witness:
  "Probe demo_unmarshal (Inr (writeVarInt (-1) @ [])) (None, None, None) 0 = Inl SlpPanic"
  by (rule probe_panics_on_negative_length) simp

end
