(* ===== verification/FakeServer.thy ===== *)
theory FakeServer
  imports Rcon Slp
begin

text \<open>
  \<open>cmd/fake-mc-server/main.go\<close>: the stand-in for a Minecraft server that answers just enough of
  the RCON and server-list-ping protocols, and the two protocols end to end: the clients of
  \<open>internal/rcon\<close> and \<open>internal/slp\<close> against it.

  A connection handler is a function from the bytes that arrive to the bytes it sends; the stop
  channel is a flag (\<open>True\<close> once it is closed).  The VarInt routines are the same code as in
  \<open>internal/slp\<close> and are shared.
\<close>

subsection \<open>RCON packets on the server's side\<close>

definition rconLogin :: u32 where "rconLogin = 3"
definition rconExec :: u32 where "rconExec = 2"
definition rconResponse :: u32 where "rconResponse = 0"

datatype read_failure = ReadEnds | ReadPanics

text \<open>A body shorter than its two integers panics in the slice expressions.\<close>

definition readRconPkt :: "u8 list \<Rightarrow> (read_failure + u32 \<times> u32 \<times> string) \<times> u8 list" where
  "readRconPkt s =
     (case ReadFull 4 s of
        (None, r) \<Rightarrow> (Inl ReadEnds, r)
      | (Some lenBuf, r) \<Rightarrow>
         (case ReadFull (unat (Uint32 lenBuf)) r of
            (None, r') \<Rightarrow> (Inl ReadEnds, r')
          | (Some body, r') \<Rightarrow>
              if length body < 8 then (Inl ReadPanics, r')
              else (Inr (Uint32 (take 4 body), Uint32 (take 4 (drop 4 body)), string_of (until_nul (drop 8 body))), r')))"

definition writeRconPkt :: "u32 \<Rightarrow> u32 \<Rightarrow> string \<Rightarrow> u8 list" where
  "writeRconPkt rid ptype payload =
     PutUint32 (word_of_nat (4 + 4 + length payload + 2)) @ PutUint32 rid @ PutUint32 ptype
     @ bytes_of payload @ [0, 0]"

subsection \<open>Commands\<close>

text \<open>The stop channel is closed at most once; the result is the answer and the flag.\<close>

definition handleCmd :: "string \<Rightarrow> bool \<Rightarrow> string \<times> bool" where
  "handleCmd cmd stopped =
     (if cmd = ''stop'' then (''Stopping the server'', True)
      else if cmd = ''list'' then (''There are 0 of a max of 20 players online: '', stopped)
      else if HasPrefix cmd ''say '' then ([], stopped)
      else if HasPrefix cmd ''kick '' then (''No player was found'', stopped)
      else if cmd = ''whitelist reload'' then (''Reloaded the whitelist'', stopped)
      else (''Echoed: '' @ cmd, stopped))"

record rcon_conn =
  rc_auth :: bool
  rc_open :: bool
  rc_stop :: bool

text \<open>One packet: the bytes sent and the connection afterwards.\<close>

definition serve_packet :: "string \<Rightarrow> rcon_conn \<Rightarrow> u32 \<times> u32 \<times> string \<Rightarrow> u8 list \<times> rcon_conn" where
  "serve_packet password k pkt =
     (case pkt of (rid, ptype, payload) \<Rightarrow>
        if ptype = rconLogin then
          (if payload = password then (writeRconPkt rid rconExec [], k\<lparr>rc_auth := True\<rparr>)
           else (writeRconPkt (-1) rconExec [], k\<lparr>rc_open := False\<rparr>))
        else if ptype = rconExec then
          (if \<not> rc_auth k then ([], k\<lparr>rc_open := False\<rparr>)
           else (case handleCmd payload (rc_stop k) of
                   (resp, stop) \<Rightarrow> (writeRconPkt rid rconResponse resp, k\<lparr>rc_stop := stop\<rparr>)))
        else ([], k))"

text \<open>Every packet takes at least four bytes, so as many rounds as bytes are enough.\<close>

fun serveRCON_loop :: "nat \<Rightarrow> string \<Rightarrow> rcon_conn \<Rightarrow> u8 list \<Rightarrow> u8 list \<times> rcon_conn" where
  "serveRCON_loop 0 password k s = ([], k)"
| "serveRCON_loop (Suc n) password k s =
     (if \<not> rc_open k then ([], k)
      else case readRconPkt s of
             (Inl _, _) \<Rightarrow> ([], k\<lparr>rc_open := False\<rparr>)
           | (Inr pkt, s') \<Rightarrow>
              (case serve_packet password k pkt of
                 (out, k') \<Rightarrow> (case serveRCON_loop n password k' s' of (out', k'') \<Rightarrow> (out @ out', k''))))"

lemma readRconPkt_takes: "readRconPkt s = (Inr pkt, s') \<Longrightarrow> length s' < length s"
  by (auto simp: readRconPkt_def ReadFull_def split: option.splits if_splits)

lemma serveRCON_loop_enough:
  "length s < n \<Longrightarrow> length s < m \<Longrightarrow> serveRCON_loop n password k s = serveRCON_loop m password k s"
proof (induction n arbitrary: m k s)
  case (Suc n)
  then obtain m' where m: "m = Suc m'" by (cases m) auto
  have "serveRCON_loop n password k' s' = serveRCON_loop m' password k' s'" if "readRconPkt s = (Inr pkt, s')" for pkt k' s'
    using Suc.prems readRconPkt_takes [OF that] by (intro Suc.IH) (simp_all add: m)
  then show ?case by (auto simp: m split: sum.split prod.split)
qed simp

definition serveRCON :: "string \<Rightarrow> bool \<Rightarrow> u8 list \<Rightarrow> u8 list \<times> rcon_conn" where
  "serveRCON password stopped s =
     serveRCON_loop (Suc (length s)) password \<lparr>rc_auth = False, rc_open = True, rc_stop = stopped\<rparr> s"

subsection \<open>Server list ping on the server's side\<close>

definition fs_readPacket :: "u8 list \<Rightarrow> u8 list option \<times> u8 list" where
  "fs_readPacket s =
     (case readVarInt s of
        (Inl _, r) \<Rightarrow> (None, r)
      | (Inr n, r) \<Rightarrow>
          if sint n < 0 \<or> 2 ^ 20 < sint n then (None, r) else ReadFull (nat (sint n)) r)"

definition fs_buildPacket :: "u8 \<Rightarrow> u8 list list \<Rightarrow> u8 list" where
  "fs_buildPacket pid parts =
     (let body = pid # concat parts in writeVarInt (word_of_nat (length body)) @ body)"

text \<open>\<open>json\<close> is the encoded status.\<close>

definition serveSLP :: "string \<Rightarrow> u8 list \<Rightarrow> u8 list" where
  "serveSLP json s =
     (case fs_readPacket s of
        (None, _) \<Rightarrow> []
      | (Some _, s1) \<Rightarrow>
         (case fs_readPacket s1 of
            (None, _) \<Rightarrow> []
          | (Some _, s2) \<Rightarrow>
              fs_buildPacket 0 [writeString json]
              @ (case fs_readPacket s2 of
                   (None, _) \<Rightarrow> []
                 | (Some ping, _) \<Rightarrow> if 9 \<le> length ping then fs_buildPacket 1 [take 8 (drop 1 ping)] else [])))"

subsection \<open>The RCON protocol end to end\<close>

lemma writePacket_is_writeRconPkt:
  "length payload \<le> 4086 \<Longrightarrow> writePacket rid ptype payload = Inr (writeRconPkt rid ptype payload)"
  by (simp add: writePacket_small writeRconPkt_def add.commute)

lemma readRconPkt_write:
  assumes "length payload \<le> 4086" and "nul \<notin> set payload"
  shows "readRconPkt (writeRconPkt rid ptype payload @ rest) = (Inr (rid, ptype, payload), rest)"
proof -
  let ?len = "word_of_nat (length payload + 10) :: u32"
  let ?body = "PutUint32 rid @ PutUint32 ptype @ bytes_of payload @ [0, 0]"
  have u: "unat ?len = length payload + 10" using assms(1) by (intro unat_of_nat_small) simp
  have z: "0 \<notin> set (bytes_of payload)" using assms(2) by (auto simp: bytes_of_def)
  have l: "4 + 4 + length payload + 2 = length payload + 10" by simp
  have p: "writeRconPkt rid ptype payload @ rest = PutUint32 ?len @ ?body @ rest"
    unfolding writeRconPkt_def l by simp
  have "ReadFull 4 (PutUint32 ?len @ ?body @ rest) = (Some (PutUint32 ?len), ?body @ rest)"
    by (rule ReadFull_append) simp
  moreover have "ReadFull (unat ?len) (?body @ rest) = (Some ?body, rest)"
    by (rule ReadFull_append) (simp only: u, simp)
  ultimately show ?thesis
    unfolding p readRconPkt_def using z by (simp add: until_nul_append_nul [where r = "[0]"])
qed

text \<open>
  The bytes the client has sent so far are what it has written; after each of its packets the
  server's answer is what the connection delivers next.
\<close>

fun session :: "string \<Rightarrow> rcon_conn \<Rightarrow> client \<Rightarrow> string list \<Rightarrow> (rcon_error + string) list \<times> rcon_conn" where
  "session password k c [] = ([], k)"
| "session password k c (x # xs) =
     (case writePacket (fst (nextID c)) typeExecCmd x of
        Inl e \<Rightarrow> ([Inl e], k)
      | Inr p \<Rightarrow>
         (case serveRCON_loop 1 password k p of
            (out, k') \<Rightarrow>
              (case Cmd None x (c\<lparr>cl_in := cl_in c @ out\<rparr>) of
                 (r, c') \<Rightarrow> (case session password k' c' xs of (rs, k'') \<Rightarrow> (r # rs, k'')))))"

text \<open>What the server should answer to a list of commands, and whether it is asked to stop.\<close>

definition spoken :: "string \<Rightarrow> bool" where
  "spoken x \<longleftrightarrow> length x \<le> maxPayload \<and> nul \<notin> set x"

lemma handleCmd_answer:
  "spoken x \<Longrightarrow> length (fst (handleCmd x b)) \<le> 4086 \<and> nul \<notin> set (fst (handleCmd x b))"
  by (auto simp: handleCmd_def spoken_def maxPayload_def)

lemma serve_exec:
  assumes "rc_open k" "rc_auth k" "spoken x"
  shows "serveRCON_loop 1 password k (writeRconPkt rid typeExecCmd x)
       = (writeRconPkt rid typeResponse (fst (handleCmd x (rc_stop k))), k\<lparr>rc_stop := snd (handleCmd x (rc_stop k))\<rparr>)"
  using assms readRconPkt_write [of x rid typeExecCmd "[]"]
  by (simp add: serve_packet_def spoken_def maxPayload_def typeExecCmd_def typeResponse_def rconLogin_def rconExec_def
      rconResponse_def split: prod.split)

lemma Cmd_frame: "cl_closed (snd (Cmd None x c)) = cl_closed c"
  by (auto simp: Cmd_def send_packet_def nextID_def Let_def split: sum.splits prod.splits)

lemma session_answers:
  assumes "\<forall>x\<in>set xs. spoken x" and "\<not> cl_closed c" and "cl_in c = []" and "rc_open k" and "rc_auth k"
  shows "session password k c xs = (map (\<lambda>x. Inr (fst (handleCmd x False))) xs, k\<lparr>rc_stop := rc_stop k \<or> ''stop'' \<in> set xs\<rparr>)"
  using assms
proof (induction xs arbitrary: c k)
  case (Cons x xs)
  then have x: "spoken x" by simp
  let ?rid = "fst (nextID c)" and ?a = "fst (handleCmd x (rc_stop k))"
  let ?c = "c\<lparr>cl_in := cl_in c @ writeRconPkt ?rid typeResponse ?a\<rparr>"
  let ?k = "k\<lparr>rc_stop := snd (handleCmd x (rc_stop k))\<rparr>"
  have p: "writePacket ?rid typeExecCmd x = Inr (writeRconPkt ?rid typeExecCmd x)"
    using x by (intro writePacket_is_writeRconPkt) (simp add: spoken_def maxPayload_def)
  have rid: "fst (nextID (c\<lparr>cl_in := s\<rparr>)) = ?rid" for s by (simp add: nextID_def Let_def)
  have C: "fst (Cmd None x ?c) = Inr ?a \<and> cl_in (snd (Cmd None x ?c)) = []"
    using x handleCmd_answer [OF x] Cons.prems
    by (intro Cmd_ok [where ptype = typeResponse and reply = ?a])
      (simp_all add: rid writePacket_is_writeRconPkt spoken_def)
  have a: "?a = fst (handleCmd x False)" "snd (handleCmd x (rc_stop k)) = (rc_stop k \<or> x = ''stop'')"
    by (auto simp: handleCmd_def)
  obtain r c' where rc: "Cmd None x ?c = (r, c')" by fastforce
  then have c': "r = Inr (fst (handleCmd x False))" "cl_in c' = []" "\<not> cl_closed c'"
    using C a(1) Cmd_frame [of x ?c] Cons.prems(2) by auto
  have "session password ?k c' xs
      = (map (\<lambda>x. Inr (fst (handleCmd x False))) xs, ?k\<lparr>rc_stop := rc_stop ?k \<or> ''stop'' \<in> set xs\<rparr>)"
    using Cons.IH [of c' ?k] Cons.prems c' by simp
  then show ?case
    using serve_exec [OF Cons.prems(4,5) x, of password ?rid] rc c' a(2) by (auto simp: p)
qed simp

definition fresh_conn :: rcon_conn where
  "fresh_conn = \<lparr>rc_auth = False, rc_open = True, rc_stop = False\<rparr>"

text \<open>Dialing: the login packet of the client is served, and its answer is what Dial reads.\<close>

definition dial_server :: "string \<Rightarrow> string \<Rightarrow> (rcon_error + client) \<times> rcon_conn" where
  "dial_server password given =
     (case writePacket 1 typeLogin given of
        Inl e \<Rightarrow> (Inl e, fresh_conn)
      | Inr p \<Rightarrow>
         (case serveRCON_loop 1 password fresh_conn p of
            (out, k) \<Rightarrow> (Dial (Inr out) None given, k)))"

lemma serve_login:
  assumes "length given \<le> 4086" "nul \<notin> set given"
  shows "serveRCON_loop 1 password fresh_conn (writeRconPkt 1 typeLogin given)
       = (if given = password then (writeRconPkt 1 typeExecCmd [], fresh_conn\<lparr>rc_auth := True\<rparr>)
          else (writeRconPkt (-1) typeExecCmd [], fresh_conn\<lparr>rc_open := False\<rparr>))"
  using readRconPkt_write [OF assms, of 1 typeLogin "[]"]
  by (simp add: serve_packet_def fresh_conn_def typeLogin_def typeExecCmd_def rconLogin_def rconExec_def)

lemma Dial_answer:
  assumes "length given \<le> 4086"
  shows "Dial (Inr (writeRconPkt rid ptype [])) None given
       = (if rid = -1 then Inl ErrAuthFailed else if rid \<noteq> 1 then Inl (AuthIdMismatch 1 rid)
          else Inr \<lparr>cl_id = 1, cl_closed = False, cl_in = [], cl_out = [writeRconPkt 1 typeLogin given]\<rparr>)"
proof -
  have "readPacket (writeRconPkt rid ptype []) = (Inr (rid, ptype, []), [])"
    using readPacket_writePacket [of "[]" rid ptype "writeRconPkt rid ptype []" "[]"]
    by (simp add: writePacket_is_writeRconPkt)
  then show ?thesis
    using assms
    by (simp add: Dial_def Rcon.authenticate_def nextID_def send_packet_def writePacket_is_writeRconPkt
        split: unit.split)
qed

text \<open>
  The daemon's RCON client against the server end to end: with the right password dialing succeeds
  and every command gets exactly the server's answer to it, in order, and the server is asked to
  stop if and only if \<open>stop\<close> was among the commands; with any other password dialing fails with
  the authentication error.
\<close>

theorem rcon_session_with_server:
  assumes "length given \<le> 4086" "nul \<notin> set given" and "\<forall>x\<in>set cmds. spoken x"
  shows "if given = password
         then (\<exists>c k. dial_server password given = (Inr c, k)
            \<and> fst (session password k c cmds) = map (\<lambda>x. Inr (fst (handleCmd x False))) cmds
            \<and> (rc_stop (snd (session password k c cmds)) \<longleftrightarrow> ''stop'' \<in> set cmds))
         else fst (dial_server password given) = Inl ErrAuthFailed"
proof (cases "given = password")
  case True
  let ?c = "\<lparr>cl_id = 1, cl_closed = False, cl_in = [], cl_out = [writeRconPkt 1 typeLogin given]\<rparr>"
  let ?k = "fresh_conn\<lparr>rc_auth := True\<rparr>"
  have "dial_server password given = (Inr ?c, ?k)"
    using assms(1,2) True serve_login [OF assms(1,2), of password] Dial_answer [OF assms(1)]
    by (simp add: dial_server_def writePacket_is_writeRconPkt)
  moreover have "session password ?k ?c cmds
      = (map (\<lambda>x. Inr (fst (handleCmd x False))) cmds, ?k\<lparr>rc_stop := ''stop'' \<in> set cmds\<rparr>)"
    using session_answers [OF assms(3), of ?c ?k] by (simp add: fresh_conn_def)
  ultimately show ?thesis using True by simp
next
  case False
  then show ?thesis
    using assms(1,2) serve_login [OF assms(1,2), of password] Dial_answer [OF assms(1)]
    by (simp add: dial_server_def writePacket_is_writeRconPkt)
qed

theorem rcon_session_with_server_witness:
  "\<exists>c k. dial_server ''pw'' ''pw'' = (Inr c, k)
     \<and> fst (session ''pw'' k c [''list'', ''stop''])
         = [Inr ''There are 0 of a max of 20 players online: '', Inr ''Stopping the server'']
     \<and> rc_stop (snd (session ''pw'' k c [''list'', ''stop'']))"
  using rcon_session_with_server [of "''pw''" "[''list'', ''stop'']" "''pw''"]
  by (simp add: spoken_def maxPayload_def handleCmd_def)

subsection \<open>Server list ping end to end\<close>

lemma fs_readPacket_write:
  assumes "length body \<le> 2 ^ 20"
  shows "fs_readPacket (writeVarInt (word_of_nat (length body)) @ body @ rest) = (Some body, rest)"
proof -
  have s: "sint (word_of_nat (length body) :: u32) = int (length body)"
    using assms by (intro sint_of_nat_small) simp
  show ?thesis
    using assms ReadFull_append [of body "length body" rest] by (simp add: fs_readPacket_def s)
qed

lemma writeVarInt_small: "writeVarInt 0 = [0]" "writeVarInt 1 = [1]"
  by (simp_all add: writeVarInt.simps)

lemma writeVarInt_short: "length (writeVarInt v) \<le> 5"
proof -
  have "unat v < 2 ^ LENGTH(32)" by (rule unsigned_less)
  then have "unat v < 2 ^ (7 * 5)" by simp
  then show ?thesis using length_writeVarInt_le [of v 5] by simp
qed

definition probe_requests :: "string \<Rightarrow> int \<Rightarrow> u64 \<Rightarrow> u8 list" where
  "probe_requests host port now =
     handshake host port @ buildPacket 0 [] @ buildPacket 1 [PutUint64_be now]"

lemma serveSLP_answers:
  assumes "length host < 2 ^ 19"
  shows "serveSLP json (probe_requests host port now) = status_response json (PutUint64_be now)"
proof -
  have pack: "fs_readPacket (buildPacket pid parts @ rest) = (Some (writeVarInt (ucast pid) @ concat parts), rest)"
    if "length (writeVarInt (ucast pid) @ concat parts) \<le> 2 ^ 20" for pid parts rest
    using fs_readPacket_write [OF that, of rest] by (simp add: buildPacket_def Let_def)
  have p: "length (PutUint64_be now) = 8" by (simp add: PutUint64_be_def)
  have u: "(ucast (0 :: u8) :: u32) = 0" "(ucast (1 :: u8) :: u32) = 1" by simp_all
  have h: "length (writeVarInt (ucast (0 :: u8)) @ concat [writeVarInt (-1), writeString host,
      writeUint16 (word_of_int port), writeVarInt 1]) \<le> 2 ^ 20"
    using assms writeVarInt_short [of "-1"] writeVarInt_short [of "word_of_nat (length host)"]
      writeVarInt_short [of 0] writeVarInt_short [of 1]
    by (simp add: writeString_def writeUint16_def)
  have r1: "fs_readPacket (probe_requests host port now)
      = (Some (writeVarInt (ucast (0 :: u8)) @ concat [writeVarInt (-1), writeString host,
          writeUint16 (word_of_int port), writeVarInt 1]), buildPacket 0 [] @ buildPacket 1 [PutUint64_be now])"
    unfolding probe_requests_def handshake_def by (rule pack [OF h])
  have r2: "fs_readPacket (buildPacket 0 [] @ buildPacket 1 [PutUint64_be now])
      = (Some [0], buildPacket 1 [PutUint64_be now])"
    using pack [of 0 "[]" "buildPacket 1 [PutUint64_be now]"] by (simp add: u writeVarInt_small)
  have r3: "fs_readPacket (buildPacket 1 [PutUint64_be now]) = (Some (1 # PutUint64_be now), [])"
    using pack [of 1 "[PutUint64_be now]" "[]"] p by (simp add: u writeVarInt_small)
  have b: "fs_buildPacket pid parts = buildPacket pid parts" if "writeVarInt (ucast pid) = [pid]" for pid parts
    using that by (simp add: fs_buildPacket_def buildPacket_def Let_def)
  show ?thesis
    unfolding serveSLP_def r1 prod.case option.case r2 r3 status_response_def
    using p by (simp add: b u writeVarInt_small)
qed

text \<open>
  C27: probing the server end to end: what the server sends in answer to the requests of the probe is
  decoded into its status, with the measured latency.
\<close>

theorem probe_of_server_succeeds:
  assumes "length host < 2 ^ 19" and "length json < 2 ^ 31 - 16" and "unmarshal json = Some st"
  shows "Probe unmarshal (Inr (serveSLP json (probe_requests host port now))) (None, None, None) elapsed
    = Inr (st\<lparr>st_raw := json, st_latency := elapsed\<rparr>)"
  unfolding serveSLP_answers [OF assms(1)]
  by (rule Probe_status_response) (use assms in \<open>simp_all add: PutUint64_be_def\<close>)

theorem probe_of_server_succeeds_witness:
  "Probe demo_unmarshal (Inr (serveSLP ''{}'' (probe_requests ''127.0.0.1'' 25565 7))) (None, None, None) 3
    = Inr \<lparr>st_version = [], st_players = \<lparr>pl_max = 0, pl_online = 0\<rparr>, st_description = None,
           st_raw = ''{}'', st_latency = 3\<rparr>"
proof -
  let ?st = "\<lparr>st_version = [], st_players = \<lparr>pl_max = 0, pl_online = 0\<rparr>,
              st_description = None, st_raw = [], st_latency = 0\<rparr>"
  have "Probe demo_unmarshal (Inr (serveSLP ''{}'' (probe_requests ''127.0.0.1'' 25565 7))) (None, None, None) 3
      = Inr (?st\<lparr>st_raw := ''{}'', st_latency := 3\<rparr>)"
    by (rule probe_of_server_succeeds) (simp_all add: demo_unmarshal_def)
  then show ?thesis by (simp only: status.simps)
qed

end
