(* ===== verification/ServerId.thy ===== *)
theory ServerId
  imports GoStrings AtomicFile
begin

text \<open>
  Server identity (\<open>internal/serverid/identity.go\<close>), flavor detection (\<open>flavor.go\<close>) and
  launch plans (\<open>launch.go\<close>).  A server directory is what \<open>os.ReadDir\<close> lists (names in
  order, or its error), what \<open>os.Stat\<close> finds below it, and its \<open>.mcsm/config.yaml\<close>, whose
  YAML decoding is the \<^const>\<open>Holds\<close> of its content.
\<close>

datatype yaml = YBool bool | YString string | YList "yaml list" | YOther string

record config =
  cfg_ID :: string
  cfg_Name :: string
  cfg_Type :: string
  cfg_JavaArgs :: "string list"
  cfg_Features :: "(string \<rightharpoonup> yaml) option"
  cfg_DiscordToken :: string
  cfg_DiscordChannels :: "string list"

datatype id_error =
    NotAServer string            \<comment> \<open>\<open>ErrNotAServer\<close>\<close>
  | ConfigIO go_error
  | ConfigParse
  | IDRequired
  | ReadDirFailed go_error
  | WriteConfigFailed go_error

fun is_ErrNotAServer :: "id_error \<Rightarrow> bool" where
  "is_ErrNotAServer (NotAServer _) = True"
| "is_ErrNotAServer _ = False"

definition ConfigPath :: "string \<Rightarrow> string" where
  "ConfigPath serverDir = path_Join [serverDir, ''.mcsm'', ''config.yaml'']"

definition read_config :: "go_error option \<Rightarrow> string \<Rightarrow> config dir \<Rightarrow> id_error + config" where
  "read_config io serverDir d =
     (case d (ConfigPath serverDir) of
        None \<Rightarrow> Inl (NotAServer serverDir)
      | Some c \<Rightarrow>
          (case io of
             Some e \<Rightarrow> Inl (ConfigIO e)
           | None \<Rightarrow>
               (case c of
                  Garbled \<Rightarrow> Inl ConfigParse
                | Holds cfg \<Rightarrow> if cfg_ID cfg = [] then Inl IDRequired else Inr cfg)))"

definition write_config :: "write_fault \<Rightarrow> string \<Rightarrow> string \<Rightarrow> config \<Rightarrow> config dir \<Rightarrow> go_error option \<times> config dir" where
  "write_config f tmp serverDir c d = atomic_write f tmp (ConfigPath serverDir) c d"

subsection \<open>Flavors\<close>

abbreviation FlavorPaper :: string where "FlavorPaper \<equiv> ''paper''"
abbreviation FlavorVanilla :: string where "FlavorVanilla \<equiv> ''vanilla''"
abbreviation FlavorFabric :: string where "FlavorFabric \<equiv> ''fabric''"
abbreviation FlavorForge :: string where "FlavorForge \<equiv> ''forge''"
abbreviation FlavorUnknown :: string where "FlavorUnknown \<equiv> ''unknown''"

record dir_entry =
  de_Name :: string
  de_IsDir :: bool

record flavor_flags =
  hasFabric :: bool
  hasForgeJar :: bool
  hasPaperJar :: bool
  hasPaperVH :: bool
  hasServerJar :: bool

definition flag_entry :: "dir_entry \<Rightarrow> flavor_flags \<Rightarrow> flavor_flags" where
  "flag_entry e fl =
     (let name = de_Name e
      in if name = ''fabric-server-launch.jar'' then fl\<lparr>hasFabric := True\<rparr>
         else if HasPrefix name ''forge-'' \<and> HasSuffix name ''.jar'' then fl\<lparr>hasForgeJar := True\<rparr>
         else if name = ''paper.jar'' then fl\<lparr>hasPaperJar := True\<rparr>
         else if HasPrefix name ''paper-'' \<and> HasSuffix name ''.jar'' then fl\<lparr>hasPaperJar := True\<rparr>
         else if name = ''version_history.json'' then fl\<lparr>hasPaperVH := True\<rparr>
         else if name = ''server.jar'' then fl\<lparr>hasServerJar := True\<rparr>
         else fl)"

definition DetectFlavor :: "go_error + dir_entry list \<Rightarrow> (string \<Rightarrow> bool) \<Rightarrow> go_error + string" where
  "DetectFlavor listing dirExists =
     (case listing of
        Inl e \<Rightarrow> Inl e
      | Inr entries \<Rightarrow>
          (let fl = fold flag_entry entries
                 \<lparr>hasFabric = False, hasForgeJar = False, hasPaperJar = False, hasPaperVH = False, hasServerJar = False\<rparr>
           in if hasFabric fl then Inr FlavorFabric
              else if hasForgeJar fl \<or> dirExists ''libraries/net/minecraftforge/forge'' then Inr FlavorForge
              else if hasPaperJar fl \<or> hasPaperVH fl then Inr FlavorPaper
              else if hasServerJar fl then Inr FlavorVanilla
              else Inr FlavorUnknown))"

definition IsLikelyServerDir :: "(string \<Rightarrow> bool) \<Rightarrow> bool" where
  "IsLikelyServerDir stat \<longleftrightarrow> stat ''server.properties'' \<or> stat ''.mcsm/config.yaml''"

subsection \<open>Launch plans\<close>

record launch_plan =
  lp_Dir :: string
  lp_Command :: string
  lp_Args :: "string list"

datatype plan_error = PlanReadDir go_error | NoJar string | UnknownFlavor string

definition DefaultJVMArgs :: "string list" where
  "DefaultJVMArgs =
     [''-XX:+UseG1GC'', ''-XX:+ParallelRefProcEnabled'', ''-XX:MaxGCPauseMillis=200'',
      ''-XX:+UnlockExperimentalVMOptions'', ''-XX:+DisableExplicitGC'', ''-XX:+AlwaysPreTouch'',
      ''-XX:G1NewSizePercent=30'', ''-XX:G1MaxNewSizePercent=40'', ''-XX:G1HeapRegionSize=8M'',
      ''-XX:G1ReservePercent=20'', ''-XX:G1HeapWastePercent=5'', ''-XX:G1MixedGCCountTarget=4'',
      ''-XX:InitiatingHeapOccupancyPercent=15'', ''-XX:G1MixedGCLiveThresholdPercent=90'',
      ''-XX:G1RSetUpdatingPauseTimePercent=5'', ''-XX:SurvivorRatio=32'', ''-XX:+PerfDisableSharedMem'',
      ''-XX:MaxTenuringThreshold=1'']"

definition latest_step :: "string \<Rightarrow> string \<Rightarrow> dir_entry \<Rightarrow> string \<Rightarrow> string" where
  "latest_step pre suf e best =
     (if de_IsDir e then best
      else let n = de_Name e
           in if HasPrefix n pre \<and> HasSuffix n suf \<and> n > best then n else best)"

definition latestMatching :: "dir_entry list \<Rightarrow> string \<Rightarrow> string \<Rightarrow> string" where
  "latestMatching entries pre suf = fold (latest_step pre suf) entries []"

definition findLaunchJar :: "go_error + dir_entry list \<Rightarrow> (string \<Rightarrow> bool) \<Rightarrow> string \<Rightarrow> plan_error + string" where
  "findLaunchJar listing stat flavor =
     (case listing of
        Inl e \<Rightarrow> Inl (PlanReadDir e)
      | Inr entries \<Rightarrow>
          if flavor = FlavorPaper then
            (if stat ''paper.jar'' then Inr ''paper.jar''
             else let latest = latestMatching entries ''paper-'' ''.jar''
                  in if latest \<noteq> [] then Inr latest else Inl (NoJar flavor))
          else if flavor = FlavorVanilla then
            (if stat ''server.jar'' then Inr ''server.jar'' else Inl (NoJar flavor))
          else if flavor = FlavorFabric then
            (if stat ''fabric-server-launch.jar'' then Inr ''fabric-server-launch.jar'' else Inl (NoJar flavor))
          else if flavor = FlavorForge then
            (let latest = latestMatching entries ''forge-'' ''-universal.jar''
             in if latest \<noteq> [] then Inr latest
                else if stat ''server.jar'' then Inr ''server.jar''
                else Inl (NoJar flavor))
          else Inl (UnknownFlavor flavor))"

definition PlanLaunch ::
    "go_error + dir_entry list \<Rightarrow> (string \<Rightarrow> bool) \<Rightarrow> config \<Rightarrow> string \<Rightarrow> plan_error + launch_plan" where
  "PlanLaunch listing stat cfg serverDir =
     (case findLaunchJar listing stat (cfg_Type cfg) of
        Inl e \<Rightarrow> Inl e
      | Inr jar \<Rightarrow>
          (let args = (if cfg_JavaArgs cfg = [] then DefaultJVMArgs else cfg_JavaArgs cfg)
           in Inr \<lparr>lp_Dir = serverDir, lp_Command = ''java'', lp_Args = args @ [''-jar'', jar, ''nogui'']\<rparr>))"

subsection \<open>Initialization\<close>

definition Initialize ::
    "go_error option \<Rightarrow> go_error + dir_entry list \<Rightarrow> (string \<Rightarrow> bool) \<Rightarrow> string \<Rightarrow> write_fault \<Rightarrow> string \<Rightarrow>
     string \<Rightarrow> string \<Rightarrow> config dir \<Rightarrow> (id_error + config) \<times> config dir" where
  "Initialize io listing dirExists newID f tmp serverDir name d =
     (case read_config io serverDir d of
        Inr c \<Rightarrow> (Inr c, d)
      | Inl e \<Rightarrow>
          if \<not> is_ErrNotAServer e then (Inl e, d)
          else (case DetectFlavor listing dirExists of
                  Inl e' \<Rightarrow> (Inl (ReadDirFailed e'), d)
                | Inr flavor \<Rightarrow>
                    (let c = \<lparr>cfg_ID = newID, cfg_Name = name, cfg_Type = flavor, cfg_JavaArgs = [],
                              cfg_Features = None, cfg_DiscordToken = [], cfg_DiscordChannels = []\<rparr>
                     in case write_config f tmp serverDir c d of
                          (Some e', d') \<Rightarrow> (Inl (WriteConfigFailed e'), d')
                        | (None, d') \<Rightarrow> (Inr c, d'))))"

subsection \<open>Detection follows the documented precedence\<close>

definition has_file :: "dir_entry list \<Rightarrow> (string \<Rightarrow> bool) \<Rightarrow> bool" where
  "has_file entries P \<longleftrightarrow> (\<exists>e\<in>set entries. P (de_Name e))"

lemma flag_entries:
  fixes es :: "dir_entry list"
  defines "F \<equiv> fold flag_entry es"
  shows "hasFabric (F fl) \<longleftrightarrow> hasFabric fl \<or> has_file es (\<lambda>n. n = ''fabric-server-launch.jar'')"
    and "hasForgeJar (F fl) \<longleftrightarrow> hasForgeJar fl \<or> has_file es (\<lambda>n. HasPrefix n ''forge-'' \<and> HasSuffix n ''.jar'')"
    and "hasPaperJar (F fl) \<longleftrightarrow> hasPaperJar fl \<or>
           has_file es (\<lambda>n. n = ''paper.jar'' \<or> (HasPrefix n ''paper-'' \<and> HasSuffix n ''.jar''))"
    and "hasPaperVH (F fl) \<longleftrightarrow> hasPaperVH fl \<or> has_file es (\<lambda>n. n = ''version_history.json'')"
    and "hasServerJar (F fl) \<longleftrightarrow> hasServerJar fl \<or> has_file es (\<lambda>n. n = ''server.jar'')"
  unfolding F_def
  by (induction es arbitrary: fl)
    (auto simp: has_file_def flag_entry_def Let_def HasPrefix_def HasSuffix_def)

text \<open>
  Detection implements the documented precedence on the names in the directory: fabric
  before forge before paper before vanilla, and unknown only when no name matches.
\<close>

theorem DetectFlavor_precedence:
  "DetectFlavor (Inr es) dirExists = Inr (
     if has_file es (\<lambda>n. n = ''fabric-server-launch.jar'') then FlavorFabric
     else if has_file es (\<lambda>n. HasPrefix n ''forge-'' \<and> HasSuffix n ''.jar'')
          \<or> dirExists ''libraries/net/minecraftforge/forge'' then FlavorForge
     else if has_file es (\<lambda>n. n = ''paper.jar'' \<or> (HasPrefix n ''paper-'' \<and> HasSuffix n ''.jar''))
          \<or> has_file es (\<lambda>n. n = ''version_history.json'') then FlavorPaper
     else if has_file es (\<lambda>n. n = ''server.jar'') then FlavorVanilla
     else FlavorUnknown)"
  by (simp add: DetectFlavor_def Let_def flag_entries)

subsection \<open>The launch jar\<close>

definition matching :: "dir_entry list \<Rightarrow> string \<Rightarrow> string \<Rightarrow> string list" where
  "matching es pre suf =
     map de_Name (filter (\<lambda>e. \<not> de_IsDir e \<and> HasPrefix (de_Name e) pre \<and> HasSuffix (de_Name e) suf) es)"

lemma fold_latest:
  "fold (latest_step pre suf) es best = fold max (matching es pre suf) best"
  by (induction es arbitrary: best) (auto simp: matching_def latest_step_def Let_def max_def)

lemma latestMatching_Max:
  "latestMatching es pre suf = Max (set ([] # matching es pre suf))"
  unfolding latestMatching_def fold_latest Max.set_eq_fold ..

lemma latestMatching_member:
  "latestMatching es pre suf \<noteq> [] \<Longrightarrow> latestMatching es pre suf \<in> set (matching es pre suf)"
  using Max_in [of "set ([] # matching es pre suf)"] by (auto simp: latestMatching_Max)

lemma latestMatching_empty:
  "pre \<noteq> [] \<Longrightarrow> latestMatching es pre suf = [] \<longleftrightarrow> matching es pre suf = []"
proof
  assume p: "pre \<noteq> []" and l: "latestMatching es pre suf = []"
  show "matching es pre suf = []"
  proof (rule ccontr)
    assume "matching es pre suf \<noteq> []"
    then obtain n where n: "n \<in> set (matching es pre suf)" by (cases "matching es pre suf") auto
    then have "n \<le> Max (set ([] # matching es pre suf))" by (intro Max_ge) simp_all
    then have "n \<le> []" using l by (simp only: latestMatching_Max)
    moreover have "[] < n" if "n \<noteq> []" using that by (cases n) simp_all
    ultimately have "n = []" using leD by blast
    then show False using n p by (auto simp: matching_def HasPrefix_def)
  qed
qed (simp add: latestMatching_Max)

text \<open>The jars a flavor can be launched with.\<close>

definition usable_jar :: "dir_entry list \<Rightarrow> (string \<Rightarrow> bool) \<Rightarrow> string \<Rightarrow> string \<Rightarrow> bool" where
  "usable_jar es stat flavor jar \<longleftrightarrow>
     (flavor = FlavorPaper \<and> (jar = ''paper.jar'' \<and> stat jar \<or> jar \<in> set (matching es ''paper-'' ''.jar'')))
   \<or> (flavor = FlavorVanilla \<and> jar = ''server.jar'' \<and> stat jar)
   \<or> (flavor = FlavorFabric \<and> jar = ''fabric-server-launch.jar'' \<and> stat jar)
   \<or> (flavor = FlavorForge \<and>
        (jar \<in> set (matching es ''forge-'' ''-universal.jar'') \<or> jar = ''server.jar'' \<and> stat jar))"

lemma findLaunchJar_usable:
  "findLaunchJar (Inr es) stat flavor = Inr jar \<Longrightarrow> usable_jar es stat flavor jar"
  using latestMatching_member [of es "''paper-''" "''.jar''"]
    latestMatching_member [of es "''forge-''" "''-universal.jar''"]
  by (auto simp: findLaunchJar_def usable_jar_def Let_def split: if_splits)

lemma findLaunchJar_none:
  "findLaunchJar (Inr es) stat flavor = Inl e \<Longrightarrow> \<not> usable_jar es stat flavor jar"
  using latestMatching_empty [of "''paper-''" es "''.jar''"]
    latestMatching_empty [of "''forge-''" es "''-universal.jar''"]
  by (auto simp: findLaunchJar_def usable_jar_def Let_def split: if_splits)

text \<open>
  A launch plan is made exactly when the directory has a jar the configured flavor can be
  launched with; it runs java in that directory on such a jar with \<open>nogui\<close>, after the configured
  JVM arguments or the default ones when none are configured.
\<close>

theorem PlanLaunch_spec:
  "(case PlanLaunch (Inr es) stat cfg dir of
      Inr p \<Rightarrow> lp_Dir p = dir \<and> lp_Command p = ''java'' \<and>
        (\<exists>jar. usable_jar es stat (cfg_Type cfg) jar \<and>
           lp_Args p = (if cfg_JavaArgs cfg = [] then DefaultJVMArgs else cfg_JavaArgs cfg) @ [''-jar'', jar, ''nogui''])
    | Inl e \<Rightarrow> \<not> (\<exists>jar. usable_jar es stat (cfg_Type cfg) jar))"
proof (cases "findLaunchJar (Inr es) stat (cfg_Type cfg)")
  case (Inl e)
  then show ?thesis using findLaunchJar_none [OF Inl] by (simp add: PlanLaunch_def)
next
  case (Inr jar)
  then show ?thesis using findLaunchJar_usable [OF Inr] by (auto simp: PlanLaunch_def Let_def)
qed

text \<open>
  The newest build is not what \<open>latestMatching\<close> picks.  The comment expects lexical order
  to follow release order; build 99 sorts above build 100, so a server updated from the one to
  the other keeps launching the old jar.
\<close>

theorem latestMatching_prefers_old_build:
  "latestMatching [\<lparr>de_Name = ''paper-1.21.4-100.jar'', de_IsDir = False\<rparr>,
                   \<lparr>de_Name = ''paper-1.21.4-99.jar'', de_IsDir = False\<rparr>] ''paper-'' ''.jar''
   = ''paper-1.21.4-99.jar''"
  by code_simp

subsection \<open>Identity is stable\<close>

lemma read_written:
  "cfg_ID c \<noteq> [] \<Longrightarrow> d tmp = None \<Longrightarrow> tmp \<noteq> ConfigPath dir \<Longrightarrow> write_config f tmp dir c d = (None, d') \<Longrightarrow>
     read_config None dir d' = Inr c"
  using atomic_write_ok [of d tmp "ConfigPath dir" f c]
  by (simp add: write_config_def read_config_def)

text \<open>
  Initializing is idempotent.  Whatever was in the directory, once it succeeded, every later
  call returns the same configuration, with the same id, and writes nothing; and a failed call
  leaves the directory as it was.
\<close>

theorem Initialize_stable:
  assumes "Initialize None listing dirs newID f tmp dir name d = (res, d')"
    and "newID \<noteq> []" and "d tmp = None" and "tmp \<noteq> ConfigPath dir"
  shows "case res of
      Inr c \<Rightarrow> cfg_ID c \<noteq> [] \<and> (\<forall>listing' dirs' newID' f' tmp' name'.
                 Initialize None listing' dirs' newID' f' tmp' dir name' d' = (Inr c, d'))
    | Inl e \<Rightarrow> d' = d"
proof -
  let ?new = "\<lambda>flavor. \<lparr>cfg_ID = newID, cfg_Name = name, cfg_Type = flavor, cfg_JavaArgs = [],
      cfg_Features = None, cfg_DiscordToken = [], cfg_DiscordChannels = []\<rparr>"
  have failed: "d1 = d" if "write_config f tmp dir c d = (Some e, d1)" for c e d1
    using that atomic_write_error [of d tmp f "ConfigPath dir" c e] assms(3) by (simp add: write_config_def)
  have again: "Initialize None l2 dirs2 n2 f2 t2 dir nm2 d1 = (Inr c, d1)" if "read_config None dir d1 = Inr c"
    for l2 dirs2 n2 f2 t2 nm2 d1 c
    using that by (simp add: Initialize_def)
  have ids: "cfg_ID c \<noteq> []" if "read_config None dir d1 = Inr c" for d1 c
    using that by (auto simp: read_config_def split: option.splits content.splits if_splits)
  show ?thesis
  proof (cases res)
    case (Inl e)
    then show ?thesis
      using assms(1) failed by (auto simp: Initialize_def Let_def split: sum.splits prod.splits option.splits if_splits)
  next
    case (Inr c)
    have "read_config None dir d' = Inr c"
    proof (cases "read_config None dir d")
      case (Inr c')
      then show ?thesis using assms(1) \<open>res = Inr c\<close> by (simp add: Initialize_def)
    next
      case (Inl e)
      then obtain flavor where "write_config f tmp dir (?new flavor) d = (None, d')" "c = ?new flavor"
        using assms(1) \<open>res = Inr c\<close>
        by (auto simp: Initialize_def Let_def split: sum.splits prod.splits option.splits if_splits)
      then show ?thesis using read_written assms(2-4) by simp
    qed
    then show ?thesis using Inr again ids by auto
  qed
qed

theorem Initialize_stable_witness:
  "\<exists>c d'. Initialize None (Inr []) (\<lambda>_. False) ''id1'' NoFault ''/tmp1'' ''/srv/a'' ''lobby'' Map.empty = (Inr c, d')
     \<and> Initialize None (Inr []) (\<lambda>_. True) ''id2'' NoFault ''/tmp1'' ''/srv/a'' ''x'' d' = (Inr c, d')"
proof -
  have p: "ConfigPath ''/srv/a'' = ''/srv/a/.mcsm/config.yaml''" by code_simp
  have n: "''/tmp1'' \<noteq> ConfigPath ''/srv/a''" by (simp add: p)
  have e: "Map.empty ''/tmp1'' = None" by simp
  have i: "''id1'' \<noteq> []" by simp
  obtain c d' where t: "Initialize None (Inr []) (\<lambda>_. False) ''id1'' NoFault ''/tmp1'' ''/srv/a'' ''lobby'' Map.empty = (Inr c, d')"
    using n by (simp add: Initialize_def read_config_def DetectFlavor_def write_config_def Let_def)
  show ?thesis using Initialize_stable [OF t i e n] t by auto
qed

end
