(* ===== verification/ServerProps.thy ===== *)
theory ServerProps
  imports GoStrings AtomicFile
begin

text \<open>
  \<open>server.properties\<close>: \<open>internal/serverid/properties.go\<close> (\<open>ReadProperties\<close>) and
  \<open>properties_writer.go\<close> (\<open>PatchProperties\<close>).  A patch is the Go map in its iteration order,
  an association list with distinct keys.
\<close>

abbreviation blanks :: string where "blanks \<equiv> [CHR '' '', tab]"

definition is_comment :: "string \<Rightarrow> bool" where
  "is_comment t \<longleftrightarrow> t = [] \<or> t ! 0 = CHR ''#'' \<or> t ! 0 = CHR ''!''"

text \<open>The earliest \<open>=\<close> or \<open>:\<close> that no backslash precedes; the flag says the byte before was one.\<close>

fun find_sep :: "bool \<Rightarrow> string \<Rightarrow> nat option" where
  "find_sep esc [] = None"
| "find_sep esc (c # s) =
     (if (c = CHR ''='' \<or> c = CHR '':'') \<and> \<not> esc then Some 0
      else map_option Suc (find_sep (c = backslash) s))"

definition read_line :: "string \<Rightarrow> (string \<times> string) option" where
  "read_line raw =
     (let line = TrimLeft raw blanks
      in if is_comment line then None
         else case find_sep False line of
                None \<Rightarrow> None
              | Some i \<Rightarrow> Some (TrimRight (take i line) blanks, TrimLeft (drop (Suc i) line) blanks))"

definition add_line :: "string \<Rightarrow> (string \<rightharpoonup> string) \<Rightarrow> (string \<rightharpoonup> string)" where
  "add_line raw m = (case read_line raw of None \<Rightarrow> m | Some (k, v) \<Rightarrow> m(k \<mapsto> v))"

datatype props_error = PropsOpenFailed | PropsReadFailed | PropsWriteFailed go_error

definition parse_properties :: "string \<Rightarrow> (string \<rightharpoonup> string) option" where
  "parse_properties body =
     (case scan_lines default_scan_max body of
        TooLong _ \<Rightarrow> None
      | Lines ls \<Rightarrow> Some (fold add_line ls Map.empty))"

definition PropertiesPath :: "string \<Rightarrow> string" where
  "PropertiesPath serverDir = path_Join [serverDir, ''server.properties'']"

definition ReadProperties :: "string \<Rightarrow> string dir \<Rightarrow> props_error + (string \<rightharpoonup> string)" where
  "ReadProperties path d =
     (case d path of
        None \<Rightarrow> Inl PropsOpenFailed
      | Some Garbled \<Rightarrow> Inl PropsReadFailed
      | Some (Holds body) \<Rightarrow>
          (case parse_properties body of None \<Rightarrow> Inl PropsReadFailed | Some m \<Rightarrow> Inr m))"

subsection \<open>Patching\<close>

text \<open>One line of the loop: the line that is kept and the key that was written, if any.\<close>

definition patch_line :: "(string \<times> string) list \<Rightarrow> string \<Rightarrow> string \<times> string option" where
  "patch_line patch raw =
     (let trim = TrimLeft raw blanks
      in if is_comment trim then (raw, None)
         else case find_sep False trim of
                None \<Rightarrow> (raw, None)
              | Some i \<Rightarrow>
                  (let key = TrimRight (take i trim) blanks
                   in case map_of patch key of
                        Some newVal \<Rightarrow> (key @ [trim ! i] @ newVal, Some key)
                      | None \<Rightarrow> (raw, None)))"

definition appended_lines :: "(string \<times> string) list \<Rightarrow> string option list \<Rightarrow> string list" where
  "appended_lines patch written = map (\<lambda>(k, v). k @ ''='' @ v) (filter (\<lambda>(k, v). Some k \<notin> set written) patch)"

definition patched_lines :: "(string \<times> string) list \<Rightarrow> string list \<Rightarrow> string list" where
  "patched_lines patch ls =
     (let rs = map (patch_line patch) ls in map fst rs @ appended_lines patch (map snd rs))"

definition patch_body :: "(string \<times> string) list \<Rightarrow> string \<Rightarrow> string option" where
  "patch_body patch body =
     (case scan_lines big_scan_max body of
        TooLong _ \<Rightarrow> None
      | Lines ls \<Rightarrow> Some (Join (patched_lines patch ls) [nl] @ [nl]))"

definition PatchProperties ::
    "write_fault \<Rightarrow> string \<Rightarrow> string \<Rightarrow> (string \<times> string) list \<Rightarrow> string dir \<Rightarrow> props_error option \<times> string dir" where
  "PatchProperties f tmp serverDir patch d =
     (let path = PropertiesPath serverDir
      in case d path of
           None \<Rightarrow> (Some PropsOpenFailed, d)
         | Some Garbled \<Rightarrow> (Some PropsReadFailed, d)
         | Some (Holds body) \<Rightarrow>
             (case patch_body patch body of
                None \<Rightarrow> (Some PropsReadFailed, d)
              | Some body' \<Rightarrow>
                  (case atomic_write f tmp path body' d of
                     (Some e, d') \<Rightarrow> (Some (PropsWriteFailed e), d')
                   | (None, d') \<Rightarrow> (None, d'))))"

subsection \<open>Reading a patched file\<close>

definition good_key :: "string \<Rightarrow> bool" where
  "good_key k \<longleftrightarrow> k \<noteq> [] \<and> k ! 0 \<notin> {CHR ''#'', CHR ''!''} \<and>
     set k \<inter> {CHR ''='', CHR '':'', backslash, CHR '' '', tab, nl, cr} = {}"

definition good_val :: "string \<Rightarrow> bool" where
  "good_val v \<longleftrightarrow> nl \<notin> set v \<and> cr \<notin> set v \<and> (v \<noteq> [] \<longrightarrow> v ! 0 \<notin> set blanks)"

definition good_patch :: "(string \<times> string) list \<Rightarrow> bool" where
  "good_patch patch \<longleftrightarrow> distinct (keys_of patch) \<and>
     (\<forall>(k, v) \<in> set patch. good_key k \<and> good_val v \<and> length k + 1 + length v < default_scan_max)"

lemma find_sep_plain:
  "set k \<inter> {CHR ''='', CHR '':'', backslash} = {} \<Longrightarrow> c = CHR ''='' \<or> c = CHR '':'' \<Longrightarrow>
     find_sep False (k @ c # v) = Some (length k)"
  by (induction k) auto

lemma find_sep_is_sep:
  "find_sep esc s = Some i \<Longrightarrow> i < length s \<and> (s ! i = CHR ''='' \<or> s ! i = CHR '':'')"
  by (induction esc s arbitrary: i rule: find_sep.induct) (auto split: if_splits)

lemma TrimLeft_id: "s = [] \<or> s ! 0 \<notin> set cs \<Longrightarrow> TrimLeft s cs = s"
  by (cases s) (auto simp: TrimLeft_def)

lemma TrimRight_id: "set s \<inter> set cs = {} \<Longrightarrow> TrimRight s cs = s"
proof -
  assume "set s \<inter> set cs = {}"
  then have "dropWhile (\<lambda>c. c \<in> set cs) (rev s) = rev s"
    by (metis disjoint_iff dropWhile_eq_self_iff hd_in_set set_rev)
  then show ?thesis by (simp add: TrimRight_def)
qed

lemma read_line_good:
  assumes "good_key k" and "good_val v" and "c = CHR ''='' \<or> c = CHR '':''"
  shows "read_line (k @ c # v) = Some (k, v)"
proof -
  have k: "k \<noteq> []" "k ! 0 \<notin> {CHR ''#'', CHR ''!''}" "k ! 0 \<notin> set blanks" "set k \<inter> set blanks = {}"
      "set k \<inter> {CHR ''='', CHR '':'', backslash} = {}"
    using assms(1) nth_mem [of 0 k] by (auto simp: good_key_def simp del: nth_mem)
  have t: "TrimLeft (k @ c # v) blanks = k @ c # v"
    using k by (intro TrimLeft_id) (simp add: nth_append)
  have f: "find_sep False (k @ c # v) = Some (length k)"
    using find_sep_plain [OF k(5) assms(3)] .
  have "\<not> is_comment (k @ c # v)"
    using k by (simp add: is_comment_def nth_append)
  moreover have "TrimLeft v blanks = v"
    using assms(2) by (intro TrimLeft_id) (auto simp: good_val_def)
  ultimately show ?thesis
    using k(4) by (simp add: read_line_def t f TrimRight_id)
qed

lemma good_patch_entry:
  "good_patch patch \<Longrightarrow> map_of patch k = Some v \<Longrightarrow>
     good_key k \<and> good_val v \<and> length k + 1 + length v < default_scan_max"
  by (auto simp: good_patch_def dest!: map_of_SomeD)

definition overridden :: "(string \<times> string) list \<Rightarrow> string \<times> string \<Rightarrow> string \<times> string" where
  "overridden patch kv = (fst kv, case map_of patch (fst kv) of Some v \<Rightarrow> v | None \<Rightarrow> snd kv)"

lemma patch_line_read:
  "snd (patch_line patch l) = (case read_line l of
      Some (k, v) \<Rightarrow> if map_of patch k = None then None else Some k | None \<Rightarrow> None)"
  "read_line l = None \<Longrightarrow> patch_line patch l = (l, None)"
  "read_line l = Some (k, v) \<Longrightarrow> map_of patch k = None \<Longrightarrow> patch_line patch l = (l, None)"
  by (auto simp: patch_line_def read_line_def Let_def split: option.splits if_splits)

lemma patch_line_replaced:
  assumes "read_line l = Some (k, v)" and "map_of patch k = Some v'"
  obtains c where "c = CHR ''='' \<or> c = CHR '':''" and "patch_line patch l = (k @ c # v', Some k)"
  using assms find_sep_is_sep [of False "TrimLeft l blanks"] that
  by (auto simp: patch_line_def read_line_def Let_def split: option.splits if_splits)

lemma read_patch_line:
  assumes "good_patch patch"
  shows "read_line (fst (patch_line patch l)) = map_option (overridden patch) (read_line l)"
proof (cases "read_line l")
  case (Some kv)
  then obtain k v where kv: "read_line l = Some (k, v)" by (cases kv) auto
  show ?thesis
  proof (cases "map_of patch k")
    case None
    then show ?thesis using kv by (simp add: patch_line_read(3) overridden_def)
  next
    case v': (Some v')
    obtain c where c: "c = CHR ''='' \<or> c = CHR '':''" "patch_line patch l = (k @ c # v', Some k)"
      using patch_line_replaced [OF kv v'] .
    show ?thesis
      using good_patch_entry [OF assms v'] c kv v' by (simp add: read_line_good overridden_def)
  qed
qed (simp add: patch_line_read)

text \<open>What the lines of a file say, in order; later ones win.\<close>

definition entries :: "string list \<Rightarrow> (string \<times> string) list" where
  "entries ls = concat (map (\<lambda>l. case read_line l of None \<Rightarrow> [] | Some kv \<Rightarrow> [kv]) ls)"

lemma entries_append [simp]: "entries (xs @ ys) = entries xs @ entries ys"
  by (simp add: entries_def)

lemma fold_add_line: "fold add_line ls m = m ++ map_of (rev (entries ls))"
proof (induction ls arbitrary: m)
  case (Cons l ls)
  then show ?case
    by (cases "read_line l") (auto simp: entries_def add_line_def)
qed (simp add: entries_def)

lemma entries_patched:
  "good_patch patch \<Longrightarrow> entries (map (\<lambda>l. fst (patch_line patch l)) ls) = map (overridden patch) (entries ls)"
  by (induction ls) (auto simp: entries_def read_patch_line split: option.splits)

lemma map_of_overridden:
  "map_of (rev (map (overridden patch) es)) k =
     (if map_of (rev es) k = None then None
      else case map_of patch k of Some v \<Rightarrow> Some v | None \<Rightarrow> map_of (rev es) k)"
  by (induction es rule: rev_induct) (auto simp: overridden_def split: option.splits)

lemma written_keys:
  "Some k \<in> set (map (\<lambda>l. snd (patch_line patch l)) ls) \<longleftrightarrow>
     map_of (rev (entries ls)) k \<noteq> None \<and> map_of patch k \<noteq> None"
proof (induction ls rule: rev_induct)
  case (snoc l ls)
  then show ?case by (auto simp: entries_def patch_line_read(1) split: option.splits)
qed (simp add: entries_def)

lemma entries_good:
  "\<forall>(k, v)\<in>set xs. good_key k \<and> good_val v \<Longrightarrow> entries (map (\<lambda>(k, v). k @ ''='' @ v) xs) = xs"
  by (induction xs) (auto simp: entries_def read_line_good)

lemma map_of_filter_keys: "map_of (filter (\<lambda>(k, v). P k) m) k = (if P k then map_of m k else None)"
  by (induction m) auto

lemma distinct_keys_filter: "distinct (keys_of m) \<Longrightarrow> distinct (keys_of (filter P m))"
  by (simp add: keys_of_def distinct_map_filter)

lemma patched_entries:
  assumes "good_patch patch"
  shows "entries (patched_lines patch ls) = map (overridden patch) (entries ls)
    @ filter (\<lambda>(k, v). Some k \<notin> set (map (\<lambda>l. snd (patch_line patch l)) ls)) patch"
proof -
  let ?new = "filter (\<lambda>(k, v). Some k \<notin> set (map (\<lambda>l. snd (patch_line patch l)) ls)) patch"
  have "\<forall>(k, v)\<in>set ?new. good_key k \<and> good_val v" using assms by (auto simp: good_patch_def)
  from entries_good [OF this] show ?thesis
    using entries_patched [OF assms, of ls]
    by (simp add: patched_lines_def appended_lines_def Let_def comp_def image_image)
qed

lemma entries_patched_lines:
  assumes "good_patch patch"
  shows "map_of (rev (entries (patched_lines patch ls))) = map_of (rev (entries ls)) ++ map_of patch"
proof
  fix k
  let ?new = "filter (\<lambda>(k, v). Some k \<notin> set (map (\<lambda>l. snd (patch_line patch l)) ls)) patch"
  have d: "distinct (keys_of patch)" using assms by (auto simp: good_patch_def)
  have n: "map_of (rev ?new) k = (if Some k \<notin> set (map (\<lambda>l. snd (patch_line patch l)) ls) then map_of patch k else None)"
    using map_of_filter_keys [of _ patch k] map_of_rev_distinct [OF distinct_keys_filter [OF d, unfolded keys_of_def]] by simp
  note e = patched_entries [OF assms, of ls]
  show "map_of (rev (entries (patched_lines patch ls))) k = (map_of (rev (entries ls)) ++ map_of patch) k"
    using n written_keys [of k patch ls]
    by (auto simp: e map_add_def map_of_overridden comp_def split: option.splits)
qed

lemma patched_line_cases:
  assumes "l' \<in> set (patched_lines patch ls)"
  obtains (kept) "l' \<in> set ls"
  | (written) k c v where "l' = k @ c # v" and "map_of patch k = Some v" and "c = CHR ''='' \<or> c = CHR '':''"
  | (appended) k v where "l' = k @ ''='' @ v" and "(k, v) \<in> set patch"
proof -
  consider l where "l \<in> set ls" "l' = fst (patch_line patch l)"
    | k v where "(k, v) \<in> set patch" "l' = k @ ''='' @ v"
    using assms by (auto simp: patched_lines_def appended_lines_def Let_def)
  then show thesis
  proof cases
    case (1 l)
    show thesis
    proof (cases "read_line l")
      case None
      then show thesis using 1 kept by (simp add: patch_line_read(2))
    next
      case (Some kv)
      then have r: "read_line l = Some (fst kv, snd kv)" by simp
      show thesis
      proof (cases "map_of patch (fst kv)")
        case None
        then show thesis using 1 kept patch_line_read(3) [OF r] by simp
      next
        case v': (Some v')
        obtain c where "c = CHR ''='' \<or> c = CHR '':''" "patch_line patch l = (fst kv @ c # v', Some (fst kv))"
          using patch_line_replaced [OF r v'] .
        then show thesis using 1 v' written by simp
      qed
    qed
  next
    case (2 k v)
    then show thesis using appended by blast
  qed
qed

lemma patched_lines_fine:
  assumes "good_patch patch" and "l' \<in> set (patched_lines patch ls)"
    and "\<forall>l\<in>set ls. nl \<notin> set l \<and> cr \<notin> set l \<and> length l < default_scan_max"
  shows "nl \<notin> set l' \<and> cr \<notin> set l' \<and> length l' < default_scan_max"
  using assms(2)
proof (cases rule: patched_line_cases)
  case kept
  then show ?thesis using assms(3) by blast
next
  case (written k c v)
  then show ?thesis
    using good_patch_entry [OF assms(1) written(2)] by (auto simp: good_key_def good_val_def)
next
  case (appended k v)
  then have "good_key k" "good_val v" "length k + 1 + length v < default_scan_max"
    using assms(1) by (auto simp: good_patch_def)
  then show ?thesis using appended by (auto simp: good_key_def good_val_def)
qed

lemma scan_lines_patched:
  assumes "good_patch patch" and "patch \<noteq> []"
    and "\<forall>l\<in>set ls. nl \<notin> set l \<and> cr \<notin> set l \<and> length l < default_scan_max"
  shows "scan_lines default_scan_max (Join (patched_lines patch ls) [nl] @ [nl]) = Lines (patched_lines patch ls)"
proof -
  have ne: "patched_lines patch ls \<noteq> []"
  proof
    assume "patched_lines patch ls = []"
    then have "ls = []" "appended_lines patch [] = []"
      by (auto simp: patched_lines_def Let_def)
    then show False using assms(2) by (simp add: appended_lines_def split_beta)
  qed
  note fine = patched_lines_fine [OF assms(1) _ assms(3)]
  then have "raw_lines (Join (patched_lines patch ls) [nl] @ [nl]) = patched_lines patch ls"
    using ne by (intro raw_lines_Join_nl) auto
  moreover have "map drop_cr (patched_lines patch ls) = patched_lines patch ls"
    using fine by (intro map_idI drop_cr_id) blast
  ultimately show ?thesis
    using fine scan_lines_Lines [of "Join (patched_lines patch ls) [nl] @ [nl]" default_scan_max]
    by (simp del: raw_lines.simps)
qed

lemma patch_body_lines:
  assumes "good_patch patch" and "patch \<noteq> []"
    and "scan_lines default_scan_max body = Lines ls" and "\<forall>l\<in>set ls. cr \<notin> set l"
  shows "\<exists>body'. patch_body patch body = Some body' \<and> scan_lines default_scan_max body' = Lines (patched_lines patch ls)"
proof -
  note ls = scan_lines_LinesD [OF assms(3)]
  have len: "length l < default_scan_max" if l: "l \<in> set ls" for l
  proof -
    obtain r where r: "r \<in> set (raw_lines body)" "l = drop_cr r" using l ls(1) by auto
    then have "length l \<le> length r" by (simp add: drop_cr_def)
    then show ?thesis using ls(2) [OF r(1)] by simp
  qed
  have fine: "\<forall>l\<in>set ls. nl \<notin> set l \<and> cr \<notin> set l \<and> length l < default_scan_max"
    using assms(4) scan_lines_no_nl [OF assms(3)] len by blast
  have "scan_lines big_scan_max body = Lines ls"
    unfolding ls(1) using ls(2) by (intro scan_lines_Lines ballI) fastforce
  then show ?thesis
    using scan_lines_patched [OF assms(1,2) fine] by (simp add: patch_body_def)
qed

lemma patched_properties_read_back':
  assumes "good_patch patch" and "patch \<noteq> []"
    and "scan_lines default_scan_max body = Lines ls" and "\<forall>l\<in>set ls. cr \<notin> set l"
    and "parse_properties body = Some m"
  shows "\<exists>body'. patch_body patch body = Some body' \<and> parse_properties body' = Some (m ++ map_of patch)"
proof -
  have "m = map_of (rev (entries ls))"
    using assms(3,5) by (simp add: parse_properties_def fold_add_line)
  then show ?thesis
    using patch_body_lines [OF assms(1-4)] entries_patched_lines [OF assms(1)]
    by (auto simp: parse_properties_def fold_add_line)
qed

text \<open>
  C11: after a patch with well-formed keys and values, the file reads as the old properties
  overridden by the patch: every patched key has its new value and every other key keeps its
  own.  The lines of the old file hold no carriage return other than the one of a CRLF ending.
\<close>

theorem patched_properties_read_back:
  assumes "good_patch patch" and "patch \<noteq> []"
    and "scan_lines default_scan_max body = Lines ls" and "\<forall>l\<in>set ls. cr \<notin> set l"
    and "parse_properties body = Some m"
  shows "\<exists>body'. patch_body patch body = Some body' \<and> parse_properties body' = Some (m ++ map_of patch)"
  by (rule patched_properties_read_back' [OF assms])

lemma demo_good_patch: "good_patch [(''b'', ''9''), (''c'', ''x'')]"
  by (simp add: good_patch_def good_key_def good_val_def keys_of_def)

theorem patched_properties_read_back_witness:
  "\<exists>body'. patch_body [(''b'', ''9''), (''c'', ''x'')] (''#'' @ [nl] @ ''a=1'' @ [nl] @ ''b : 2'' @ [nl]) = Some body'
     \<and> parse_properties body' = Some ([''a'' \<mapsto> ''1'', ''b'' \<mapsto> ''2''] ++ map_of [(''b'', ''9''), (''c'', ''x'')])"
proof (rule patched_properties_read_back [where ls = "[''#'', ''a=1'', ''b : 2'']"])
  show sc: "scan_lines default_scan_max (''#'' @ [nl] @ ''a=1'' @ [nl] @ ''b : 2'' @ [nl]) = Lines [''#'', ''a=1'', ''b : 2'']"
  proof -
    have r: "raw_lines (''#'' @ [nl] @ ''a=1'' @ [nl] @ ''b : 2'' @ [nl]) = [''#'', ''a=1'', ''b : 2'']"
      by code_simp
    have "scan_lines default_scan_max (''#'' @ [nl] @ ''a=1'' @ [nl] @ ''b : 2'' @ [nl]) =
        Lines (map drop_cr [''#'', ''a=1'', ''b : 2''])"
      unfolding r [symmetric] by (rule scan_lines_Lines) (simp only: r, simp)
    then show ?thesis by (simp only: list.map drop_cr_id) (simp add: drop_cr_def)
  qed
  have r: "read_line ''#'' = None" "read_line ''a=1'' = Some (''a'', ''1'')" "read_line ''b : 2'' = Some (''b'', ''2'')"
    by code_simp+
  show "parse_properties (''#'' @ [nl] @ ''a=1'' @ [nl] @ ''b : 2'' @ [nl]) = Some [''a'' \<mapsto> ''1'', ''b'' \<mapsto> ''2'']"
    unfolding parse_properties_def sc scan_result.case by (simp add: add_line_def r)
qed (simp_all add: demo_good_patch)

text \<open>The lines of a file that a patch has no business with.\<close>

definition foreign :: "(string \<times> string) list \<Rightarrow> string \<Rightarrow> bool" where
  "foreign patch l \<longleftrightarrow> (case read_line l of None \<Rightarrow> True | Some (k, _) \<Rightarrow> map_of patch k = None)"

lemma foreign_patch_line:
  "good_patch patch \<Longrightarrow> foreign patch (fst (patch_line patch l)) = foreign patch l"
  "foreign patch l \<Longrightarrow> fst (patch_line patch l) = l"
  by (auto simp: foreign_def read_patch_line overridden_def patch_line_read split: option.splits)

lemma foreign_lines_kept:
  assumes "good_patch patch"
  shows "filter (foreign patch) (patched_lines patch ls) = filter (foreign patch) ls"
proof -
  have "filter (foreign patch) (map (\<lambda>l. fst (patch_line patch l)) ls) = filter (foreign patch) ls"
    by (induction ls) (auto simp: foreign_patch_line(1) [OF assms] foreign_patch_line(2))
  moreover have "\<not> foreign patch l'" if mem: "l' \<in> set (appended_lines patch w)" for l' w
  proof -
    obtain k v where kv: "(k, v) \<in> set patch" "l' = k @ ''='' @ v"
      using mem unfolding appended_lines_def by auto
    then have "good_key k" "good_val v" "map_of patch k = Some v"
      using assms map_of_is_SomeI [of patch k v] by (auto simp: good_patch_def keys_of_def)
    then show ?thesis using kv(2) by (simp add: foreign_def read_line_good)
  qed
  ultimately show ?thesis
    by (simp add: patched_lines_def Let_def comp_def filter_False)
qed



end
