(* ===== verification/Discovery.thy ===== *)
theory Discovery
  imports Lock ServerId ServerProps "HOL-Library.Product_Lexorder"
begin

text \<open>
  Discovery of servers, \<open>internal/discovery/discovery.go\<close> and \<open>store.go\<close>.  The file system is a
  record of what the calls return: listings, what exists, and the three kinds of files that are
  read (identity, properties, owner), each with the I/O error its read may raise.
\<close>

record host_fs =
  fs_ReadDir :: "string \<Rightarrow> go_error + dir_entry list"
  fs_Stat :: "string \<Rightarrow> bool"
  fs_IsDir :: "string \<Rightarrow> bool"
  fs_configs :: "config dir"
  fs_config_io :: "string \<Rightarrow> go_error option"
  fs_props :: "string dir"
  fs_owners :: "owner dir"
  fs_owner_io :: "string \<Rightarrow> go_error option"

record ownership =
  ow_State :: lock_state
  ow_Owner :: "owner option"      \<comment> \<open>the optional fields, copied from the owner record\<close>

record server =
  srv_ID :: string
  srv_Name :: string
  srv_Type :: string
  srv_Path :: string
  srv_Root :: string
  srv_LevelName :: string
  srv_Ownership :: ownership

record catalog =
  cat_ScannedAt :: time
  cat_Servers :: "server list"

definition FindByID :: "string \<Rightarrow> catalog \<Rightarrow> server option" where
  "FindByID i c = List.find (\<lambda>s. srv_ID s = i) (cat_Servers c)"

definition level_name :: "host_fs \<Rightarrow> string \<Rightarrow> string" where
  "level_name fs serverDir =
     (case ReadProperties (PropertiesPath serverDir) (fs_props fs) of
        Inl _ \<Rightarrow> []
      | Inr props \<Rightarrow> (case props ''level-name'' of None \<Rightarrow> [] | Some l \<Rightarrow> l))"

definition scanOne :: "host_fs \<Rightarrow> time \<Rightarrow> string \<Rightarrow> string \<Rightarrow> string \<Rightarrow> duration \<Rightarrow> id_error + server" where
  "scanOne fs now serverDir root inst thr =
     (case read_config (fs_config_io fs serverDir) serverDir (fs_configs fs) of
        Inl e \<Rightarrow> Inl e
      | Inr cfg \<Rightarrow>
          (let flavor = (case DetectFlavor (fs_ReadDir fs serverDir) (\<lambda>rel. fs_IsDir fs (path_Join [serverDir, rel])) of
                           Inl _ \<Rightarrow> cfg_Type cfg
                         | Inr fl \<Rightarrow> if fl = FlavorUnknown then cfg_Type cfg else fl);
               own = (case Read (fs_owner_io fs serverDir) serverDir (fs_owners fs) of Inl _ \<Rightarrow> None | Inr o' \<Rightarrow> o');
               state = Classify now own inst thr
           in Inr \<lparr>srv_ID = cfg_ID cfg, srv_Name = cfg_Name cfg, srv_Type = flavor, srv_Path = serverDir,
                   srv_Root = root, srv_LevelName = level_name fs serverDir,
                   srv_Ownership = \<lparr>ow_State = state,
                      ow_Owner = (if own \<noteq> None \<and> state \<noteq> StateFree then own else None)\<rparr>\<rparr>))"

text \<open>One entry of a root; the servers found so far carry the identifiers already seen.\<close>

definition scan_entry ::
    "host_fs \<Rightarrow> time \<Rightarrow> string \<Rightarrow> string \<Rightarrow> duration \<Rightarrow> dir_entry \<Rightarrow> server list \<Rightarrow> server list" where
  "scan_entry fs now root inst thr e acc =
     (if \<not> de_IsDir e then acc
      else let serverDir = path_Join [root, de_Name e]
           in if \<not> IsLikelyServerDir (\<lambda>rel. fs_Stat fs (path_Join [serverDir, rel])) then acc
              else case scanOne fs now serverDir root inst thr of
                     Inl _ \<Rightarrow> acc
                   | Inr s \<Rightarrow> if srv_ID s \<in> srv_ID ` set acc then acc else acc @ [s])"

definition scan_root ::
    "host_fs \<Rightarrow> time \<Rightarrow> string \<Rightarrow> duration \<Rightarrow> string \<Rightarrow> server list \<Rightarrow> server list" where
  "scan_root fs now inst thr root acc =
     (case fs_ReadDir fs root of
        Inl _ \<Rightarrow> acc
      | Inr es \<Rightarrow> fold (scan_entry fs now root inst thr) es acc)"

abbreviation by_name_path :: "server \<Rightarrow> string \<times> string" where
  "by_name_path s \<equiv> (srv_Name s, srv_Path s)"

definition Scan :: "host_fs \<Rightarrow> time \<Rightarrow> string list \<Rightarrow> string \<Rightarrow> duration \<Rightarrow> catalog" where
  "Scan fs now roots inst thr =
     \<lparr>cat_ScannedAt = now,
      cat_Servers = sort_key by_name_path (fold (scan_root fs now inst thr) roots [])\<rparr>"

subsection \<open>The store\<close>

record store =
  st_roots :: "string list"
  st_instance :: string
  st_thr :: duration
  st_cur :: catalog

definition NewStore :: "string list \<Rightarrow> string \<Rightarrow> store" where
  "NewStore roots inst =
     \<lparr>st_roots = roots, st_instance = inst, st_thr = DefaultStaleAfter,
      st_cur = \<lparr>cat_ScannedAt = 0, cat_Servers = []\<rparr>\<rparr>"

definition store_Refresh :: "host_fs \<Rightarrow> time \<Rightarrow> store \<Rightarrow> catalog \<times> store" where
  "store_Refresh fs now s =
     (let cat = Scan fs now (st_roots s) (st_instance s) (st_thr s) in (cat, s\<lparr>st_cur := cat\<rparr>))"

subsection \<open>What a scan finds\<close>

text \<open>The candidates in scan order: every server a root's listing leads to, duplicates included.\<close>

definition entry_server ::
    "host_fs \<Rightarrow> time \<Rightarrow> string \<Rightarrow> string \<Rightarrow> duration \<Rightarrow> dir_entry \<Rightarrow> server option" where
  "entry_server fs now root inst thr e =
     (let serverDir = path_Join [root, de_Name e]
      in if de_IsDir e \<and> IsLikelyServerDir (\<lambda>rel. fs_Stat fs (path_Join [serverDir, rel]))
         then (case scanOne fs now serverDir root inst thr of Inl _ \<Rightarrow> None | Inr s \<Rightarrow> Some s)
         else None)"

definition candidates :: "host_fs \<Rightarrow> time \<Rightarrow> string list \<Rightarrow> string \<Rightarrow> duration \<Rightarrow> server list" where
  "candidates fs now roots inst thr =
     concat (map (\<lambda>root. case fs_ReadDir fs root of
        Inl _ \<Rightarrow> []
      | Inr es \<Rightarrow> List.map_filter (entry_server fs now root inst thr) es) roots)"

definition add_server :: "server \<Rightarrow> server list \<Rightarrow> server list" where
  "add_server s acc = (if srv_ID s \<in> srv_ID ` set acc then acc else acc @ [s])"

lemma scan_entry_add:
  "scan_entry fs now root inst thr e acc =
     (case entry_server fs now root inst thr e of None \<Rightarrow> acc | Some s \<Rightarrow> add_server s acc)"
  by (simp add: scan_entry_def entry_server_def add_server_def Let_def split: sum.splits)

lemma fold_scan_entry:
  "fold (scan_entry fs now root inst thr) es acc =
     fold add_server (List.map_filter (entry_server fs now root inst thr) es) acc"
  by (induction es arbitrary: acc) (auto simp: scan_entry_add map_filter_simps split: option.splits)

lemma fold_scan_root:
  "fold (scan_root fs now inst thr) roots acc = fold add_server (candidates fs now roots inst thr) acc"
proof (induction roots arbitrary: acc)
  case (Cons r roots)
  then show ?case
    by (simp add: candidates_def scan_root_def fold_scan_entry split: sum.splits)
qed (simp add: candidates_def)

text \<open>The first candidate of each identifier.\<close>

lemma add_servers_distinct:
  "distinct (map srv_ID acc) \<Longrightarrow> distinct (map srv_ID (fold add_server cs acc))"
  by (induction cs arbitrary: acc) (auto simp: add_server_def)

lemma find_append: "List.find P (xs @ ys) = (case List.find P xs of None \<Rightarrow> List.find P ys | Some x \<Rightarrow> Some x)"
  by (induction xs) auto

lemma find_None_id: "List.find (\<lambda>s. srv_ID s = i) xs = None \<longleftrightarrow> i \<notin> srv_ID ` set xs"
  by (auto simp: find_None_iff)

lemma add_server_find:
  "List.find (\<lambda>s. srv_ID s = i) (add_server c acc) =
     (case List.find (\<lambda>s. srv_ID s = i) acc of
        Some s \<Rightarrow> Some s | None \<Rightarrow> if srv_ID c = i then Some c else None)"
proof (cases "srv_ID c \<in> srv_ID ` set acc")
  case True
  then have "srv_ID c = i \<Longrightarrow> List.find (\<lambda>s. srv_ID s = i) acc \<noteq> None" by (simp add: find_None_id)
  then show ?thesis using True by (auto simp: add_server_def split: option.splits)
next
  case False
  then show ?thesis by (simp add: add_server_def find_append split: option.splits)
qed

lemma add_servers_find:
  "List.find (\<lambda>s. srv_ID s = i) (fold add_server cs acc) =
     (case List.find (\<lambda>s. srv_ID s = i) acc of
        Some s \<Rightarrow> Some s | None \<Rightarrow> List.find (\<lambda>s. srv_ID s = i) cs)"
proof (induction cs arbitrary: acc)
  case (Cons c cs)
  show ?case by (simp add: Cons.IH add_server_find split: option.splits)
qed (simp split: option.splits)

lemma find_distinct_set:
  assumes "distinct (map srv_ID xs)"
  shows "List.find (\<lambda>s. srv_ID s = i) xs = Some s \<longleftrightarrow> s \<in> set xs \<and> srv_ID s = i"
  using assms by (induction xs) (auto simp: image_iff)

text \<open>
  C22: a scan lists each server once.  Identifiers in the catalog are distinct, the list is
  sorted by name and then path, and looking an identifier up gives the first directory in scan
  order (roots in configuration order, then names) that has it; in particular a server is found
  exactly when some readable root lists an initialized server directory with that identifier.
\<close>

theorem Scan_spec:
  "distinct (map srv_ID (cat_Servers (Scan fs now roots inst thr)))
   \<and> sorted (map by_name_path (cat_Servers (Scan fs now roots inst thr)))
   \<and> FindByID i (Scan fs now roots inst thr) = List.find (\<lambda>s. srv_ID s = i) (candidates fs now roots inst thr)"
proof -
  let ?raw = "fold add_server (candidates fs now roots inst thr) []"
  have s: "cat_Servers (Scan fs now roots inst thr) = sort_key by_name_path ?raw"
    by (simp add: Scan_def fold_scan_root)
  have d: "distinct (map srv_ID ?raw)" by (rule add_servers_distinct) simp
  then have ds: "distinct (map srv_ID (sort_key by_name_path ?raw))"
    by (simp add: distinct_map)
  have "List.find (\<lambda>s. srv_ID s = i) (sort_key by_name_path ?raw) = List.find (\<lambda>s. srv_ID s = i) ?raw"
    using find_distinct_set [OF ds, of i] find_distinct_set [OF d, of i]
    by (metis (no_types, lifting) not_Some_eq set_sort)
  then show ?thesis
    using ds add_servers_find [of i "candidates fs now roots inst thr" "[]"] by (simp add: s FindByID_def)
qed

text \<open>
  A scan reports exactly the ownership a start would meet.  For a directory whose owner file
  can be read, its state is \<open>free\<close> when there is no owner record; otherwise a start by this
  instance without force is refused with \<open>ErrAlreadyHeld\<close> for \<open>stale\<close> and for
  \<open>owned-other\<close>, and for \<open>owned-self\<close> exactly when another slot holds it.
\<close>

theorem scanOne_agrees_with_TryAcquire:
  assumes "scanOne fs now dir root inst DefaultStaleAfter = Inr s" and "fs_owner_io fs dir = None"
    and "fs_owners fs (Path dir) = None \<or> (\<exists>c. fs_owners fs (Path dir) = Some (Holds c))"
    and "rq_dir r = dir" and "rq_instance r = inst" and "\<not> rq_force r"
  shows "(\<exists>h. fst (TryAcquire now None NoFault tmp r (fs_owners fs)) = Inr h) \<longleftrightarrow>
     ow_State (srv_Ownership s) = StateFree \<or>
     (ow_State (srv_Ownership s) = StateOwnedSelf \<and>
        own_Slot (the (ow_Owner (srv_Ownership s))) = rq_slot r)"
proof -
  define own where "own = (case fs_owners fs (Path dir) of Some (Holds c) \<Rightarrow> Some c | _ \<Rightarrow> None)"
  have rd: "Read None dir (fs_owners fs) = Inr own"
    using assms(3) by (auto simp: Read_def own_def)
  have st: "ow_State (srv_Ownership s) = Classify now own inst DefaultStaleAfter"
      "ow_State (srv_Ownership s) \<noteq> StateFree \<Longrightarrow> ow_Owner (srv_Ownership s) = own"
    using assms(1,2) rd by (auto simp: scanOne_def Let_def Classify_cases split: sum.splits)
  have "(\<exists>h. fst (TryAcquire now None NoFault tmp r (fs_owners fs)) = Inr h) \<longleftrightarrow> acquire_refusal now r own = None"
    using rd assms(4) by (auto simp: TryAcquire_def writeOwnerAtomic_def atomic_write_def split: option.splits)
  also have "\<dots> \<longleftrightarrow> own = None \<or> (\<exists>c. own = Some c \<and> Classify now own inst DefaultStaleAfter = StateOwnedSelf \<and> own_Slot c = rq_slot r)"
    using assms(5,6)
    by (auto simp: acquire_refusal_def Classify_cases split: option.splits lock_state.splits)
  finally show ?thesis using st Classify_cases(1) [of now own inst DefaultStaleAfter] by auto
qed

definition demo_fs :: host_fs where
  "demo_fs = \<lparr>fs_ReadDir = (\<lambda>_. Inr []), fs_Stat = (\<lambda>_. True), fs_IsDir = (\<lambda>_. False),
     fs_configs = (\<lambda>_. Some (Holds \<lparr>cfg_ID = ''id'', cfg_Name = ''n'', cfg_Type = FlavorPaper, cfg_JavaArgs = [],
        cfg_Features = None, cfg_DiscordToken = [], cfg_DiscordChannels = []\<rparr>)),
     fs_config_io = (\<lambda>_. None), fs_props = Map.empty, fs_owners = Map.empty, fs_owner_io = (\<lambda>_. None)\<rparr>"

theorem scanOne_agrees_with_TryAcquire_witness:
  "\<exists>h. fst (TryAcquire 5 None NoFault ''/tmp1'' (demo_req ''i'' ''s'') (fs_owners demo_fs)) = Inr h"
proof -
  obtain s where s: "scanOne demo_fs 5 ''/srv/a'' ''/srv'' ''i'' DefaultStaleAfter = Inr s"
      "ow_State (srv_Ownership s) = StateFree"
    by (simp add: scanOne_def demo_fs_def read_config_def DetectFlavor_def Let_def level_name_def ReadProperties_def
        Read_def Classify_def)
  have "fs_owner_io demo_fs ''/srv/a'' = None" "fs_owners demo_fs (Path ''/srv/a'') = None"
    by (simp_all add: demo_fs_def)
  then show ?thesis
    using scanOne_agrees_with_TryAcquire [OF s(1), of "demo_req ''i'' ''s''" "''/tmp1''"] s(2)
    by (simp add: demo_req_def)
qed

end
