(* ===== verification/Config.thy ===== *)
theory Config
  imports GoStrings
begin

text \<open>
  The daemon's configuration, \<open>internal/config\<close>: the schema (\<open>types.go\<close>), environment
  interpolation and defaults (\<open>load.go\<close>) and validation (\<open>validate.go\<close>).  The YAML decoder,
  \<open>net.SplitHostPort\<close> and \<open>url.Parse\<close> are parameters.
\<close>

record token =
  tok_Name :: string
  tok_Hash :: string
  tok_Scopes :: "string list"
  tok_RateLimit :: "int option"    \<comment> \<open>\<open>PerMinute\<close>; zero means unlimited\<close>

record slot_cfg =
  sc_Name :: string
  sc_Port :: int
  sc_PublicAddress :: string
  sc_AutoMount :: string
  sc_Types :: "string list"
  sc_MaxMemoryMB :: int

record peer_cfg =
  pc_Name :: string
  pc_URL :: string
  pc_Token :: string

record tls_cfg =
  tls_CertFile :: string
  tls_KeyFile :: string
  tls_MinVersion :: string

record daemon_cfg =
  dc_InstanceName :: string
  dc_DataDir :: string
  dc_Bind :: string
  dc_Tokens :: "token list"
  dc_CORSMaxAge :: duration
  dc_TLS :: "tls_cfg option"
  dc_Roots :: "string list"
  dc_ScanInterval :: duration
  dc_Slots :: "slot_cfg list"
  dc_Peers :: "peer_cfg list"
  dc_PingInterval :: duration
  dc_PeerTimeout :: duration
  dc_TempSensor :: "string option"
  dc_LogLevel :: string
  dc_LogFormat :: string
  dc_LogOutput :: string
  dc_Retention :: duration
  dc_MetricsPath :: string

subsection \<open>Environment interpolation\<close>

definition env_start :: "char \<Rightarrow> bool" where
  "env_start c \<longleftrightarrow> (65 \<le> (of_char c :: nat) \<and> (of_char c :: nat) \<le> 90) \<or> c = CHR ''_''"

definition env_char :: "char \<Rightarrow> bool" where
  "env_char c \<longleftrightarrow> env_start c \<or> is_digit c"

text \<open>
  A match of \<open>\$\{([A-Z_][A-Z0-9_]*)(?::-([^}]*))?\}\<close> at the head of the text: the variable, the
  default and the length of the match.
\<close>

definition match_env :: "string \<Rightarrow> (string \<times> string \<times> nat) option" where
  "match_env s =
     (if HasPrefix s ''${'' then
        (let body = drop 2 s; key = takeWhile env_char body; rest = dropWhile env_char body
         in if key = [] \<or> \<not> env_start (key ! 0) then None
            else if HasPrefix rest ''}'' then Some (key, [], 2 + length key + 1)
            else if HasPrefix rest '':-'' then
              (let def = takeWhile (\<lambda>c. c \<noteq> CHR ''}'') (drop 2 rest)
               in if length def < length (drop 2 rest)
                  then Some (key, def, 2 + length key + 2 + length def + 1) else None)
            else None)
      else None)"

function expandEnv :: "(string \<rightharpoonup> string) \<Rightarrow> string \<Rightarrow> string" where
  "expandEnv env [] = []"
| "expandEnv env (c # s) =
     (case match_env (c # s) of
        None \<Rightarrow> c # expandEnv env s
      | Some (key, def, n) \<Rightarrow>
          (case env key of Some v \<Rightarrow> v | None \<Rightarrow> def) @ expandEnv env (drop (n - 1) s))"
  by pat_completeness auto
termination by (relation "measure (length \<circ> snd)") auto

subsection \<open>Defaults\<close>

definition default_str :: "string \<Rightarrow> string \<Rightarrow> string" where
  "default_str d s = (if s = [] then d else s)"

definition default_dur :: "duration \<Rightarrow> duration \<Rightarrow> duration" where
  "default_dur d x = (if x = 0 then d else x)"

definition applyDefaults :: "daemon_cfg \<Rightarrow> daemon_cfg" where
  "applyDefaults c = c\<lparr>
     dc_DataDir := default_str ''/var/lib/mcsm'' (dc_DataDir c),
     dc_Bind := default_str ''0.0.0.0:8124'' (dc_Bind c),
     dc_ScanInterval := default_dur (60 * second) (dc_ScanInterval c),
     dc_PingInterval := default_dur (30 * second) (dc_PingInterval c),
     dc_PeerTimeout := default_dur (5 * second) (dc_PeerTimeout c),
     dc_LogLevel := default_str ''info'' (dc_LogLevel c),
     dc_LogFormat := default_str ''json'' (dc_LogFormat c),
     dc_LogOutput := default_str ''stdout'' (dc_LogOutput c),
     dc_Retention := default_dur (30 * 24 * 3600 * second) (dc_Retention c),
     dc_MetricsPath := default_str ''/metrics'' (dc_MetricsPath c),
     dc_CORSMaxAge := default_dur (600 * second) (dc_CORSMaxAge c),
     dc_Tokens := map (\<lambda>t. if tok_RateLimit t = None then t\<lparr>tok_RateLimit := Some 600\<rparr> else t) (dc_Tokens c),
     dc_TempSensor := map_option (default_str ''/sys/class/thermal/thermal_zone0/temp'') (dc_TempSensor c)\<rparr>"

subsection \<open>Validation\<close>

datatype cfg_error =
    BadInstanceName | BadBind | TLSIncomplete | TLSVersion | NoTokens
  | TokenNameMissing nat | TokenDuplicate nat | TokenHash nat | TokenNoScope nat
  | NoRoots | NoSlots
  | SlotName nat | SlotDuplicate nat | SlotPort nat | SlotPortTaken nat string
  | PeerName nat | PeerDuplicate nat | PeerSelf nat | PeerURL nat | PeerToken nat
  | LogLevelBad | LogFormatBad

text \<open>\<open>^[a-z0-9-]{1,n}$\<close>\<close>

definition name_re :: "nat \<Rightarrow> string \<Rightarrow> bool" where
  "name_re n s \<longleftrightarrow> s \<noteq> [] \<and> length s \<le> n \<and>
     list_all (\<lambda>c. (97 \<le> (of_char c :: nat) \<and> (of_char c :: nat) \<le> 122) \<or> is_digit c \<or> c = CHR ''-'') s"

definition err_if :: "bool \<Rightarrow> cfg_error \<Rightarrow> cfg_error list" where
  "err_if b e = (if b then [e] else [])"

fun check_tokens :: "nat \<Rightarrow> string list \<Rightarrow> token list \<Rightarrow> cfg_error list" where
  "check_tokens i seen [] = []"
| "check_tokens i seen (t # ts) =
     err_if (tok_Name t = []) (TokenNameMissing i)
     @ err_if (tok_Name t \<in> set seen) (TokenDuplicate i)
     @ err_if (\<not> HasPrefix (tok_Hash t) ''$argon2id$'') (TokenHash i)
     @ err_if (tok_Scopes t = []) (TokenNoScope i)
     @ check_tokens (i + 1) (tok_Name t # seen) ts"

text \<open>The names and the ports seen so far; a port maps to the last slot that had it.\<close>

fun check_slots :: "nat \<Rightarrow> string list \<Rightarrow> (int \<times> string) list \<Rightarrow> slot_cfg list \<Rightarrow> cfg_error list" where
  "check_slots i seen ports [] = []"
| "check_slots i seen ports (s # ss) =
     err_if (\<not> name_re 32 (sc_Name s)) (SlotName i)
     @ err_if (sc_Name s \<in> set seen) (SlotDuplicate i)
     @ err_if (sc_Port s < 1 \<or> sc_Port s > 65535) (SlotPort i)
     @ (case map_of ports (sc_Port s) of None \<Rightarrow> [] | Some other \<Rightarrow> [SlotPortTaken i other])
     @ check_slots (i + 1) (sc_Name s # seen) ((sc_Port s, sc_Name s) # ports) ss"

fun check_peers :: "(string \<Rightarrow> bool) \<Rightarrow> string \<Rightarrow> nat \<Rightarrow> string list \<Rightarrow> peer_cfg list \<Rightarrow> cfg_error list" where
  "check_peers urlOK self i seen [] = []"
| "check_peers urlOK self i seen (p # ps) =
     err_if (\<not> name_re 64 (pc_Name p)) (PeerName i)
     @ err_if (pc_Name p \<in> set seen) (PeerDuplicate i)
     @ err_if (pc_Name p = self) (PeerSelf i)
     @ err_if (\<not> urlOK (pc_URL p)) (PeerURL i)
     @ err_if (pc_Token p = []) (PeerToken i)
     @ check_peers urlOK self (i + 1) (pc_Name p # seen) ps"

definition Validate :: "(string \<Rightarrow> bool) \<Rightarrow> (string \<Rightarrow> bool) \<Rightarrow> daemon_cfg \<Rightarrow> cfg_error list" where
  "Validate hostPortOK urlOK c =
     err_if (\<not> name_re 64 (dc_InstanceName c)) BadInstanceName
     @ err_if (\<not> hostPortOK (dc_Bind c)) BadBind
     @ (case dc_TLS c of
          None \<Rightarrow> []
        | Some t \<Rightarrow> err_if (tls_CertFile t = [] \<or> tls_KeyFile t = []) TLSIncomplete
                   @ err_if (tls_MinVersion t \<notin> {[], ''1.2'', ''1.3''}) TLSVersion)
     @ err_if (dc_Tokens c = []) NoTokens
     @ check_tokens 0 [] (dc_Tokens c)
     @ err_if (dc_Roots c = []) NoRoots
     @ err_if (dc_Slots c = []) NoSlots
     @ check_slots 0 [] [] (dc_Slots c)
     @ check_peers urlOK (dc_InstanceName c) 0 [] (dc_Peers c)
     @ err_if (dc_LogLevel c \<notin> {''debug'', ''info'', ''warn'', ''error''}) LogLevelBad
     @ err_if (dc_LogFormat c \<notin> {''json'', ''text''}) LogFormatBad"

datatype load_error = AbsFailed | ReadCfgFailed | YamlFailed | Invalid "cfg_error list"

definition Load ::
    "(string \<Rightarrow> daemon_cfg option) \<Rightarrow> (string \<Rightarrow> bool) \<Rightarrow> (string \<Rightarrow> bool) \<Rightarrow> (string \<rightharpoonup> string) \<Rightarrow>
     string option \<Rightarrow> string option \<Rightarrow> load_error + daemon_cfg" where
  "Load unmarshal hostPortOK urlOK env absPath raw =
     (case absPath of None \<Rightarrow> Inl AbsFailed
      | Some _ \<Rightarrow>
     (case raw of None \<Rightarrow> Inl ReadCfgFailed
      | Some body \<Rightarrow>
     (case unmarshal (expandEnv env body) of None \<Rightarrow> Inl YamlFailed
      | Some cfg \<Rightarrow>
          (let cfg = applyDefaults cfg; errs = Validate hostPortOK urlOK cfg
           in if errs = [] then Inr cfg else Inl (Invalid errs)))))"

subsection \<open>What a loaded configuration guarantees\<close>

lemma err_if_Nil [simp]: "err_if b e = [] \<longleftrightarrow> \<not> b"
  by (simp add: err_if_def)

lemma check_tokens_Nil:
  "check_tokens i seen ts = [] \<longleftrightarrow>
     distinct (map tok_Name ts) \<and> set (map tok_Name ts) \<inter> set seen = {} \<and>
     (\<forall>t\<in>set ts. tok_Name t \<noteq> [] \<and> HasPrefix (tok_Hash t) ''$argon2id$'' \<and> tok_Scopes t \<noteq> [])"
  by (induction i seen ts rule: check_tokens.induct) (auto simp: image_iff)

lemma check_slots_Nil:
  "check_slots i seen ports ss = [] \<longleftrightarrow>
     distinct (map sc_Name ss) \<and> set (map sc_Name ss) \<inter> set seen = {} \<and>
     distinct (map sc_Port ss) \<and> set (map sc_Port ss) \<inter> set (keys_of ports) = {} \<and>
     (\<forall>s\<in>set ss. name_re 32 (sc_Name s) \<and> 1 \<le> sc_Port s \<and> sc_Port s \<le> 65535)"
proof (induction i seen ports ss rule: check_slots.induct)
  case (2 i seen ports s ss)
  have "map_of ports (sc_Port s) = None \<longleftrightarrow> sc_Port s \<notin> set (keys_of ports)" by (rule map_of_not_keys)
  then show ?case using "2.IH" by (auto simp: image_iff keys_of_def split: option.splits)
qed simp

lemma check_peers_Nil:
  "check_peers urlOK self i seen ps = [] \<longleftrightarrow>
     distinct (map pc_Name ps) \<and> set (map pc_Name ps) \<inter> set seen = {} \<and>
     (\<forall>p\<in>set ps. name_re 64 (pc_Name p) \<and> pc_Name p \<noteq> self \<and> urlOK (pc_URL p) \<and> pc_Token p \<noteq> [])"
  by (induction urlOK self i seen ps rule: check_peers.induct) (auto simp: image_iff)

definition tokens_valid :: "token list \<Rightarrow> bool" where
  "tokens_valid ts \<longleftrightarrow> ts \<noteq> [] \<and> distinct (map tok_Name ts) \<and>
     (\<forall>t\<in>set ts. tok_Name t \<noteq> [] \<and> HasPrefix (tok_Hash t) ''$argon2id$'' \<and> tok_Scopes t \<noteq> [])"

definition slots_valid :: "slot_cfg list \<Rightarrow> bool" where
  "slots_valid ss \<longleftrightarrow> ss \<noteq> [] \<and> distinct (map sc_Name ss) \<and> distinct (map sc_Port ss) \<and>
     (\<forall>s\<in>set ss. name_re 32 (sc_Name s) \<and> 1 \<le> sc_Port s \<and> sc_Port s \<le> 65535)"

definition peers_valid :: "string \<Rightarrow> peer_cfg list \<Rightarrow> bool" where
  "peers_valid self ps \<longleftrightarrow> distinct (map pc_Name ps) \<and>
     (\<forall>p\<in>set ps. name_re 64 (pc_Name p) \<and> pc_Name p \<noteq> self \<and> pc_Token p \<noteq> [])"

text \<open>
  C21: a configuration that loads satisfies what the rest of the program relies on: slot names
  and ports are distinct and in range, token names are distinct, with argon2id hashes, scopes and
  a rate limit, no peer is the instance itself, and no interval is zero.
\<close>

theorem Load_guarantees:
  assumes "Load unmarshal hostPortOK urlOK env absPath raw = Inr c"
  shows "slots_valid (dc_Slots c) \<and> tokens_valid (dc_Tokens c) \<and> peers_valid (dc_InstanceName c) (dc_Peers c)
    \<and> name_re 64 (dc_InstanceName c) \<and> dc_Roots c \<noteq> []
    \<and> (\<forall>t\<in>set (dc_Tokens c). tok_RateLimit t \<noteq> None)
    \<and> dc_ScanInterval c \<noteq> 0 \<and> dc_PingInterval c \<noteq> 0 \<and> dc_PeerTimeout c \<noteq> 0 \<and> dc_Retention c \<noteq> 0"
proof -
  obtain c0 where c: "c = applyDefaults c0" "Validate hostPortOK urlOK c = []"
    using assms by (auto simp: Load_def Let_def split: option.splits if_splits)
  have "slots_valid (dc_Slots c)" "tokens_valid (dc_Tokens c)" "peers_valid (dc_InstanceName c) (dc_Peers c)"
      "name_re 64 (dc_InstanceName c)" "dc_Roots c \<noteq> []"
    using c(2) by (auto simp: Validate_def slots_valid_def tokens_valid_def peers_valid_def
        check_slots_Nil check_tokens_Nil check_peers_Nil)
  moreover have "\<forall>t\<in>set (dc_Tokens c). tok_RateLimit t \<noteq> None"
    by (auto simp: c(1) applyDefaults_def)
  moreover have "dc_ScanInterval c \<noteq> 0" "dc_PingInterval c \<noteq> 0" "dc_PeerTimeout c \<noteq> 0" "dc_Retention c \<noteq> 0"
    by (simp_all add: c(1) applyDefaults_def default_dur_def)
  ultimately show ?thesis by blast
qed

definition demo_slot :: "string \<Rightarrow> int \<Rightarrow> slot_cfg" where
  "demo_slot n p = \<lparr>sc_Name = n, sc_Port = p, sc_PublicAddress = [], sc_AutoMount = [], sc_Types = [], sc_MaxMemoryMB = 0\<rparr>"

definition demo_cfg :: "slot_cfg list \<Rightarrow> daemon_cfg" where
  "demo_cfg ss = \<lparr>dc_InstanceName = ''i'', dc_DataDir = [], dc_Bind = [],
     dc_Tokens = [\<lparr>tok_Name = ''t'', tok_Hash = ''$argon2id$x'', tok_Scopes = [''*''], tok_RateLimit = None\<rparr>],
     dc_CORSMaxAge = 0, dc_TLS = None, dc_Roots = [''/srv''], dc_ScanInterval = 0, dc_Slots = ss, dc_Peers = [],
     dc_PingInterval = 0, dc_PeerTimeout = 0, dc_TempSensor = None, dc_LogLevel = [], dc_LogFormat = [],
     dc_LogOutput = [], dc_Retention = 0, dc_MetricsPath = []\<rparr>"

lemma demo_cfg_valid:
  "slots_valid ss \<Longrightarrow> Load (\<lambda>_. Some (demo_cfg ss)) (\<lambda>_. True) (\<lambda>_. True) Map.empty (Some ''/c'') (Some []) =
     Inr (applyDefaults (demo_cfg ss))"
  by (simp add: Load_def Let_def Validate_def applyDefaults_def demo_cfg_def slots_valid_def check_slots_Nil
      check_tokens_Nil default_str_def err_if_def name_re_def HasPrefix_def keys_of_def)

theorem Load_guarantees_witness:
  "slots_valid (dc_Slots (applyDefaults (demo_cfg [demo_slot ''a'' 25565])))"
proof -
  have "slots_valid [demo_slot ''a'' 25565]"
    by (simp add: slots_valid_def demo_slot_def name_re_def)
  from Load_guarantees [OF demo_cfg_valid [OF this]] show ?thesis by simp
qed

definition rconPortOffset :: int where "rconPortOffset = 10000"

text \<open>
  Validation accepts configurations whose slots cannot run side by side.  The RCON port of a
  slot is its port plus 10000, and nothing checks that port: with slots on 25565 and 35565 the
  first one's RCON port is the second one's game port, and a slot above 55535 has an RCON port
  that is no TCP port.
\<close>

theorem valid_config_rcon_port_clash:
  "\<exists>c. Load (\<lambda>_. Some (demo_cfg [demo_slot ''a'' 25565, demo_slot ''b'' 35565, demo_slot ''c'' 60000]))
        (\<lambda>_. True) (\<lambda>_. True) Map.empty (Some ''/c'') (Some []) = Inr c
     \<and> sc_Port (dc_Slots c ! 0) + rconPortOffset = sc_Port (dc_Slots c ! 1)
     \<and> sc_Port (dc_Slots c ! 2) + rconPortOffset > 65535"
proof -
  have "slots_valid [demo_slot ''a'' 25565, demo_slot ''b'' 35565, demo_slot ''c'' 60000]"
    by (simp add: slots_valid_def demo_slot_def name_re_def)
  from demo_cfg_valid [OF this] show ?thesis
    by (auto simp: applyDefaults_def demo_cfg_def demo_slot_def rconPortOffset_def)
qed

end
