(* ===== verification/Fanout.thy ===== *)
theory Fanout
  imports Prelude
begin

text \<open>
  Buffered Go channels, the non-blocking send
  (\<open>select { case c <- e: default: }\<close>), and the contract of a fan-out: what the event bus
  (\<open>internal/events/bus.go\<close>) and the log broadcaster
  (\<open>internal/logtail/broadcaster.go\<close>) promise each subscriber.  Sending on a closed channel,
  or closing one twice, panics: the result is \<open>None\<close>.
\<close>

record 'e chan =
  ch_cap :: nat
  ch_buf :: "'e list"
  ch_closed :: bool

type_synonym 'e chans = "nat \<rightharpoonup> 'e chan"

definition make_chan :: "nat \<Rightarrow> 'e chan" where
  "make_chan n = \<lparr>ch_cap = n, ch_buf = [], ch_closed = False\<rparr>"

definition offer :: "'e \<Rightarrow> 'e chan \<Rightarrow> 'e chan" where
  "offer e c = (if length (ch_buf c) < ch_cap c then c\<lparr>ch_buf := ch_buf c @ [e]\<rparr> else c)"

definition try_send :: "'e \<Rightarrow> 'e chan \<Rightarrow> 'e chan option" where
  "try_send e c = (if ch_closed c then None else Some (offer e c))"

definition close_chan :: "'e chan \<Rightarrow> 'e chan option" where
  "close_chan c = (if ch_closed c then None else Some (c\<lparr>ch_closed := True\<rparr>))"

text \<open>A loop over the subscriptions that applies a channel operation to each.\<close>

fun each_chan :: "('e chan \<Rightarrow> 'e chan option) \<Rightarrow> nat list \<Rightarrow> 'e chans \<Rightarrow> 'e chans option" where
  "each_chan f [] chs = Some chs"
| "each_chan f (i # is) chs =
     (case chs i of
        None \<Rightarrow> None
      | Some c \<Rightarrow> (case f c of None \<Rightarrow> None | Some c' \<Rightarrow> each_chan f is (chs(i \<mapsto> c'))))"

definition all_open :: "nat list \<Rightarrow> 'e chans \<Rightarrow> bool" where
  [inv_defs]: "all_open is chs \<longleftrightarrow> distinct is \<and> (\<forall>i\<in>set is. \<exists>c. chs i = Some c \<and> \<not> ch_closed c)"

lemma each_chan_open:
  assumes "all_open is chs" and "\<And>c. \<not> ch_closed c \<Longrightarrow> f c = Some (g c)"
  shows "each_chan f is chs = Some (\<lambda>i. if i \<in> set is then map_option g (chs i) else chs i)"
  using assms(1)
proof (induction "is" arbitrary: chs)
  case (Cons i ids)
  then obtain c where c: "chs i = Some c" "\<not> ch_closed c" by (auto simp: all_open_def)
  have "all_open ids (chs(i \<mapsto> g c))" using Cons.prems by (auto simp: all_open_def)
  from Cons.IH [OF this] have r: "each_chan f (i # ids) chs =
      Some (\<lambda>j. if j \<in> set ids then map_option g ((chs(i \<mapsto> g c)) j) else (chs(i \<mapsto> g c)) j)"
    using c assms(2) [OF c(2)] by (simp del: fun_upd_apply)
  have "i \<notin> set ids" using Cons.prems by (simp add: all_open_def)
  then have "(if j \<in> set ids then map_option g ((chs(i \<mapsto> g c)) j) else (chs(i \<mapsto> g c)) j) =
      (if j \<in> set (i # ids) then map_option g (chs j) else chs j)" for j
    using c(1) by auto
  then show ?case unfolding r by presburger
qed simp

lemma send_all_open:
  "all_open is chs \<Longrightarrow>
     each_chan (try_send e) is chs = Some (\<lambda>i. if i \<in> set is then map_option (offer e) (chs i) else chs i)"
  by (rule each_chan_open) (auto simp: try_send_def)

lemma close_all_open:
  "all_open is chs \<Longrightarrow>
     each_chan close_chan is chs = Some (\<lambda>i. if i \<in> set is then map_option (\<lambda>c. c\<lparr>ch_closed := True\<rparr>) (chs i) else chs i)"
  by (rule each_chan_open) (auto simp: close_chan_def)

lemma offer_simps [simp]:
  "ch_cap (offer e c) = ch_cap c" "ch_closed (offer e c) = ch_closed c"
  "ch_buf (offer e c) = (if length (ch_buf c) < ch_cap c then ch_buf c @ [e] else ch_buf c)"
  by (auto simp: offer_def)

subsection \<open>The contract\<close>

text \<open>
  A subscriber \<open>h\<close> of a state has a queue of a fixed capacity.  Publishing never blocks: it
  appends to the queue of every subscriber that has room and passes the others over; receiving
  takes the oldest entry.
\<close>

datatype ('e, 'h) fanout_op = Pub 'e | Recv 'h

fun published :: "('e, 'h) fanout_op list \<Rightarrow> 'e list" where
  "published [] = []"
| "published (Pub e # ops) = e # published ops"
| "published (Recv _ # ops) = published ops"

locale fanout =
  fixes publish :: "'e \<Rightarrow> 's \<Rightarrow> 's"
    and recv :: "'h \<Rightarrow> 's \<Rightarrow> 's"
    and queue :: "'s \<Rightarrow> 'h \<Rightarrow> 'e list"
    and capacity :: "'s \<Rightarrow> 'h \<Rightarrow> nat"
    and subscribed :: "'s \<Rightarrow> 'h \<Rightarrow> bool"
    and ok :: "'s \<Rightarrow> bool"
  assumes publish_ok: "ok s \<Longrightarrow> ok (publish e s)"
    and recv_ok: "ok s \<Longrightarrow> ok (recv h s)"
    and publish_subscribed: "ok s \<Longrightarrow> subscribed (publish e s) h = subscribed s h"
    and recv_subscribed: "ok s \<Longrightarrow> subscribed (recv h' s) h = subscribed s h"
    and publish_capacity: "ok s \<Longrightarrow> capacity (publish e s) h = capacity s h"
    and recv_capacity: "ok s \<Longrightarrow> capacity (recv h' s) h = capacity s h"
    and publish_queue: "ok s \<Longrightarrow> subscribed s h \<Longrightarrow>
          queue (publish e s) h = (if length (queue s h) < capacity s h then queue s h @ [e] else queue s h)"
    and recv_queue: "ok s \<Longrightarrow> queue (recv h' s) h = (if h' = h then tl (queue s h) else queue s h)"
begin

fun step :: "('e, 'h) fanout_op \<Rightarrow> 's \<Rightarrow> 's" where
  "step (Pub e) s = publish e s"
| "step (Recv h) s = recv h s"

text \<open>What subscriber \<open>h\<close> has taken out of its queue, oldest first.\<close>

fun received :: "'h \<Rightarrow> ('e, 'h) fanout_op list \<Rightarrow> 's \<Rightarrow> 'e list" where
  "received h [] s = []"
| "received h (op # ops) s =
     (if op = Recv h \<and> queue s h \<noteq> [] then [hd (queue s h)] else []) @ received h ops (step op s)"

text \<open>Whether the subscriber has room at every publish.\<close>

fun keeps_up :: "'h \<Rightarrow> ('e, 'h) fanout_op list \<Rightarrow> 's \<Rightarrow> bool" where
  "keeps_up h [] s \<longleftrightarrow> True"
| "keeps_up h (op # ops) s \<longleftrightarrow>
     ((\<exists>e. op = Pub e) \<longrightarrow> length (queue s h) < capacity s h) \<and> keeps_up h ops (step op s)"

lemma step_ok: "ok s \<Longrightarrow> ok (step op s)"
  by (cases op) (auto intro: publish_ok recv_ok)

lemma step_subscribed: "ok s \<Longrightarrow> subscribed (step op s) h = subscribed s h"
  by (cases op) (auto simp: publish_subscribed recv_subscribed)

lemma delivery:
  "ok s \<Longrightarrow> subscribed s h \<Longrightarrow>
     \<exists>zs. subseq zs (published ops) \<and> received h ops s @ queue (fold step ops s) h = queue s h @ zs
        \<and> (keeps_up h ops s \<longrightarrow> zs = published ops)"
proof (induction ops arbitrary: s)
  case (Cons op ops)
  then obtain zs where zs: "subseq zs (published ops)"
      "received h ops (step op s) @ queue (fold step ops (step op s)) h = queue (step op s) h @ zs"
      "keeps_up h ops (step op s) \<longrightarrow> zs = published ops"
    using Cons.IH [OF step_ok [OF Cons.prems(1)], of op] Cons.prems step_subscribed [OF Cons.prems(1), of op h]
    by blast
  show ?case
  proof (cases op)
    case (Pub e)
    show ?thesis
    proof (cases "length (queue s h) < capacity s h")
      case True
      then show ?thesis
        using zs Pub Cons.prems by (intro exI [of _ "e # zs"]) (auto simp: publish_queue)
    next
      case False
      then show ?thesis
        using zs Pub Cons.prems by (intro exI [of _ zs]) (auto simp: publish_queue)
    qed
  next
    case (Recv h')
    then show ?thesis
      using zs Cons.prems by (intro exI [of _ zs]) (cases "queue s h"; auto simp: recv_queue)
  qed
qed simp

lemma in_order: "ok s \<Longrightarrow> subscribed s h \<Longrightarrow> queue s h = [] \<Longrightarrow>
    subseq (received h ops s @ queue (fold step ops s) h) (published ops)"
  using delivery [of s h ops] by auto

lemma complete_when_keeping_up: "ok s \<Longrightarrow> subscribed s h \<Longrightarrow> queue s h = [] \<Longrightarrow> keeps_up h ops s \<Longrightarrow>
    received h ops s @ queue (fold step ops s) h = published ops"
  using delivery [of s h ops] by auto

end

end
