(* ===== verification/EventBus.thy ===== *)
theory EventBus
  imports Fanout
begin

text \<open>
  The slot event bus, \<open>internal/events/bus.go\<close>.  Channels live in a store, as they outlive the
  subscription that created them; a subscription and its channel share the identifier the bus
  hands out.  Every operation that could panic on a channel returns an option.
\<close>

datatype event_type = TypeState | TypePlayerJoin | TypePlayerLeave | TypePlayerDeath | TypePlayerKick
  | TypeChat | TypeTPSSample | TypeError

record event =
  ev_Type :: event_type
  ev_At :: time
  ev_From :: string
  ev_To :: string
  ev_Player :: string
  ev_Killer :: string
  ev_Cause :: string
  ev_Reason :: string
  ev_Message :: string

definition blank_event :: "event_type \<Rightarrow> event" where
  "blank_event t = \<lparr>ev_Type = t, ev_At = 0, ev_From = [], ev_To = [], ev_Player = [], ev_Killer = [],
     ev_Cause = [], ev_Reason = [], ev_Message = []\<rparr>"

record bus =
  b_subs :: "nat list"
  b_chans :: "event chans"
  b_nextID :: nat
  b_closed :: bool

definition subBuffer :: nat where "subBuffer = 32"

definition NewBus :: bus where
  "NewBus = \<lparr>b_subs = [], b_chans = Map.empty, b_nextID = 0, b_closed = False\<rparr>"

text \<open>The handle is \<open>None\<close> for the closed channel and the empty cancel function of a closed bus.\<close>

definition bus_Subscribe :: "bus \<Rightarrow> nat option \<times> bus" where
  "bus_Subscribe b =
     (if b_closed b then (None, b)
      else let hid = b_nextID b
           in (Some hid, b\<lparr>b_nextID := hid + 1, b_chans := (b_chans b)(hid \<mapsto> make_chan subBuffer),
                          b_subs := b_subs b @ [hid]\<rparr>))"

definition bus_cancel :: "nat option \<Rightarrow> bus \<Rightarrow> bus option" where
  "bus_cancel h b =
     (case h of
        None \<Rightarrow> Some b
      | Some hid \<Rightarrow>
          if hid \<in> set (b_subs b) then
            (case each_chan close_chan [hid] (b_chans b) of
               None \<Rightarrow> None
             | Some chs \<Rightarrow> Some (b\<lparr>b_chans := chs, b_subs := filter (\<lambda>j. j \<noteq> hid) (b_subs b)\<rparr>))
          else Some b)"

definition stamp :: "time \<Rightarrow> event \<Rightarrow> event" where
  "stamp now e = (if is_zero (ev_At e) then e\<lparr>ev_At := now\<rparr> else e)"

definition bus_Publish :: "time \<Rightarrow> event \<Rightarrow> bus \<Rightarrow> bus option" where
  "bus_Publish now e b =
     (case each_chan (try_send (stamp now e)) (b_subs b) (b_chans b) of
        None \<Rightarrow> None | Some chs \<Rightarrow> Some (b\<lparr>b_chans := chs\<rparr>))"

definition bus_Close :: "bus \<Rightarrow> bus option" where
  "bus_Close b =
     (if b_closed b then Some b
      else case each_chan close_chan (b_subs b) (b_chans b) of
             None \<Rightarrow> None
           | Some chs \<Rightarrow> Some (b\<lparr>b_closed := True, b_chans := chs, b_subs := []\<rparr>))"

text \<open>A subscriber takes the oldest event out of its channel.\<close>

definition bus_recv :: "nat \<Rightarrow> bus \<Rightarrow> bus" where
  "bus_recv h b =
     (case b_chans b h of
        None \<Rightarrow> b
      | Some c \<Rightarrow> b\<lparr>b_chans := (b_chans b)(h \<mapsto> c\<lparr>ch_buf := tl (ch_buf c)\<rparr>)\<rparr>)"

definition bus_queue :: "bus \<Rightarrow> nat \<Rightarrow> event list" where
  "bus_queue b h = (case b_chans b h of None \<Rightarrow> [] | Some c \<Rightarrow> ch_buf c)"

definition bus_capacity :: "bus \<Rightarrow> nat \<Rightarrow> nat" where
  "bus_capacity b h = (case b_chans b h of None \<Rightarrow> 0 | Some c \<Rightarrow> ch_cap c)"

definition bus_subscribed :: "bus \<Rightarrow> nat \<Rightarrow> bool" where
  "bus_subscribed b h \<longleftrightarrow> h \<in> set (b_subs b)"

subsection \<open>No operation panics\<close>

datatype bus_op = OpSubscribe | OpCancel "nat option" | OpPublish time event | OpClose | OpRecv nat

fun bus_step :: "bus_op \<Rightarrow> bus \<Rightarrow> bus option" where
  "bus_step OpSubscribe b = Some (snd (bus_Subscribe b))"
| "bus_step (OpCancel h) b = bus_cancel h b"
| "bus_step (OpPublish now e) b = bus_Publish now e b"
| "bus_step OpClose b = bus_Close b"
| "bus_step (OpRecv h) b = Some (bus_recv h b)"

fun bus_run :: "bus_op list \<Rightarrow> bus \<Rightarrow> bus option" where
  "bus_run [] b = Some b"
| "bus_run (op # ops) b = (case bus_step op b of None \<Rightarrow> None | Some b' \<Rightarrow> bus_run ops b')"

definition bus_ok :: "bus \<Rightarrow> bool" where
  [inv_defs]: "bus_ok b \<longleftrightarrow> all_open (b_subs b) (b_chans b)
     \<and> (\<forall>i\<in>set (b_subs b). i < b_nextID b) \<and> (b_closed b \<longrightarrow> b_subs b = [])"

lemma bus_ok_New: "bus_ok NewBus"
  by (simp add: inv_defs NewBus_def)

lemma bus_Subscribe_ok: "bus_ok b \<Longrightarrow> bus_ok (snd (bus_Subscribe b))"
  by (auto simp: inv_defs bus_Subscribe_def Let_def make_chan_def)

lemma bus_recv_ok: "bus_ok b \<Longrightarrow> bus_ok (bus_recv h b)"
  by (auto simp: inv_defs bus_recv_def split: option.splits)

lemma bus_Publish_open:
  "bus_ok b \<Longrightarrow> bus_Publish now e b = Some (b\<lparr>b_chans := (\<lambda>i. if i \<in> set (b_subs b)
      then map_option (offer (stamp now e)) (b_chans b i) else b_chans b i)\<rparr>)"
  by (simp add: bus_ok_def bus_Publish_def send_all_open)

lemma bus_Publish_ok: "bus_ok b \<Longrightarrow> bus_Publish now e b = Some b' \<Longrightarrow> bus_ok b'"
  by (auto simp: bus_Publish_open) (auto simp: inv_defs)

lemma bus_Close_ok: "bus_ok b \<Longrightarrow> \<exists>b'. bus_Close b = Some b' \<and> bus_ok b'"
  by (auto simp: bus_ok_def bus_Close_def close_all_open) (simp add: all_open_def)

lemma bus_cancel_ok: "bus_ok b \<Longrightarrow> \<exists>b'. bus_cancel h b = Some b' \<and> bus_ok b'"
proof (cases h)
  case (Some hid)
  assume ok: "bus_ok b"
  show ?thesis
  proof (cases "hid \<in> set (b_subs b)")
    case True
    then have "all_open [hid] (b_chans b)" using ok by (auto simp: inv_defs)
    from close_all_open [OF this] show ?thesis
      using True ok Some by (auto simp: bus_cancel_def inv_defs simp del: each_chan.simps)
  qed (use ok Some in \<open>simp add: bus_cancel_def\<close>)
qed (simp add: bus_cancel_def)

lemma bus_step_ok: "bus_ok b \<Longrightarrow> \<exists>b'. bus_step op b = Some b' \<and> bus_ok b'"
proof (cases op)
  case (OpPublish now e)
  assume ok: "bus_ok b"
  then show ?thesis using OpPublish bus_Publish_open [OF ok] bus_Publish_ok [OF ok] by simp
qed (auto intro: bus_Subscribe_ok bus_recv_ok bus_cancel_ok bus_Close_ok)

lemma bus_run_ok: "bus_ok b \<Longrightarrow> \<exists>b'. bus_run ops b = Some b' \<and> bus_ok b'"
proof (induction ops arbitrary: b)
  case (Cons op ops)
  then show ?case using bus_step_ok [OF Cons.prems, of op] by auto
qed simp

text \<open>
  No sequence of subscriptions, cancellations (repeated or not), publications, receptions
  and closings of a bus ever sends on a closed channel or closes one twice.
\<close>

theorem bus_never_panics: "bus_run ops NewBus \<noteq> None"
  using bus_run_ok [OF bus_ok_New, of ops] by auto

subsection \<open>The bus is a fan-out\<close>

text \<open>The delivery of a stamped event, on a bus that is in order, where it cannot panic.\<close>

definition bus_publish :: "event \<Rightarrow> bus \<Rightarrow> bus" where
  "bus_publish e b = (case bus_Publish 0 e b of Some b' \<Rightarrow> b' | None \<Rightarrow> b)"

lemma stamp_stamped [simp]: "stamp 0 e = e"
  by (cases e) (simp add: stamp_def is_zero_def)

lemma bus_Publish_publish: "bus_ok b \<Longrightarrow> bus_Publish now e b = Some (bus_publish (stamp now e) b)"
  by (simp add: bus_publish_def bus_Publish_open cong: if_cong)

interpretation bus: fanout bus_publish bus_recv bus_queue bus_capacity bus_subscribed bus_ok
proof unfold_locales
  fix b e and h h' :: nat
  assume ok: "bus_ok b"
  note p = bus_Publish_open [OF ok, of 0 e]
  show "bus_ok (bus_publish e b)" using p bus_Publish_ok [OF ok p] by (simp add: bus_publish_def)
  show "bus_ok (bus_recv h b)" by (rule bus_recv_ok [OF ok])
  show "bus_subscribed (bus_publish e b) h = bus_subscribed b h"
    by (simp add: bus_publish_def p bus_subscribed_def)
  show "bus_subscribed (bus_recv h' b) h = bus_subscribed b h"
    by (auto simp: bus_recv_def bus_subscribed_def split: option.splits)
  show "bus_capacity (bus_publish e b) h = bus_capacity b h"
    by (auto simp: bus_publish_def p bus_capacity_def split: option.splits)
  show "bus_capacity (bus_recv h' b) h = bus_capacity b h"
    by (auto simp: bus_recv_def bus_capacity_def split: option.splits)
  show "bus_queue (bus_recv h' b) h = (if h' = h then tl (bus_queue b h) else bus_queue b h)"
    by (auto simp: bus_recv_def bus_queue_def split: option.splits)
  show "bus_queue (bus_publish e b) h =
      (if length (bus_queue b h) < bus_capacity b h then bus_queue b h @ [e] else bus_queue b h)"
    if sub: "bus_subscribed b h"
  proof -
    obtain c where "b_chans b h = Some c" using sub ok by (auto simp: inv_defs bus_subscribed_def)
    then show ?thesis
      using sub by (simp add: bus_publish_def p bus_queue_def bus_capacity_def bus_subscribed_def)
  qed
qed

lemma bus_Subscribe_fresh:
  assumes "bus_ok b" and "bus_Subscribe b = (Some h, b')"
  shows "bus_ok b' \<and> bus_subscribed b' h \<and> bus_queue b' h = [] \<and> bus_capacity b' h = subBuffer"
  using bus_Subscribe_ok [OF assms(1)] assms(2)
  by (auto simp: bus_Subscribe_def Let_def bus_subscribed_def bus_queue_def bus_capacity_def make_chan_def
      split: if_splits)

text \<open>
  C32: a new subscriber gets events in the order they are published, none twice and none that
  was not published, whatever the other subscribers do; and it gets every one of them as long as it
  leaves room in its channel, which holds 32.
\<close>

theorem bus_delivers_in_order:
  assumes "bus_ok b" and "bus_Subscribe b = (Some h, b')"
  shows "subseq (bus.received h ops b' @ bus_queue (fold bus.step ops b') h) (published ops)
    \<and> (bus.keeps_up h ops b' \<longrightarrow> bus.received h ops b' @ bus_queue (fold bus.step ops b') h = published ops)"
  using bus_Subscribe_fresh [OF assms] bus.in_order bus.complete_when_keeping_up by blast

theorem bus_delivers_in_order_witness:
  "\<exists>h b'. bus_Subscribe NewBus = (Some h, b') \<and>
     subseq (bus.received h [Pub (blank_event TypeChat), Recv h] b'
       @ bus_queue (fold bus.step [Pub (blank_event TypeChat), Recv h] b') h) [blank_event TypeChat]"
proof -
  obtain h b' where s: "bus_Subscribe NewBus = (Some h, b')"
    by (simp add: bus_Subscribe_def NewBus_def)
  show ?thesis
    using bus_delivers_in_order [OF bus_ok_New s, of "[Pub (blank_event TypeChat), Recv h]"] s
    by (auto simp del: fold_simps bus.received.simps)
qed

end
