(* ===== verification/History.thy ===== *)
theory History
  imports Prelude
begin

text \<open>
  The contract shared by every bounded in-memory history of the program: the supervisor's ring
  buffer of captured lines (\<open>internal/process/ringbuf.go\<close>), the log tailer's history
  (\<open>internal/logtail/tailer.go\<close>), the audit ring (\<open>internal/audit/audit.go\<close>) and the
  temperature samples (\<open>internal/system/temperature.go\<close>).  A provider gives the capacity,
  the entries it still holds (oldest first) and the operation that records one more; what the
  clients rely on is that after any sequence of records the history holds the most recent
  entries, in order, and never more than its capacity.
\<close>

locale recent_history =
  fixes cap :: "'s \<Rightarrow> nat"
    and view :: "'s \<Rightarrow> 'a list"
    and push :: "'a \<Rightarrow> 's \<Rightarrow> 's"
    and ok :: "'s \<Rightarrow> bool"
  assumes ok_push: "ok s \<Longrightarrow> ok (push x s)"
    and cap_push: "ok s \<Longrightarrow> cap (push x s) = cap s"
    and view_push: "ok s \<Longrightarrow> view (push x s) = last_n (cap s) (view s @ [x])"
    and view_bound: "ok s \<Longrightarrow> length (view s) \<le> cap s"
begin

lemma ok_fold: "ok s \<Longrightarrow> ok (fold push xs s)"
  by (induction xs arbitrary: s) (auto intro: ok_push)

lemma cap_fold: "ok s \<Longrightarrow> cap (fold push xs s) = cap s"
  by (induction xs arbitrary: s) (auto simp: cap_push ok_push)

lemma view_fold:
  "ok s \<Longrightarrow> view (fold push xs s) = last_n (cap s) (view s @ xs)"
proof (induction xs arbitrary: s)
  case Nil
  then show ?case by (simp add: view_bound)
next
  case (Cons x xs)
  then show ?case by (simp add: ok_push cap_push view_push)
qed

lemma fold_bound: "ok s \<Longrightarrow> length (view (fold push xs s)) \<le> cap s"
  by (simp add: view_fold)

lemma nothing_lost_below_cap:
  "ok s \<Longrightarrow> length (view s) + length xs \<le> cap s \<Longrightarrow> view (fold push xs s) = view s @ xs"
  by (simp add: view_fold)

lemma latest_is_kept:
  "ok s \<Longrightarrow> 0 < cap s \<Longrightarrow> last (view (push x s)) = x"
  by (simp add: view_push last_n_snoc)

lemma forgets_the_past:
  "ok s \<Longrightarrow> cap s \<le> length xs \<Longrightarrow> view (fold push xs s) = last_n (cap s) xs"
  by (simp add: view_fold last_n_append)

end

text \<open>
  The history that shifts its elements down when full, written three times in the source
  (\<open>Tailer.emit\<close>, \<open>Logger.appendRingLocked\<close>, \<open>Temperature.append\<close>) as
  \<open>copy(h, h[1:]); h[len(h)-1] = e\<close>.  \<open>copy\<close> leaves the last cell as it was, so it is
  written out as the source does it.
\<close>

definition shift_append :: "nat \<Rightarrow> 'a list \<Rightarrow> 'a \<Rightarrow> 'a list" where
  "shift_append n h e =
     (if length h = n then (tl h @ [last h])[length h - 1 := e] else h @ [e])"

lemma shift_append_last_n:
  assumes "length h \<le> n" and "0 < n"
  shows "shift_append n h e = last_n n (h @ [e])"
proof (cases "length h = n")
  case True
  then have "h \<noteq> []" using assms(2) by auto
  then have "(tl h @ [last h])[length h - 1 := e] = tl h @ [e]"
    by (simp add: list_update_append)
  moreover have "last_n n (h @ [e]) = tl h @ [e]"
    using True last_n_full_snoc [OF \<open>h \<noteq> []\<close>, of e] by simp
  ultimately show ?thesis using True by (simp add: shift_append_def)
next
  case False
  then show ?thesis using assms(1) by (simp add: shift_append_def)
qed

lemma length_shift_append:
  "length h \<le> n \<Longrightarrow> 0 < n \<Longrightarrow> length (shift_append n h e) \<le> n"
  by (simp add: shift_append_last_n)

end
