(* ===== verification/LogTail.thy ===== *)
theory LogTail
  imports GoStrings History Fanout
begin

text \<open>
  Log parsing and tailing: \<open>internal/logtail/parser.go\<close>, \<open>broadcaster.go\<close> and \<open>tailer.go\<close>.
  The two regular expressions are written out as the deterministic scans they are: every
  repetition is over a class that excludes the byte that must follow it.  A location is a fixed
  offset from UTC; a change of daylight-saving time is not modelled.
\<close>

record log_entry =
  le_TS :: time
  le_Thread :: string
  le_Level :: string
  le_Message :: string
  le_Raw :: string

subsection \<open>Parsing a line\<close>

definition re_space :: "char \<Rightarrow> bool" where
  "re_space c \<longleftrightarrow> c \<in> set [CHR '' '', tab, nl, CHR 0x0C, cr]"

definition is_upper :: "char \<Rightarrow> bool" where
  "is_upper c \<longleftrightarrow> 65 \<le> (of_char c :: nat) \<and> (of_char c :: nat) \<le> 90"

fun strip_char :: "char \<Rightarrow> string \<Rightarrow> string option" where
  "strip_char c [] = None"
| "strip_char c (d # s) = (if d = c then Some s else None)"

text \<open>A non-empty run of bytes of a class: \<open>[class]+\<close> followed by a byte outside the class.\<close>

definition strip_many1 :: "(char \<Rightarrow> bool) \<Rightarrow> string \<Rightarrow> (string \<times> string) option" where
  "strip_many1 P s = (let w = takeWhile P s in if w = [] then None else Some (w, dropWhile P s))"

text \<open>\<open>\d{2}:\d{2}:\d{2}\<close>\<close>

definition strip_hms :: "string \<Rightarrow> (string \<times> string) option" where
  "strip_hms s =
     (case s of
        a # b # c # d # e # f # g # h # rest \<Rightarrow>
          if list_all is_digit [a, b, d, e, g, h] \<and> c = CHR '':'' \<and> f = CHR '':''
          then Some ([a, b, c, d, e, f, g, h], rest) else None
      | _ \<Rightarrow> None)"

text \<open>\<open>:\s*(.*)$\<close>, where the dot does not match a newline.\<close>

definition strip_message :: "string \<Rightarrow> string option" where
  "strip_message s =
     (case strip_char CHR '':'' s of
        None \<Rightarrow> None
      | Some r \<Rightarrow> let m = dropWhile re_space r in if nl \<in> set m then None else Some m)"

definition mcLine :: "string \<Rightarrow> (string \<times> string \<times> string \<times> string) option" where
  "mcLine s =
     Option.bind (strip_char CHR ''['' s) (\<lambda>s1.
     Option.bind (strip_hms s1) (\<lambda>(hms, s2).
     Option.bind (strip_char CHR '']'' s2) (\<lambda>s3.
     Option.bind (strip_char CHR ''['' (dropWhile re_space s3)) (\<lambda>s4.
     Option.bind (strip_many1 (\<lambda>c. c \<noteq> CHR ''/'' \<and> c \<noteq> CHR '']'') s4) (\<lambda>(thread, s5).
     Option.bind (strip_char CHR ''/'' s5) (\<lambda>s6.
     Option.bind (strip_many1 is_upper s6) (\<lambda>(level, s7).
     Option.bind (strip_char CHR '']'' s7) (\<lambda>s8.
     Option.bind (strip_message s8) (\<lambda>m. Some (hms, thread, level, m))))))))))"

definition shortLine :: "string \<Rightarrow> (string \<times> string \<times> string) option" where
  "shortLine s =
     Option.bind (strip_char CHR ''['' s) (\<lambda>s1.
     Option.bind (strip_hms s1) (\<lambda>(hms, s2).
     Option.bind (strip_many1 re_space s2) (\<lambda>(_, s3).
     Option.bind (strip_many1 is_upper s3) (\<lambda>(level, s4).
     Option.bind (strip_char CHR '']'' s4) (\<lambda>s5.
     Option.bind (strip_message s5) (\<lambda>m. Some (hms, level, m)))))))"

abbreviation hour :: duration where "hour \<equiv> 3600 * second"
abbreviation day :: duration where "day \<equiv> 24 * hour"

text \<open>\<open>time.ParseInLocation("15:04:05", hms, loc)\<close>: the seconds since midnight, in range.\<close>

definition two_digits :: "string \<Rightarrow> nat \<Rightarrow> int" where
  "two_digits s i = 10 * digit_val (s ! i) + digit_val (s ! (i + 1))"

definition parse_hms :: "string \<Rightarrow> int option" where
  "parse_hms s =
     (let h = two_digits s 0; m = two_digits s 3; c = two_digits s 6
      in if h > 23 \<or> m > 59 \<or> c > 59 then None else Some (3600 * h + 60 * m + c))"

definition midnight :: "duration \<Rightarrow> time \<Rightarrow> time" where
  "midnight zone t = t - (t + zone) mod day"

definition mergeTime :: "duration \<Rightarrow> time \<Rightarrow> string \<Rightarrow> time" where
  "mergeTime zone captured hms =
     (case parse_hms hms of
        None \<Rightarrow> captured
      | Some secs \<Rightarrow>
          (let merged = midnight zone captured + secs * second
           in if merged - captured > hour then merged - day else merged))"

definition Parse :: "duration \<Rightarrow> string \<Rightarrow> time \<Rightarrow> log_entry" where
  "Parse zone raw capturedAt =
     (let line = TrimRight raw [cr]
      in case mcLine line of
           Some (hms, thread, level, m) \<Rightarrow>
             \<lparr>le_TS = mergeTime zone capturedAt hms, le_Thread = thread, le_Level = level, le_Message = m, le_Raw = line\<rparr>
         | None \<Rightarrow>
             (case shortLine line of
                Some (hms, level, m) \<Rightarrow>
                  \<lparr>le_TS = mergeTime zone capturedAt hms, le_Thread = [], le_Level = level, le_Message = m, le_Raw = line\<rparr>
              | None \<Rightarrow>
                  \<lparr>le_TS = capturedAt, le_Thread = [], le_Level = [], le_Message = line, le_Raw = line\<rparr>))"

subsection \<open>The time of a line\<close>

definition two :: "int \<Rightarrow> string" where
  "two n = [digit_char (nat (n div 10)), digit_char (nat (n mod 10))]"

definition show_hms :: "int \<Rightarrow> string" where
  "show_hms secs = two (secs div 3600) @ '':'' @ two (secs div 60 mod 60) @ '':'' @ two (secs mod 60)"

lemma two_parts:
  assumes "0 \<le> n" and "n < 100"
  obtains a b where "two n = [a, b]" and "10 * digit_val a + digit_val b = n" and "is_digit a" and "is_digit b"
proof -
  have n: "nat (n div 10) < 10" "nat (n mod 10) < 10" "0 \<le> n div 10" "0 \<le> n mod 10" using assms by auto
  show thesis
    by (rule that [OF two_def]) (use n in simp_all)
qed

lemma show_hms_parts:
  assumes "0 \<le> secs" and "secs < 86400"
  obtains a b d e g h where "show_hms secs = [a, b, CHR '':'', d, e, CHR '':'', g, h]"
    and "10 * digit_val a + digit_val b = secs div 3600" and "10 * digit_val d + digit_val e = secs div 60 mod 60"
    and "10 * digit_val g + digit_val h = secs mod 60" and "list_all is_digit [a, b, d, e, g, h]"
proof -
  have r: "0 \<le> secs div 3600" "secs div 3600 < 100" "secs div 60 mod 60 < 100" "secs mod 60 < 100"
      "0 \<le> secs div 60 mod 60" "0 \<le> secs mod 60"
    using assms pos_mod_bound [of 60 "secs div 60"] pos_mod_bound [of 60 secs] by auto
  obtain a b where "two (secs div 3600) = [a, b]" "10 * digit_val a + digit_val b = secs div 3600" "is_digit a" "is_digit b"
    using two_parts [OF r(1,2)] .
  moreover obtain d e where "two (secs div 60 mod 60) = [d, e]"
      "10 * digit_val d + digit_val e = secs div 60 mod 60" "is_digit d" "is_digit e"
    using two_parts [OF r(5,3)] .
  moreover obtain g h where "two (secs mod 60) = [g, h]" "10 * digit_val g + digit_val h = secs mod 60" "is_digit g" "is_digit h"
    using two_parts [OF r(6,4)] .
  ultimately show thesis by (intro that [of a b d e g h]) (simp_all add: show_hms_def)
qed

lemma clock_parts: "3600 * (secs div 3600) + 60 * (secs div 60 mod 60) + secs mod 60 = (secs :: int)"
proof -
  have "secs div 60 div 60 = secs div 3600" using zdiv_zmult2_eq [of 60 secs 60] by simp
  then show ?thesis
    using div_mult_mod_eq [of secs 60] div_mult_mod_eq [of "secs div 60" 60] by linarith
qed

lemma parse_show_hms:
  assumes "0 \<le> secs" and "secs < 86400"
  shows "parse_hms (show_hms secs) = Some secs"
proof (rule show_hms_parts [OF assms])
  fix a b d e g h
  assume s: "show_hms secs = [a, b, CHR '':'', d, e, CHR '':'', g, h]"
    and v: "10 * digit_val a + digit_val b = secs div 3600" "10 * digit_val d + digit_val e = secs div 60 mod 60"
      "10 * digit_val g + digit_val h = secs mod 60"
  have "two_digits (show_hms secs) 0 = secs div 3600" "two_digits (show_hms secs) 3 = secs div 60 mod 60"
      "two_digits (show_hms secs) 6 = secs mod 60"
    using v by (simp_all add: two_digits_def s)
  moreover have "\<not> 23 < secs div 3600" "\<not> 59 < secs div 60 mod 60" "\<not> 59 < secs mod 60"
    using assms pos_mod_bound [of 60 "secs div 60"] pos_mod_bound [of 60 secs] by linarith+
  ultimately show ?thesis using clock_parts [of secs] by (simp add: parse_hms_def Let_def)
qed

text \<open>The seconds since midnight at which a whole second \<open>t\<close> shows on the clock of the zone.\<close>

definition clock :: "duration \<Rightarrow> time \<Rightarrow> int" where
  "clock zone t = ((t + zone) mod day) div second"

text \<open>
  The time of a log line is recovered from its time of day.  A line written at a whole
  second in the 23 hours before the moment it was captured gets exactly that
  time, across midnight included, in any zone.
\<close>

theorem mergeTime_recovers:
  assumes "(t + zone) mod second = 0" and "captured - 23 * hour < t" and "t \<le> captured"
  shows "mergeTime zone captured (show_hms (clock zone t)) = t"
proof -
  define c where "c = (t + zone) mod day"
  have c: "0 \<le> c" "c < day" "c mod second = 0"
    using assms(1) by (auto simp: c_def mod_mod_cancel)
  have cl: "clock zone t = c div second" by (simp only: clock_def c_def)
  have k: "clock zone t * second = c" "0 \<le> clock zone t" "clock zone t < 86400"
    unfolding cl using c by auto
  obtain q where q: "t + zone = q * day + c" using div_mult_mod_eq [of "t + zone" day] c_def by metis
  define m where "m = (captured + zone) mod day"
  have m: "0 \<le> m" "m < day" by (auto simp: m_def)
  obtain p where p: "captured + zone = p * day + m" using div_mult_mod_eq [of "captured + zone" day] m_def by metis
  have "mergeTime zone captured (show_hms (clock zone t)) =
      (if c - m > hour then captured - m + c - day else captured - m + c)"
    using parse_show_hms k by (simp add: mergeTime_def midnight_def m_def algebra_simps)
  moreover have "t = captured - m + c + (q - p) * day" using p q by (simp add: algebra_simps)
  moreover have "(q - p) * day < 2 * day" "- 2 * day < (q - p) * day"
    using calculation(2) c m assms(2,3) by linarith+
  then have "q - p \<in> {-1, 0, 1}" by auto
  ultimately show ?thesis using c m assms(2,3) by auto
qed

theorem mergeTime_recovers_witness:
  "mergeTime 0 (3 * day + 5 * second) (show_hms (clock 0 (3 * day - 10 * second))) = 3 * day - 10 * second"
  by (rule mergeTime_recovers) simp_all

text \<open>A line as the server writes it.\<close>

definition server_line :: "int \<Rightarrow> string \<Rightarrow> string \<Rightarrow> string \<Rightarrow> string" where
  "server_line secs thread level msg =
     ''['' @ show_hms secs @ ''] ['' @ thread @ ''/'' @ level @ '']: '' @ msg"

lemma strip_many1_run:
  "w \<noteq> [] \<Longrightarrow> list_all P w \<Longrightarrow> \<not> P c \<Longrightarrow> strip_many1 P (w @ c # s) = Some (w, c # s)"
  by (induction w) (auto simp: strip_many1_def Let_def takeWhile_append2 dropWhile_append2 list_all_iff)

lemma strip_show_hms:
  assumes "0 \<le> secs" and "secs < 86400"
  shows "strip_hms (show_hms secs @ s) = Some (show_hms secs, s)"
  by (rule show_hms_parts [OF assms]) (simp add: strip_hms_def)

lemma mcLine_server_line:
  assumes "0 \<le> secs" and "secs < 86400" and "thread \<noteq> []" and "CHR ''/'' \<notin> set thread" and "CHR '']'' \<notin> set thread"
    and "level \<noteq> []" and "list_all is_upper level" and "nl \<notin> set msg"
  shows "mcLine (server_line secs thread level msg) = Some (show_hms secs, thread, level, dropWhile re_space msg)"
proof -
  have t: "strip_many1 (\<lambda>c. c \<noteq> CHR ''/'' \<and> c \<noteq> CHR '']'') (thread @ CHR ''/'' # s) = Some (thread, CHR ''/'' # s)" for s
    using assms(3-5) by (intro strip_many1_run) (auto simp: list_all_iff)
  have l: "strip_many1 is_upper (level @ CHR '']'' # s) = Some (level, CHR '']'' # s)" for s
    using assms(6,7) by (intro strip_many1_run) (auto simp: is_upper_def)
  have "nl \<notin> set (dropWhile re_space msg)" using assms(8) set_dropWhileD by fastforce
  then show ?thesis
    by (simp add: mcLine_def server_line_def strip_show_hms [OF assms(1,2)] t l strip_message_def re_space_def Let_def)
qed

lemma TrimRight_last: "s \<noteq> [] \<Longrightarrow> last s \<notin> set cs \<Longrightarrow> TrimRight s cs = s"
  by (cases s rule: rev_cases) (auto simp: TrimRight_def)

text \<open>
  A line in the format of the server parses to its parts: the thread, the level, the
  message without its leading blanks, and the time of day on the day of the capture.
\<close>

theorem Parse_server_line:
  assumes "0 \<le> secs" and "secs < 86400" and "thread \<noteq> []" and "CHR ''/'' \<notin> set thread" and "CHR '']'' \<notin> set thread"
    and "level \<noteq> []" and "list_all is_upper level" and "nl \<notin> set msg" and "msg \<noteq> [] \<longrightarrow> last msg \<noteq> cr"
  shows "Parse zone (server_line secs thread level msg) captured =
     \<lparr>le_TS = mergeTime zone captured (show_hms secs), le_Thread = thread, le_Level = level,
      le_Message = dropWhile re_space msg, le_Raw = server_line secs thread level msg\<rparr>"
proof -
  have "TrimRight (server_line secs thread level msg) [cr] = server_line secs thread level msg"
    using assms(9) by (intro TrimRight_last) (auto simp: server_line_def)
  then show ?thesis using mcLine_server_line [OF assms(1-8)] by (simp add: Parse_def Let_def)
qed

theorem Parse_server_line_witness:
  "le_Thread (Parse 0 (server_line 43201 ''Server thread'' ''INFO'' ''Steve joined the game'') 0) = ''Server thread''
   \<and> server_line 43201 ''Server thread'' ''INFO'' ''Steve joined the game''
       = ''[12:00:01] [Server thread/INFO]: Steve joined the game''"
proof
  show "le_Thread (Parse 0 (server_line 43201 ''Server thread'' ''INFO'' ''Steve joined the game'') 0) = ''Server thread''"
    by (subst Parse_server_line) (simp_all add: is_upper_def)
  show "server_line 43201 ''Server thread'' ''INFO'' ''Steve joined the game''
       = ''[12:00:01] [Server thread/INFO]: Steve joined the game''"
    by code_simp
qed

subsection \<open>The broadcaster\<close>

record 'e broadcaster =
  br_subs :: "nat list"
  br_chans :: "'e chans"
  br_next :: nat

definition NewBroadcaster :: "'e broadcaster" where
  "NewBroadcaster = \<lparr>br_subs = [], br_chans = Map.empty, br_next = 0\<rparr>"

definition br_Subscribe :: "int \<Rightarrow> 'e broadcaster \<Rightarrow> nat \<times> 'e broadcaster" where
  "br_Subscribe buf b =
     (let buf = (if buf < 1 then 1 else buf); ch = br_next b
      in (ch, b\<lparr>br_next := ch + 1, br_chans := (br_chans b)(ch \<mapsto> make_chan (nat buf)),
                br_subs := br_subs b @ [ch]\<rparr>))"

definition br_Unsubscribe :: "nat \<Rightarrow> 'e broadcaster \<Rightarrow> 'e broadcaster option" where
  "br_Unsubscribe ch b =
     (if ch \<in> set (br_subs b) then
        (case each_chan close_chan [ch] (br_chans b) of
           None \<Rightarrow> None
         | Some chs \<Rightarrow> Some (b\<lparr>br_subs := filter (\<lambda>j. j \<noteq> ch) (br_subs b), br_chans := chs\<rparr>))
      else Some b)"

definition br_Publish :: "'e \<Rightarrow> 'e broadcaster \<Rightarrow> 'e broadcaster option" where
  "br_Publish e b =
     (case each_chan (try_send e) (br_subs b) (br_chans b) of
        None \<Rightarrow> None | Some chs \<Rightarrow> Some (b\<lparr>br_chans := chs\<rparr>))"

definition br_Close :: "'e broadcaster \<Rightarrow> 'e broadcaster option" where
  "br_Close b =
     (case each_chan close_chan (br_subs b) (br_chans b) of
        None \<Rightarrow> None | Some chs \<Rightarrow> Some (b\<lparr>br_chans := chs, br_subs := []\<rparr>))"

definition br_Count :: "'e broadcaster \<Rightarrow> nat" where
  "br_Count b = length (br_subs b)"

definition br_recv :: "nat \<Rightarrow> 'e broadcaster \<Rightarrow> 'e broadcaster" where
  "br_recv h b =
     (case br_chans b h of
        None \<Rightarrow> b
      | Some c \<Rightarrow> b\<lparr>br_chans := (br_chans b)(h \<mapsto> c\<lparr>ch_buf := tl (ch_buf c)\<rparr>)\<rparr>)"

definition br_queue :: "'e broadcaster \<Rightarrow> nat \<Rightarrow> 'e list" where
  "br_queue b h = (case br_chans b h of None \<Rightarrow> [] | Some c \<Rightarrow> ch_buf c)"

definition br_capacity :: "'e broadcaster \<Rightarrow> nat \<Rightarrow> nat" where
  "br_capacity b h = (case br_chans b h of None \<Rightarrow> 0 | Some c \<Rightarrow> ch_cap c)"

definition br_ok :: "'e broadcaster \<Rightarrow> bool" where
  [inv_defs]: "br_ok b \<longleftrightarrow> all_open (br_subs b) (br_chans b) \<and> (\<forall>i\<in>set (br_subs b). i < br_next b)"

lemma br_Publish_open:
  "br_ok b \<Longrightarrow> br_Publish e b = Some (b\<lparr>br_chans := (\<lambda>i. if i \<in> set (br_subs b)
      then map_option (offer e) (br_chans b i) else br_chans b i)\<rparr>)"
  by (simp add: br_ok_def br_Publish_def send_all_open)

lemma br_Publish_ok: "br_ok b \<Longrightarrow> br_Publish e b = Some b' \<Longrightarrow> br_ok b'"
  by (auto simp: br_Publish_open) (auto simp: inv_defs)

lemma br_recv_ok: "br_ok b \<Longrightarrow> br_ok (br_recv h b)"
  by (auto simp: inv_defs br_recv_def split: option.splits)

lemma br_Subscribe_ok: "br_ok b \<Longrightarrow> br_ok (snd (br_Subscribe buf b))"
  by (auto simp: inv_defs br_Subscribe_def Let_def make_chan_def)

lemma br_Close_ok: "br_ok b \<Longrightarrow> \<exists>b'. br_Close b = Some b' \<and> br_ok b'"
  by (auto simp: br_ok_def br_Close_def close_all_open) (simp add: all_open_def)

lemma br_Unsubscribe_ok: "br_ok b \<Longrightarrow> \<exists>b'. br_Unsubscribe ch b = Some b' \<and> br_ok b'"
proof (cases "ch \<in> set (br_subs b)")
  case True
  assume ok: "br_ok b"
  then have "all_open [ch] (br_chans b)" using True by (auto simp: inv_defs)
  from close_all_open [OF this] show ?thesis
    using True ok by (auto simp: br_Unsubscribe_def inv_defs simp del: each_chan.simps)
qed (simp add: br_Unsubscribe_def)

definition br_publish :: "'e \<Rightarrow> 'e broadcaster \<Rightarrow> 'e broadcaster" where
  "br_publish e b = (case br_Publish e b of Some b' \<Rightarrow> b' | None \<Rightarrow> b)"

interpretation br: fanout br_publish br_recv br_queue br_capacity "\<lambda>b h. h \<in> set (br_subs b)" br_ok
proof unfold_locales
  fix b :: "'e broadcaster" and e and h h' :: nat
  assume ok: "br_ok b"
  note p = br_Publish_open [OF ok, of e]
  show "br_ok (br_publish e b)" using p br_Publish_ok [OF ok p] by (simp add: br_publish_def)
  show "br_ok (br_recv h b)" by (rule br_recv_ok [OF ok])
  show "(h \<in> set (br_subs (br_publish e b))) = (h \<in> set (br_subs b))" by (simp add: br_publish_def p)
  show "(h \<in> set (br_subs (br_recv h' b))) = (h \<in> set (br_subs b))"
    by (auto simp: br_recv_def split: option.splits)
  show "br_capacity (br_publish e b) h = br_capacity b h"
    by (auto simp: br_publish_def p br_capacity_def split: option.splits)
  show "br_capacity (br_recv h' b) h = br_capacity b h"
    by (auto simp: br_recv_def br_capacity_def split: option.splits)
  show "br_queue (br_recv h' b) h = (if h' = h then tl (br_queue b h) else br_queue b h)"
    by (auto simp: br_recv_def br_queue_def split: option.splits)
  show "br_queue (br_publish e b) h =
      (if length (br_queue b h) < br_capacity b h then br_queue b h @ [e] else br_queue b h)"
    if sub: "h \<in> set (br_subs b)"
  proof -
    obtain c where "br_chans b h = Some c" using sub ok by (auto simp: inv_defs)
    then show ?thesis using sub by (simp add: br_publish_def p br_queue_def br_capacity_def)
  qed
qed

subsection \<open>The tailer\<close>

record tailer =
  t_path :: string
  t_historyN :: nat
  t_history :: "log_entry list"
  t_bcast :: "log_entry broadcaster"

definition NewTailer :: "string \<Rightarrow> int \<Rightarrow> tailer" where
  "NewTailer path historyN =
     \<lparr>t_path = path, t_historyN = nat (if historyN \<le> 0 then 5000 else historyN), t_history = [],
      t_bcast = NewBroadcaster\<rparr>"

definition emit :: "log_entry \<Rightarrow> tailer \<Rightarrow> tailer option" where
  "emit e t =
     (let t' = t\<lparr>t_history := shift_append (t_historyN t) (t_history t) e\<rparr>
      in case br_Publish e (t_bcast t') of None \<Rightarrow> None | Some b \<Rightarrow> Some (t'\<lparr>t_bcast := b\<rparr>))"

fun emit_all :: "log_entry list \<Rightarrow> tailer \<Rightarrow> tailer option" where
  "emit_all [] t = Some t"
| "emit_all (e # es) t = (case emit e t of None \<Rightarrow> None | Some t' \<Rightarrow> emit_all es t')"

definition Recent :: "int \<Rightarrow> tailer \<Rightarrow> log_entry list" where
  "Recent n t =
     (let len = int (length (t_history t)); n = (if n \<le> 0 \<or> n > len then len else n)
      in drop (nat (len - n)) (t_history t))"

definition Since :: "time \<Rightarrow> tailer \<Rightarrow> log_entry list" where
  "Since cursor t = filter (\<lambda>e. le_TS e > cursor) (t_history t)"

text \<open>
  The lines \<open>ReadString('\n')\<close> returns until the end of the file: each with its newline, the
  last one without when the file does not end in one.
\<close>

definition read_strings :: "string \<Rightarrow> string list" where
  "read_strings s =
     (let ws = Split s nl
      in map (\<lambda>w. w @ [nl]) (butlast ws) @ (if last ws = [] then [] else [last ws]))"

definition fresh_lines :: "string \<Rightarrow> string list" where
  "fresh_lines s = filter (\<lambda>l. l \<noteq> []) (map (\<lambda>l. TrimRight l [cr, nl]) (read_strings s))"

text \<open>
  One read to the end of the file, whose bytes are \<open>content\<close> and of which \<open>pos\<close> are read: the
  lines to emit and the new position.  A file shorter than that was truncated, and is read from
  its start.
\<close>

definition read_to_EOF :: "string \<Rightarrow> nat \<Rightarrow> string list \<times> nat" where
  "read_to_EOF content pos =
     (let pos = (if length content < pos then 0 else pos)
      in (fresh_lines (drop pos content), length content))"

definition stamped :: "duration \<Rightarrow> (nat \<Rightarrow> time) \<Rightarrow> string list \<Rightarrow> log_entry list" where
  "stamped zone clk ls = map (\<lambda>(i, l). Parse zone l (clk i)) (List.enumerate 0 ls)"

definition readUntilEOF ::
    "duration \<Rightarrow> (nat \<Rightarrow> time) \<Rightarrow> string \<Rightarrow> nat \<Rightarrow> tailer \<Rightarrow> (tailer \<times> nat) option" where
  "readUntilEOF zone clk content pos t =
     (let (ls, pos') = read_to_EOF content pos
      in map_option (\<lambda>t'. (t', pos')) (emit_all (stamped zone clk ls) t))"

text \<open>The lines emitted when a file that appears is first opened: the last \<open>n\<close> of a small file.\<close>

definition backfill_lines :: "string \<Rightarrow> nat \<Rightarrow> string list" where
  "backfill_lines body n =
     (if body = [] \<or> length body > 1048576 then []
      else let ws = Split body nl; ws = (if ws \<noteq> [] \<and> last ws = [] then butlast ws else ws);
               ws = (if length ws > n then drop (length ws - n) ws else ws)
           in filter (\<lambda>l. l \<noteq> []) ws)"

definition backfill :: "duration \<Rightarrow> time \<Rightarrow> string \<Rightarrow> nat \<Rightarrow> tailer \<Rightarrow> tailer option" where
  "backfill zone now body n t = emit_all (map (\<lambda>l. Parse zone l now) (backfill_lines body n)) t"

subsection \<open>The history is the recent past\<close>

definition t_ok :: "tailer \<Rightarrow> bool" where
  [inv_defs]: "t_ok t \<longleftrightarrow> 0 < t_historyN t \<and> length (t_history t) \<le> t_historyN t \<and> br_ok (t_bcast t)"

definition emit' :: "log_entry \<Rightarrow> tailer \<Rightarrow> tailer" where
  "emit' e t = (case emit e t of Some t' \<Rightarrow> t' | None \<Rightarrow> t)"

lemma emit_some:
  "t_ok t \<Longrightarrow> emit e t = Some (t\<lparr>t_history := shift_append (t_historyN t) (t_history t) e,
                             t_bcast := br_publish e (t_bcast t)\<rparr>)"
  by (simp add: t_ok_def emit_def Let_def br_Publish_open br_publish_def)

interpretation tail: recent_history t_historyN t_history emit' t_ok
  by unfold_locales
    (auto simp: emit'_def emit_some t_ok_def shift_append_last_n length_shift_append br.publish_ok)

lemma emit_all_fold: "t_ok t \<Longrightarrow> emit_all es t = Some (fold emit' es t)"
proof (induction es arbitrary: t)
  case (Cons e es)
  have "t_ok (emit' e t)" using Cons.prems by (rule tail.ok_push)
  then show ?case using Cons by (simp add: emit_some emit'_def)
qed simp

lemma t_ok_New: "t_ok (NewTailer path n)"
  by (auto simp: t_ok_def NewTailer_def NewBroadcaster_def inv_defs)

lemma Recent_last_n: "Recent n t = last_n (if n \<le> 0 then length (t_history t) else nat n) (t_history t)"
proof (cases "n \<le> 0 \<or> n > int (length (t_history t))")
  case True
  then show ?thesis by (auto simp: Recent_def Let_def)
next
  case False
  then have "nat (int (length (t_history t)) - n) = length (t_history t) - nat n" by auto
  then show ?thesis using False by (auto simp: Recent_def Let_def last_n_def)
qed

text \<open>
  The tailer never panics while it emits, keeps at most its capacity, and its recent
  entries are the last ones emitted, oldest first; the entries after a cursor are exactly those of
  the kept ones with a later time.
\<close>

theorem tailer_keeps_recent:
  "\<exists>t. emit_all es (NewTailer path N) = Some t
     \<and> (0 < n \<longrightarrow> Recent n t = last_n (min (nat n) (if N \<le> 0 then 5000 else nat N)) es)
     \<and> Since cur t = filter (\<lambda>e. le_TS e > cur) (last_n (if N \<le> 0 then 5000 else nat N) es)"
proof -
  let ?t = "fold emit' es (NewTailer path N)"
  have "t_history ?t = last_n (if N \<le> 0 then 5000 else nat N) es"
    using tail.view_fold [OF t_ok_New, of es path N] by (simp add: NewTailer_def)
  then show ?thesis
    using emit_all_fold [OF t_ok_New, of es path N] by (auto simp: Recent_last_n Since_def)
qed

theorem tailer_keeps_recent_witness:
  "\<exists>t. emit_all [Parse 0 ''a'' 1, Parse 0 ''b'' 2] (NewTailer ''x'' 1) = Some t \<and> Recent 5 t = [Parse 0 ''b'' 2]"
  using tailer_keeps_recent [of "[Parse 0 ''a'' 1, Parse 0 ''b'' 2]" "''x''" 1 5 0] by (auto simp: last_n_def)

subsection \<open>Following a file\<close>

lemma Split_append_end: "Split (a @ [sep]) sep = Split a sep @ [[]]"
  by (induction a) (auto split: list.splits)

lemma read_strings_append:
  "a = [] \<or> last a = nl \<Longrightarrow> read_strings (a @ b) = read_strings a @ read_strings b"
proof (cases a rule: rev_cases)
  case (snoc a' c)
  assume "a = [] \<or> last a = nl"
  then have "a = a' @ [nl]" using snoc by simp
  then show ?thesis
    by (simp add: read_strings_def Let_def Split_append_end Split_append_sep butlast_append)
qed (simp add: read_strings_def)

text \<open>The writes of the server to its log: after each one the tailer reads to the end.\<close>

fun follow :: "string \<Rightarrow> nat \<Rightarrow> string list \<Rightarrow> string list" where
  "follow content pos [] = []"
| "follow content pos (w # ws) =
     (let (ls, pos') = read_to_EOF (content @ w) pos in ls @ follow (content @ w) pos' ws)"

text \<open>
  A log that grows by whole lines is followed without loss, duplication or reordering:
  whatever was in the file before and however the writes are cut, the emitted lines are those of
  the appended text.
\<close>

theorem follow_whole_lines:
  assumes "\<forall>w\<in>set ws. w \<noteq> [] \<and> last w = nl"
  shows "follow content (length content) ws = fresh_lines (concat ws)"
  using assms
proof (induction ws arbitrary: content)
  case (Cons w ws)
  have "fresh_lines (w @ concat ws) = fresh_lines w @ fresh_lines (concat ws)"
    using Cons.prems by (simp add: fresh_lines_def read_strings_append)
  then show ?case
    using Cons.IH [of "content @ w"] Cons.prems by (simp add: read_to_EOF_def Let_def)
qed (simp add: fresh_lines_def read_strings_def)

theorem follow_whole_lines_witness:
  "follow ''old'' 3 [''a'' @ [nl], ''b'' @ [nl] @ ''c'' @ [nl]] = fresh_lines (''a'' @ [nl] @ ''b'' @ [nl] @ ''c'' @ [nl])"
  using follow_whole_lines [of "[''a'' @ [nl], ''b'' @ [nl] @ ''c'' @ [nl]]" "''old''"]
  by (simp add: eval_nat_numeral del: follow.simps)

text \<open>
  A line that reaches the file in two writes is emitted as two lines: \<open>readUntilEOF\<close> emits
  what it has when it meets the end of the file instead of waiting for the rest of the line.
\<close>

theorem follow_splits_partial_lines:
  "follow [] 0 [''Steve joined'', '' the game'' @ [nl]] = [''Steve joined'', '' the game'']
   \<and> fresh_lines (''Steve joined'' @ '' the game'' @ [nl]) = [''Steve joined the game'']"
  by code_simp

end
