(* ===== verification/Gameplay.thy ===== *)
theory Gameplay
  imports LogTail
begin

text \<open>
  Gameplay events in log messages: \<open>internal/gameplay/death.go\<close> (chat, flying kicks, deaths)
  and \<open>toxicity.go\<close> (the word filter).
\<close>

datatype death_cause = CausePlayer | CauseMob | CauseFall | CauseDrown | CauseFire | CauseLava
  | CauseExplode | CauseSuffoc | CauseVoid | CauseStarve | CauseMagic | CauseOther

record death =
  d_Player :: string
  d_Cause :: death_cause
  d_Killer :: string
  d_RawTail :: string

definition is_word :: "char \<Rightarrow> bool" where
  "is_word c \<longleftrightarrow> is_upper c \<or> is_digit c \<or> c = CHR ''_'' \<or> (97 \<le> (of_char c :: nat) \<and> (of_char c :: nat) \<le> 122)"

text \<open>\<open>^<([^>]+)>\s+(.*)$\<close>\<close>

definition ChatMessage :: "string \<Rightarrow> (string \<times> string) option" where
  "ChatMessage m =
     Option.bind (strip_char CHR ''<'' m) (\<lambda>s1.
     Option.bind (strip_many1 (\<lambda>c. c \<noteq> CHR ''>'') s1) (\<lambda>(player, s2).
     Option.bind (strip_char CHR ''>'' s2) (\<lambda>s3.
     Option.bind (strip_many1 re_space s3) (\<lambda>(_, s4).
       if nl \<in> set s4 then None else Some (player, s4)))))"

text \<open>
  \<open>^([A-Za-z0-9_]{1,16})\<close> before a literal that starts with a blank: the group is the whole run
  of name bytes.
\<close>

definition player_name :: "string \<Rightarrow> bool" where
  "player_name w \<longleftrightarrow> w \<noteq> [] \<and> length w \<le> 16 \<and> list_all is_word w"

definition after_name :: "string \<Rightarrow> string \<Rightarrow> (string \<times> string) option" where
  "after_name lit m =
     (let name = takeWhile is_word m; rest = dropWhile is_word m
      in if player_name name \<and> HasPrefix rest lit then Some (name, drop (length lit) rest) else None)"

definition FlyingKick :: "string \<Rightarrow> string option" where
  "FlyingKick m =
     (case after_name '' lost connection: Flying is not enabled on this server'' m of
        None \<Rightarrow> None
      | Some (name, rest) \<Rightarrow> if rest \<noteq> [] \<and> is_word (rest ! 0) then None else Some name)"

text \<open>A pattern: the literal after the name, whether a killer's name must follow it, the cause.\<close>

definition deathPatterns :: "(string \<times> bool \<times> death_cause) list" where
  "deathPatterns =
     [('' was killed by magic'', False, CauseMagic),
      ('' was slain by '', True, CauseMob),
      ('' was shot by '', True, CauseMob),
      ('' was killed by '', True, CauseMob),
      ('' was blown up by '', True, CauseExplode),
      ('' fell from a high place'', False, CauseFall),
      ('' hit the ground too hard'', False, CauseFall),
      ('' drowned'', False, CauseDrown),
      ('' went up in flames'', False, CauseFire),
      ('' burned to death'', False, CauseFire),
      ('' tried to swim in lava'', False, CauseLava),
      ('' blew up'', False, CauseExplode),
      ('' suffocated in a wall'', False, CauseSuffoc),
      ('' fell out of the world'', False, CauseVoid),
      ('' starved to death'', False, CauseStarve),
      ('' was'', False, CauseOther)]"

definition match_death :: "string \<Rightarrow> string \<times> bool \<times> death_cause \<Rightarrow> death option" where
  "match_death m p =
     (case p of (lit, wants_killer, cause) \<Rightarrow>
        (case after_name lit m of
           None \<Rightarrow> None
         | Some (name, rest) \<Rightarrow>
             (let killer = take 16 (takeWhile is_word rest);
                  tail_text = TrimSpace (drop (length name) m)
              in if wants_killer then
                   if killer = [] then None
                   else Some \<lparr>d_Player = name, d_Cause = cause, d_Killer = killer, d_RawTail = tail_text\<rparr>
                 else Some \<lparr>d_Player = name, d_Cause = cause, d_Killer = [], d_RawTail = tail_text\<rparr>)))"

fun first_match :: "('a \<Rightarrow> 'b option) \<Rightarrow> 'a list \<Rightarrow> 'b option" where
  "first_match f [] = None"
| "first_match f (x # xs) = (case f x of None \<Rightarrow> first_match f xs | Some y \<Rightarrow> Some y)"

definition ParseDeath :: "string \<Rightarrow> death option" where
  "ParseDeath m = (if HasPrefix m ''<'' then None else first_match (match_death m) deathPatterns)"

lemma first_match_Some: "first_match f xs = Some y \<Longrightarrow> \<exists>x\<in>set xs. f x = Some y"
  by (induction xs) (auto split: option.splits)

lemma match_death_Some:
  assumes "match_death m (lit, wants_killer, cause) = Some d"
  shows "player_name (d_Player d) \<and> HasPrefix m (d_Player d @ lit) \<and> d_Cause d = cause
    \<and> (d_Killer d \<noteq> [] \<longleftrightarrow> wants_killer)"
proof -
  have "HasPrefix m (takeWhile is_word m @ lit)" if "HasPrefix (dropWhile is_word m) lit"
    using that unfolding HasPrefix_prefix by (metis append_assoc prefix_def takeWhile_dropWhile_id)
  then show ?thesis
    using assms by (auto simp: match_death_def after_name_def Let_def split: if_splits)
qed

text \<open>
  A reported death starts with a valid player name followed by one of the known phrases, a
  killer is named exactly for the phrases that end in one, and the cause \<open>player\<close> is never
  reported, although the type documents it for a death by another player.
\<close>

theorem ParseDeath_sound:
  assumes "ParseDeath m = Some d"
  shows "player_name (d_Player d) \<and> d_Cause d \<noteq> CausePlayer
    \<and> (\<exists>lit wk. (lit, wk, d_Cause d) \<in> set deathPatterns \<and> HasPrefix m (d_Player d @ lit) \<and> (d_Killer d \<noteq> [] \<longleftrightarrow> wk))"
proof -
  obtain lit wk cause where p: "(lit, wk, cause) \<in> set deathPatterns" "match_death m (lit, wk, cause) = Some d"
    using assms first_match_Some [of "match_death m" deathPatterns d] by (fastforce simp: ParseDeath_def split: if_splits)
  have "cause \<noteq> CausePlayer" using p(1) by (auto simp: deathPatterns_def)
  then show ?thesis using match_death_Some [OF p(2)] p(1) by blast
qed

theorem ParseDeath_sound_witness:
  "\<exists>d. ParseDeath ''Steve was slain by Zombie'' = Some d \<and> player_name (d_Player d) \<and> d_Killer d = ''Zombie''"
proof -
  let ?d = "\<lparr>d_Player = ''Steve'', d_Cause = CauseMob, d_Killer = ''Zombie'', d_RawTail = ''was slain by Zombie''\<rparr>"
  have "ParseDeath ''Steve was slain by Zombie'' = Some ?d" by code_simp
  from ParseDeath_sound [OF this] this show ?thesis by auto
qed

subsection \<open>The word filter\<close>

text \<open>
  One matcher per word, for words of lower-case letters and digits: the word's regular expression
  \<open>(?i)\b w1+ [\W_]* w2+ ... \b\<close>, as the list of suffixes it may stop at.  A word with any other
  byte is compiled unescaped; what that yields is the parameter \<open>other\<close>.
\<close>

definition eq_fold :: "char \<Rightarrow> char \<Rightarrow> bool" where
  "eq_fold c d \<longleftrightarrow> lower_char c = lower_char d"

definition filler :: "char \<Rightarrow> bool" where
  "filler c \<longleftrightarrow> \<not> is_word c \<or> c = CHR ''_''"

fun re_plus :: "char \<Rightarrow> string \<Rightarrow> string list" where
  "re_plus c [] = []"
| "re_plus c (d # s) = (if eq_fold c d then s # re_plus c s else [])"

fun re_star :: "(char \<Rightarrow> bool) \<Rightarrow> string \<Rightarrow> string list" where
  "re_star P [] = [[]]"
| "re_star P (d # s) = (d # s) # (if P d then re_star P s else [])"

fun word_ends :: "string \<Rightarrow> string \<Rightarrow> string list" where
  "word_ends [] s = [s]"
| "word_ends [c] s = re_plus c s"
| "word_ends (c # d # w) s =
     concat (map (\<lambda>r. concat (map (word_ends (d # w)) (re_star filler r))) (re_plus c s))"

text \<open>A word boundary: exactly one side is a word byte.\<close>

definition word_at :: "string \<Rightarrow> nat \<Rightarrow> bool" where
  "word_at s i \<longleftrightarrow> i < length s \<and> is_word (s ! i)"

definition boundary :: "string \<Rightarrow> nat \<Rightarrow> bool" where
  "boundary s i \<longleftrightarrow> (0 < i \<and> word_at s (i - 1)) \<noteq> word_at s i"

definition word_matches :: "string \<Rightarrow> string \<Rightarrow> bool" where
  "word_matches w text =
     list_ex (\<lambda>i. boundary text i \<and>
       list_ex (\<lambda>r. boundary text (length text - length r)) (word_ends w (drop i text))) [0..<Suc (length text)]"

definition plain_word :: "string \<Rightarrow> bool" where
  "plain_word w \<longleftrightarrow> list_all (\<lambda>c. is_word c \<and> \<not> is_upper c \<and> c \<noteq> CHR ''_'') w"

definition NewToxicityChecker :: "(string \<Rightarrow> (string \<Rightarrow> bool) option) \<Rightarrow> string list \<Rightarrow> (string \<Rightarrow> bool) list" where
  "NewToxicityChecker other words =
     concat (map (\<lambda>w. let w = ToLower (TrimSpace w)
                      in if w = [] then []
                         else if plain_word w then [word_matches w]
                         else case other w of None \<Rightarrow> [] | Some re \<Rightarrow> [re]) words)"

definition Match :: "(string \<Rightarrow> bool) list \<Rightarrow> string \<Rightarrow> bool" where
  "Match matchers text = list_ex (\<lambda>re. re text) matchers"

definition Empty :: "(string \<Rightarrow> bool) list \<Rightarrow> bool" where
  "Empty matchers \<longleftrightarrow> matchers = []"

text \<open>What the comment promises: each letter repeated, fillers between letters, any case.\<close>

inductive stretched :: "string \<Rightarrow> string \<Rightarrow> bool" where
  st_last: "xs \<noteq> [] \<Longrightarrow> list_all (eq_fold c) xs \<Longrightarrow> stretched [c] xs"
| st_more: "xs \<noteq> [] \<Longrightarrow> list_all (eq_fold c) xs \<Longrightarrow> list_all filler fs \<Longrightarrow> stretched (d # w) ys \<Longrightarrow>
     stretched (c # d # w) (xs @ fs @ ys)"

inductive_cases stretched_oneE: "stretched [c] s"
inductive_cases stretched_moreE: "stretched (c # d # w) s"

lemma re_plus_iff: "r \<in> set (re_plus c s) \<longleftrightarrow> (\<exists>xs. xs \<noteq> [] \<and> list_all (eq_fold c) xs \<and> s = xs @ r)"
proof (induction s)
  case (Cons d s)
  show ?case
  proof
    assume "r \<in> set (re_plus c (d # s))"
    then have d: "eq_fold c d" and "r = s \<or> r \<in> set (re_plus c s)" by (auto split: if_splits)
    then consider "r = s" | xs where "list_all (eq_fold c) xs" "s = xs @ r" using Cons.IH by auto
    then show "\<exists>xs. xs \<noteq> [] \<and> list_all (eq_fold c) xs \<and> d # s = xs @ r"
    proof cases
      case 1
      then show ?thesis using d by (intro exI [of _ "[d]"]) simp
    next
      case (2 xs)
      then show ?thesis using d by (intro exI [of _ "d # xs"]) simp
    qed
  next
    assume "\<exists>xs. xs \<noteq> [] \<and> list_all (eq_fold c) xs \<and> d # s = xs @ r"
    then obtain xs where "eq_fold c d" "list_all (eq_fold c) xs" "s = xs @ r" by (auto simp: Cons_eq_append_conv)
    then show "r \<in> set (re_plus c (d # s))" using Cons.IH by (cases xs) auto
  qed
qed simp

lemma re_star_iff: "r \<in> set (re_star P s) \<longleftrightarrow> (\<exists>xs. list_all P xs \<and> s = xs @ r)"
proof (induction s)
  case (Cons d s)
  have "(\<exists>xs. list_all P xs \<and> d # s = xs @ r) \<longleftrightarrow> r = d # s \<or> (P d \<and> (\<exists>xs. list_all P xs \<and> s = xs @ r))"
    by (auto simp: Cons_eq_append_conv intro: exI [of _ "d # _"])
  then show ?case using Cons.IH by auto
qed simp

lemma word_ends_iff: "w \<noteq> [] \<Longrightarrow> r \<in> set (word_ends w s) \<longleftrightarrow> (\<exists>x. stretched w x \<and> s = x @ r)"
proof (induction w s arbitrary: r rule: word_ends.induct)
  case (2 c s)
  then show ?case by (auto simp: re_plus_iff intro: st_last elim: stretched_oneE)
next
  case (3 c d w s)
  have "r \<in> set (word_ends (c # d # w) s) \<longleftrightarrow>
      (\<exists>xs fs x. xs \<noteq> [] \<and> list_all (eq_fold c) xs \<and> list_all filler fs \<and> stretched (d # w) x \<and> s = xs @ fs @ x @ r)"
    using "3.IH" by (fastforce simp: re_plus_iff re_star_iff)
  also have "\<dots> \<longleftrightarrow> (\<exists>x. stretched (c # d # w) x \<and> s = x @ r)"
    by (fastforce intro: st_more elim: stretched_moreE)
  finally show ?case .
qed simp

text \<open>
  A blacklisted word is found in a message exactly when the message contains, between two
  word boundaries, that word with its letters repeated any number of times, with any punctuation
  between them, in any case.
\<close>

theorem word_matches_iff:
  assumes "w \<noteq> []"
  shows "word_matches w text \<longleftrightarrow>
    (\<exists>pre x post. text = pre @ x @ post \<and> stretched w x \<and> boundary text (length pre) \<and> boundary text (length pre + length x))"
proof -
  have "word_matches w text \<longleftrightarrow>
      (\<exists>i\<le>length text. boundary text i \<and> (\<exists>x r. stretched w x \<and> drop i text = x @ r \<and> boundary text (length text - length r)))"
    unfolding word_matches_def list_ex_iff set_upt atLeastLessThan_iff less_Suc_eq_le Bex_def word_ends_iff [OF assms]
    by blast
  also have "\<dots> \<longleftrightarrow> (\<exists>pre x post. text = pre @ x @ post \<and> stretched w x \<and> boundary text (length pre)
      \<and> boundary text (length pre + length x))" (is "?L \<longleftrightarrow> ?R")
  proof
    assume ?L
    then obtain i x r where "i \<le> length text" "boundary text i" "stretched w x" "drop i text = x @ r"
        "boundary text (length text - length r)" by blast
    moreover from this have "text = take i text @ x @ r" by (metis append_take_drop_id)
    moreover from this have "length text - length r = i + length x"
      using \<open>i \<le> length text\<close> by (metis (no_types, lifting) add.assoc add_diff_cancel_right' length_append length_take min_absorb2)
    ultimately show ?R by (metis length_take min_absorb2)
  next
    assume ?R
    then obtain pre x post where p: "text = pre @ x @ post" "stretched w x" "boundary text (length pre)"
        "boundary text (length pre + length x)" by blast
    then have "drop (length pre) text = x @ post" "length text - length post = length pre + length x" by simp_all
    moreover have "length pre \<le> length text" using p(1) by simp
    ultimately show ?L using p by metis
  qed
  finally show ?thesis .
qed

theorem word_matches_iff_witness: "word_matches ''bad'' ''you BB.a__dd !''"
proof -
  have "word_matches ''bad'' ''you BB.a__dd !'' = True" by code_simp
  then have "\<exists>pre x post. ''you BB.a__dd !'' = pre @ x @ post \<and> stretched ''bad'' x \<and>
      boundary ''you BB.a__dd !'' (length pre) \<and> boundary ''you BB.a__dd !'' (length pre + length x)"
    using word_matches_iff [of "''bad''" "''you BB.a__dd !''"] by simp
  then show ?thesis using word_matches_iff [of "''bad''" "''you BB.a__dd !''"] by simp
qed

end
