(* ===== verification/SlotState.thy ===== *)
theory SlotState
  imports Discovery Config EventBus Gameplay
begin

text \<open>
  The data of a slot (\<open>internal/slot/state.go\<close>), the checks and parsers it uses
  (\<open>checkAccepts\<close>, \<open>parseXmxMB\<close>, \<open>featureBool\<close>, \<open>buildToxicityChecker\<close> of
  \<open>slot.go\<close>) and its gameplay detector (\<open>detectGameplayEvents\<close>).
\<close>

datatype state = StateIdle | StateMounting | StateStarting | StateRunning | StateStopping | StateCrashed | StateError

definition Terminal :: "state \<Rightarrow> bool" where
  "Terminal st \<longleftrightarrow> (case st of StateIdle \<Rightarrow> True | StateCrashed \<Rightarrow> True | StateError \<Rightarrow> True | _ \<Rightarrow> False)"

definition CanStartFrom :: "state \<Rightarrow> bool" where
  "CanStartFrom st \<longleftrightarrow> (case st of StateIdle \<Rightarrow> True | StateCrashed \<Rightarrow> True | StateError \<Rightarrow> True | _ \<Rightarrow> False)"

definition CanStopFrom :: "state \<Rightarrow> bool" where
  "CanStopFrom st \<longleftrightarrow> st = StateRunning \<or> st = StateStarting"

definition state_name :: "state \<Rightarrow> string" where
  "state_name st = (case st of
      StateIdle \<Rightarrow> ''idle'' | StateMounting \<Rightarrow> ''mounting'' | StateStarting \<Rightarrow> ''starting''
    | StateRunning \<Rightarrow> ''running'' | StateStopping \<Rightarrow> ''stopping'' | StateCrashed \<Rightarrow> ''crashed''
    | StateError \<Rightarrow> ''error'')"

record last_error =
  er_Code :: string
  er_Message :: string
  er_At :: time

record slp_info =
  si_Online :: bool
  si_PlayersOnline :: int
  si_PlayersMax :: int
  si_MOTD :: string
  si_LatencyMS :: int
  si_SampledAt :: time

subsection \<open>What a slot accepts\<close>

fun parseXmxMB :: "string list \<Rightarrow> int" where
  "parseXmxMB [] = 0"
| "parseXmxMB (a # args) =
     (if length a > 4 \<and> take 4 a = ''-Xmx'' then
        (let body = drop 4 a
         in if length body < 2 then parseXmxMB args
            else let unit = last body; numStr = butlast body
                 in case Atoi numStr of
                      None \<Rightarrow> parseXmxMB args
                    | Some n \<Rightarrow>
                        if unit \<in> set ''gG'' then wrap64 (n * 1024)
                        else if unit \<in> set ''mM'' then n
                        else if unit \<in> set ''kK'' then go_div n 1024
                        else parseXmxMB args)
      else parseXmxMB args)"

datatype accept_error = TypeNotAccepted string | TooMuchMemory int int

definition checkAccepts :: "slot_cfg \<Rightarrow> host_fs \<Rightarrow> server \<Rightarrow> accept_error option" where
  "checkAccepts a fs srv =
     (if sc_Types a \<noteq> [] \<and> srv_Type srv \<notin> set (sc_Types a) then Some (TypeNotAccepted (srv_Type srv))
      else if sc_MaxMemoryMB a > 0 then
        (case read_config (fs_config_io fs (srv_Path srv)) (srv_Path srv) (fs_configs fs) of
           Inl _ \<Rightarrow> None
         | Inr cfg \<Rightarrow>
             (let mb = parseXmxMB (cfg_JavaArgs cfg)
              in if mb > 0 \<and> mb > sc_MaxMemoryMB a then Some (TooMuchMemory mb (sc_MaxMemoryMB a)) else None))
      else None)"

subsection \<open>Feature flags\<close>

definition featureBool :: "(string \<rightharpoonup> yaml) option \<Rightarrow> string \<Rightarrow> bool \<Rightarrow> bool" where
  "featureBool features key def =
     (case features of None \<Rightarrow> def
      | Some m \<Rightarrow>
          (case m key of
             None \<Rightarrow> def
           | Some (YBool v) \<Rightarrow> v
           | Some (YString v) \<Rightarrow> v = ''true''
           | Some _ \<Rightarrow> def))"

fun yaml_strings :: "yaml list \<Rightarrow> string list" where
  "yaml_strings [] = []"
| "yaml_strings (YString s # ys) = s # yaml_strings ys"
| "yaml_strings (_ # ys) = yaml_strings ys"

definition buildToxicityChecker ::
    "(string \<Rightarrow> (string \<Rightarrow> bool) option) \<Rightarrow> config \<Rightarrow> (string \<Rightarrow> bool) list" where
  "buildToxicityChecker other cfg =
     (case cfg_Features cfg of
        None \<Rightarrow> NewToxicityChecker other []
      | Some m \<Rightarrow>
          (case m ''anti_toxicity_words'' of
             Some (YList ws) \<Rightarrow> NewToxicityChecker other (yaml_strings ws)
           | _ \<Rightarrow> NewToxicityChecker other []))"

subsection \<open>The gameplay detector\<close>

datatype game_action =
    Publish event
  | WarnToxic string      \<comment> \<open>\<open>runToxicityAction\<close>\<close>
  | BanFlying string      \<comment> \<open>\<open>runFlyingBan\<close>\<close>
  | NotifyDiscord string

definition joined_suffix :: string where "joined_suffix = '' joined the game''"
definition left_suffix :: string where "left_suffix = '' left the game''"

definition game_event :: "event_type \<Rightarrow> time \<Rightarrow> string \<Rightarrow> event" where
  "game_event ty at player = (blank_event ty)\<lparr>ev_At := at, ev_Player := player\<rparr>"

definition cause_name :: "death_cause \<Rightarrow> string" where
  "cause_name c = (case c of CausePlayer \<Rightarrow> ''player'' | CauseMob \<Rightarrow> ''mob'' | CauseFall \<Rightarrow> ''fall''
     | CauseDrown \<Rightarrow> ''drown'' | CauseFire \<Rightarrow> ''fire'' | CauseLava \<Rightarrow> ''lava'' | CauseExplode \<Rightarrow> ''explode''
     | CauseSuffoc \<Rightarrow> ''suffoc'' | CauseVoid \<Rightarrow> ''void'' | CauseStarve \<Rightarrow> ''starve'' | CauseMagic \<Rightarrow> ''magic''
     | CauseOther \<Rightarrow> ''other'')"

text \<open>The emoji in front of a death that is sent to Discord, in UTF-8.\<close>

definition skull :: string where "skull = [CHR 0xF0, CHR 0x9F, CHR 0x92, CHR 0x80, CHR '' '']"

text \<open>The body of the loop for one log entry: the actions it takes, in order.\<close>

definition detect_entry :: "(string \<Rightarrow> bool) list \<Rightarrow> bool \<Rightarrow> bool \<Rightarrow> log_entry \<Rightarrow> game_action list" where
  "detect_entry tox banFlying emitDeath e =
     (let msg = le_Message e; at = le_TS e
      in if le_Level e \<noteq> ''INFO'' \<or> le_Thread e \<noteq> ''Server thread'' then []
         else if length msg > 17 \<and> HasSuffix msg joined_suffix then
           [Publish (game_event TypePlayerJoin at (take (length msg - length joined_suffix) msg))]
         else if length msg > 15 \<and> HasSuffix msg left_suffix then
           [Publish (game_event TypePlayerLeave at (take (length msg - length left_suffix) msg))]
         else case ChatMessage msg of
           Some (player, txt) \<Rightarrow>
             (if \<not> Empty tox then [Publish ((game_event TypeChat at player)\<lparr>ev_Message := txt\<rparr>)] else [])
             @ (if \<not> Empty tox \<and> Match tox txt then [WarnToxic player] else [])
         | None \<Rightarrow>
         (case (if banFlying then FlyingKick msg else None) of
           Some player \<Rightarrow> [Publish ((game_event TypePlayerKick at player)\<lparr>ev_Reason := ''flying''\<rparr>), BanFlying player]
         | None \<Rightarrow>
         (case (if emitDeath then ParseDeath msg else None) of
           Some d \<Rightarrow>
             [Publish ((game_event TypePlayerDeath at (d_Player d))\<lparr>ev_Killer := d_Killer d,
                ev_Cause := cause_name (d_Cause d), ev_Message := msg\<rparr>), NotifyDiscord (skull @ msg)]
         | None \<Rightarrow> [])))"

definition detectGameplayEvents ::
    "(string \<Rightarrow> (string \<Rightarrow> bool) option) \<Rightarrow> config \<Rightarrow> log_entry list \<Rightarrow> game_action list" where
  "detectGameplayEvents other cfg es =
     (let tox = buildToxicityChecker other cfg;
          banFlying = featureBool (cfg_Features cfg) ''ban_flying'' False;
          emitDeath = featureBool (cfg_Features cfg) ''death_messages'' True
      in concat (map (detect_entry tox banFlying emitDeath) es))"

text \<open>The RCON command of an action, sent when a client is connected.\<close>

definition action_command :: "game_action \<Rightarrow> string option" where
  "action_command a =
     (case a of
        WarnToxic player \<Rightarrow>
          Some (''tellraw '' @ player @ '' {'' @ [dquote] @ ''text'' @ [dquote] @ '':'' @ [dquote] @
            ''[mcsm] Watch your language.'' @ [dquote] @ '','' @ [dquote] @ ''color'' @ [dquote] @ '':'' @
            [dquote] @ ''red'' @ [dquote] @ ''}'')
      | BanFlying player \<Rightarrow> Some (''ban '' @ player @ '' Flying not allowed'')
      | _ \<Rightarrow> None)"

subsection \<open>Properties\<close>

text \<open>
  The slot's constraints hold of every server it accepts: its type is one of the accepted
  ones when any are given, and the heap it asks for is within the limit, for every configuration
  whose \<open>-Xmx<n>g\<close> stays below \<open>2^53\<close> gigabytes.
\<close>

theorem checkAccepts_sound:
  assumes "checkAccepts a fs srv = None"
    and "read_config (fs_config_io fs (srv_Path srv)) (srv_Path srv) (fs_configs fs) = Inr cfg"
    and "cfg_JavaArgs cfg = [''-Xmx'' @ Itoa n @ [u]]" and "0 < n" and "n < 2 ^ 53"
    and "u \<in> set ''gGmM''" and "0 < sc_MaxMemoryMB a"
  shows "(sc_Types a = [] \<or> srv_Type srv \<in> set (sc_Types a))
    \<and> (if u \<in> set ''gG'' then n * 1024 else n) \<le> sc_MaxMemoryMB a"
proof -
  have "in_int64 n" using assms(4,5) by (simp add: in_int64_def)
  then have n: "Atoi (Itoa n) = Some n" "Itoa n \<noteq> []" "in_int64 (n * 1024)"
    using assms(4,5) Atoi_Itoa [of n] by (simp_all add: in_int64_def Itoa_def)
  have "parseXmxMB [''-Xmx'' @ Itoa n @ [u]] = (if u \<in> set ''gG'' then n * 1024 else n)"
    using n assms(6) by (auto simp: Let_def butlast_append)
  then show ?thesis
    using assms by (auto simp: checkAccepts_def Let_def split: if_splits)
qed

definition xmx_fs :: "string \<Rightarrow> host_fs" where
  "xmx_fs arg = demo_fs\<lparr>fs_configs := (\<lambda>_. Some (Holds \<lparr>cfg_ID = ''id'', cfg_Name = ''n'', cfg_Type = FlavorPaper,
     cfg_JavaArgs = [arg], cfg_Features = None, cfg_DiscordToken = [], cfg_DiscordChannels = []\<rparr>))\<rparr>"

definition paper_server :: server where
  "paper_server = \<lparr>srv_ID = ''id'', srv_Name = ''n'', srv_Type = FlavorPaper, srv_Path = ''/srv/a'', srv_Root = ''/srv'',
     srv_LevelName = [], srv_Ownership = \<lparr>ow_State = StateFree, ow_Owner = None\<rparr>\<rparr>"

definition capped_slot :: slot_cfg where
  "capped_slot = (demo_slot ''a'' 25565)\<lparr>sc_Types := [FlavorPaper], sc_MaxMemoryMB := 4096\<rparr>"

lemma read_xmx: "read_config (fs_config_io (xmx_fs arg) p) p (fs_configs (xmx_fs arg)) =
    Inr \<lparr>cfg_ID = ''id'', cfg_Name = ''n'', cfg_Type = FlavorPaper, cfg_JavaArgs = [arg],
      cfg_Features = None, cfg_DiscordToken = [], cfg_DiscordChannels = []\<rparr>"
  by (simp add: xmx_fs_def demo_fs_def read_config_def)

theorem checkAccepts_sound_witness:
  "srv_Type paper_server \<in> set (sc_Types capped_slot) \<and> (2 :: int) * 1024 \<le> sc_MaxMemoryMB capped_slot"
proof -
  have i: "Itoa 2 = ''2''" by code_simp
  have p: "parseXmxMB [''-Xmx2g''] = 2048" by code_simp
  have a: "checkAccepts capped_slot (xmx_fs (''-Xmx'' @ Itoa 2 @ ''g'')) paper_server = None"
    using p by (simp add: checkAccepts_def read_xmx i capped_slot_def paper_server_def Let_def del: parseXmxMB.simps)
  show ?thesis
    using checkAccepts_sound [OF a read_xmx, of 2 "CHR ''g''"] by (simp add: capped_slot_def)
qed

text \<open>
  The memory limit can be passed by asking for enough: a heap of 9007199254740992 gigabytes
  is multiplied by 1024 in a 64-bit integer, wraps to a negative number, and is accepted by a slot
  that allows 4096 megabytes.
\<close>

theorem memory_cap_overflow:
  "parseXmxMB [''-Xmx9007199254740992g''] < 0
   \<and> checkAccepts capped_slot (xmx_fs ''-Xmx9007199254740992g'') paper_server = None"
proof -
  have p: "parseXmxMB [''-Xmx9007199254740992g''] = - (2 ^ 63)" by code_simp
  show ?thesis
    using p by (simp add: checkAccepts_def read_xmx capped_slot_def paper_server_def Let_def del: parseXmxMB.simps)
qed

lemma HasSuffix_append [simp]: "HasSuffix (s @ x) x"
  by (simp add: HasSuffix_def)

lemma detect_join:
  assumes "le_Level e = ''INFO''" and "le_Thread e = ''Server thread''"
    and "le_Message e = p @ joined_suffix" and "1 < length p"
  shows "detect_entry tox banFlying emitDeath e = [Publish (game_event TypePlayerJoin (le_TS e) p)]"
proof -
  have "length joined_suffix = 16" by (simp add: joined_suffix_def)
  then have "17 < length (p @ joined_suffix)" using assms(4) by simp
  then show ?thesis unfolding detect_entry_def Let_def assms(1-3) by simp
qed

lemma detect_other:
  "le_Level e \<noteq> ''INFO'' \<or> le_Thread e \<noteq> ''Server thread'' \<Longrightarrow> detect_entry tox banFlying emitDeath e = []"
  by (auto simp: detect_entry_def)

text \<open>
  A join reaches the bus.  The log line a server writes when a player joins is parsed and
  detected as exactly one join event, of that player, at the time of the line, whatever features
  are configured; and no line of another level or thread causes any action.
\<close>

theorem join_line_detected:
  assumes "player_name p" and "1 < length p" and "0 \<le> secs" and "secs < 86400"
  shows "detect_entry tox banFlying emitDeath
       (Parse zone (server_line secs ''Server thread'' ''INFO'' (p @ joined_suffix)) captured)
     = [Publish (game_event TypePlayerJoin (mergeTime zone captured (show_hms secs)) p)]
   \<and> (le_Level e \<noteq> ''INFO'' \<or> le_Thread e \<noteq> ''Server thread'' \<longrightarrow> detect_entry tox banFlying emitDeath e = [])"
proof -
  have p: "p \<noteq> []" "list_all is_word p" using assms(1) by (auto simp: player_name_def)
  then have ws: "is_word (p ! 0)" by (cases p) auto
  then have "\<not> re_space (p ! 0)" by (auto simp: re_space_def is_word_def is_upper_def is_digit_def)
  then have d: "dropWhile re_space (p @ joined_suffix) = p @ joined_suffix" using p by (cases p) auto
  have nl: "nl \<notin> set (p @ joined_suffix)"
    using p by (auto simp: joined_suffix_def list_all_iff is_word_def is_upper_def is_digit_def)
  have l: "last (p @ joined_suffix) \<noteq> cr" by (simp add: joined_suffix_def)
  have parse: "Parse zone (server_line secs ''Server thread'' ''INFO'' (p @ joined_suffix)) captured =
      \<lparr>le_TS = mergeTime zone captured (show_hms secs), le_Thread = ''Server thread'', le_Level = ''INFO'',
       le_Message = p @ joined_suffix, le_Raw = server_line secs ''Server thread'' ''INFO'' (p @ joined_suffix)\<rparr>"
    using Parse_server_line [OF assms(3,4) _ _ _ _ _ nl, of "''Server thread''" "''INFO''"] l d
    by (simp add: is_upper_def)
  show ?thesis
    unfolding parse using detect_join [where p = p] detect_other assms(2) by simp
qed

theorem join_line_detected_witness:
  "detect_entry [] False True (Parse 0 (server_line 5 ''Server thread'' ''INFO'' (''Steve'' @ joined_suffix)) 0)
     = [Publish (game_event TypePlayerJoin (mergeTime 0 0 (show_hms 5)) ''Steve'')]"
  by (rule conjunct1, rule join_line_detected) (simp_all add: player_name_def is_word_def is_upper_def)

text \<open>
  Players can forge joins.  The thread and level are meant to keep chat that contains the
  phrase from being taken for a join; but a server that logs chat on its main thread logs the
  message \<open>Bob joined the game\<close> of the player Eve as a line that is detected as a join, and not as
  chat, so that the word filter does not see it either.
\<close>

theorem chat_forges_join:
  "detect_entry tox banFlying emitDeath
       (Parse zone (server_line 43201 ''Server thread'' ''INFO'' ''<Eve> Bob joined the game'') captured)
     = [Publish (game_event TypePlayerJoin (mergeTime zone captured (show_hms 43201)) ''<Eve> Bob'')]"
proof -
  have m: "''<Eve> Bob joined the game'' = ''<Eve> Bob'' @ joined_suffix" by (simp add: joined_suffix_def)
  have parse: "Parse zone (server_line 43201 ''Server thread'' ''INFO'' (''<Eve> Bob'' @ joined_suffix)) captured =
      \<lparr>le_TS = mergeTime zone captured (show_hms 43201), le_Thread = ''Server thread'', le_Level = ''INFO'',
       le_Message = ''<Eve> Bob'' @ joined_suffix,
       le_Raw = server_line 43201 ''Server thread'' ''INFO'' (''<Eve> Bob'' @ joined_suffix)\<rparr>"
    by (subst Parse_server_line) (simp_all add: is_upper_def joined_suffix_def re_space_def)
  show ?thesis
    unfolding m parse by (subst detect_join [where p = "''<Eve> Bob''"]) simp_all
qed

end
