(* ===== verification/RingBuffer.thy ===== *)
theory RingBuffer
  imports History
begin

text \<open>
  The ring buffer of captured output lines, \<open>internal/process/ringbuf.go\<close>.  The buffer is an
  array of fixed length with the index of the next write and a flag that says whether the writes
  have wrapped; \<open>Tail n\<close> reads the \<open>n\<close> most recent lines, oldest first.
\<close>

record log_line =
  ll_at :: time
  ll_stream :: string
  ll_text :: string

definition zero_line :: log_line where
  "zero_line = \<lparr>ll_at = 0, ll_stream = [], ll_text = []\<rparr>"

record ring_buffer =
  rb_data :: "log_line list"
  rb_head :: nat
  rb_full :: bool
  rb_cap :: nat

definition newRingBuffer :: "int \<Rightarrow> ring_buffer" where
  "newRingBuffer capacity =
     (let capacity = (if capacity < 1 then 1 else capacity)
      in \<lparr>rb_data = replicate (nat capacity) zero_line, rb_head = 0, rb_full = False,
          rb_cap = nat capacity\<rparr>)"

definition rb_push :: "log_line \<Rightarrow> ring_buffer \<Rightarrow> ring_buffer" where
  "rb_push l r =
     (let r1 = r\<lparr>rb_data := (rb_data r)[rb_head r := l],
                 rb_head := (rb_head r + 1) mod rb_cap r\<rparr>
      in if rb_head r1 = 0 then r1\<lparr>rb_full := True\<rparr> else r1)"

definition rb_Tail :: "int \<Rightarrow> ring_buffer \<Rightarrow> log_line list" where
  "rb_Tail n r =
     (let have_n = (if \<not> rb_full r then int (rb_head r) else int (rb_cap r));
          n = (if n > have_n then have_n else n)
      in if n \<le> 0 then []
         else let start = (int (rb_head r) - n + int (rb_cap r)) mod int (rb_cap r)
              in map (\<lambda>i. rb_data r ! nat ((start + int i) mod int (rb_cap r))) [0..<nat n])"

text \<open>
  \<open>pump\<close> pushes every line the scanner yields, with the stream's label; the scanner's lines
  and the clock reading of each are the arguments.
\<close>

definition pump :: "string \<Rightarrow> (time \<times> string) list \<Rightarrow> ring_buffer \<Rightarrow> ring_buffer" where
  "pump stream ls r =
     fold (\<lambda>(now, txt). rb_push \<lparr>ll_at = now, ll_stream = stream, ll_text = txt\<rparr>) ls r"

subsection \<open>The invariant and the lines the buffer holds\<close>

definition rb_ok :: "ring_buffer \<Rightarrow> bool" where
  [inv_defs]: "rb_ok r \<longleftrightarrow> length (rb_data r) = rb_cap r \<and> rb_head r < rb_cap r"

definition rb_view :: "ring_buffer \<Rightarrow> log_line list" where
  "rb_view r =
     (if rb_full r then drop (rb_head r) (rb_data r) @ take (rb_head r) (rb_data r)
      else take (rb_head r) (rb_data r))"

lemma rb_ok_new: "rb_ok (newRingBuffer c)"
  by (simp add: newRingBuffer_def inv_defs Let_def)

lemma rb_view_new: "rb_view (newRingBuffer c) = []"
  by (simp add: newRingBuffer_def rb_view_def Let_def)

lemma rb_cap_new: "rb_cap (newRingBuffer c) = nat (max 1 c)"
  by (simp add: newRingBuffer_def Let_def)

lemma rb_ok_push: "rb_ok r \<Longrightarrow> rb_ok (rb_push l r)"
  by (auto simp: rb_push_def inv_defs Let_def)

lemma rb_cap_push [simp]: "rb_cap (rb_push l r) = rb_cap r"
  by (simp add: rb_push_def Let_def)

lemma rb_view_push_wrap:
  assumes "rb_ok r" and "rb_head r + 1 = rb_cap r"
  shows "rb_view (rb_push l r) = last_n (rb_cap r) (rb_view r @ [l])"
proof -
  let ?h = "rb_head r" and ?d = "rb_data r"
  have len: "length ?d = Suc ?h" using assms by (simp add: inv_defs)
  then have d: "?d = take ?h ?d @ [?d ! ?h]"
    by (metis lessI take_Suc_conv_app_nth take_all order_refl)
  have upd: "?d[?h := l] = take ?h ?d @ [l]"
    using len by (simp add: upd_conv_take_nth_drop)
  have new: "rb_view (rb_push l r) = take ?h ?d @ [l]"
    using assms len by (simp add: rb_push_def rb_view_def Let_def upd inv_defs)
  have dr: "drop ?h ?d = [?d ! ?h]"
    using len by (simp add: Cons_nth_drop_Suc [symmetric])
  show ?thesis
    unfolding new using assms(2) len by (auto simp: rb_view_def dr last_n_def)
qed

lemma rb_view_push_step:
  assumes "rb_ok r" and "rb_head r + 1 < rb_cap r"
  shows "rb_view (rb_push l r) = last_n (rb_cap r) (rb_view r @ [l])"
proof -
  let ?h = "rb_head r" and ?d = "rb_data r"
  have len: "Suc ?h < length ?d" "length ?d = rb_cap r" using assms by (simp_all add: inv_defs)
  have upd: "?d[?h := l] = take ?h ?d @ [l] @ drop (Suc ?h) ?d"
    using len by (simp add: upd_conv_take_nth_drop)
  have t: "take (Suc ?h) (?d[?h := l]) = take ?h ?d @ [l]"
    using len by (simp add: upd)
  have dr: "drop (Suc ?h) (?d[?h := l]) = drop (Suc ?h) ?d"
    by simp
  have dh: "drop ?h ?d = ?d ! ?h # drop (Suc ?h) ?d"
    using len by (simp add: Cons_nth_drop_Suc)
  have new: "rb_view (rb_push l r) =
      (if rb_full r then drop (Suc ?h) ?d @ take ?h ?d @ [l] else take ?h ?d @ [l])"
    using assms len t dr by (auto simp: rb_push_def rb_view_def Let_def)
  show ?thesis
    unfolding new using len by (auto simp: rb_view_def dh last_n_def)
qed

lemma rb_view_push:
  assumes "rb_ok r"
  shows "rb_view (rb_push l r) = last_n (rb_cap r) (rb_view r @ [l])"
proof (cases "rb_head r + 1 = rb_cap r")
  case True
  then show ?thesis by (rule rb_view_push_wrap [OF assms])
next
  case False
  then have "rb_head r + 1 < rb_cap r" using assms by (simp add: inv_defs)
  then show ?thesis by (rule rb_view_push_step [OF assms])
qed

lemma rb_view_bound: "rb_ok r \<Longrightarrow> length (rb_view r) \<le> rb_cap r"
  by (auto simp: rb_view_def inv_defs)

interpretation ring: recent_history rb_cap rb_view rb_push rb_ok
  by unfold_locales (simp_all add: rb_ok_push rb_view_push rb_view_bound)

subsection \<open>Reading\<close>

lemma rb_view_nth:
  assumes "rb_ok r" and "rb_full r" and "i < rb_cap r"
  shows "rb_view r ! i = rb_data r ! ((rb_head r + i) mod rb_cap r)"
proof (cases "rb_head r + i < rb_cap r")
  case True
  then show ?thesis using assms by (simp add: rb_view_def inv_defs nth_append)
next
  case False
  moreover have "rb_head r + i < rb_cap r + rb_cap r" using assms by (simp add: inv_defs)
  ultimately have "(rb_head r + i) mod rb_cap r = rb_head r + i - rb_cap r"
    by (simp add: mod_if)
  then show ?thesis
    using assms False by (simp add: rb_view_def inv_defs nth_append) (simp add: add.commute)
qed

lemma rb_Tail_last_n:
  assumes ok: "rb_ok r"
  shows "rb_Tail n r = last_n (nat n) (rb_view r)"
proof -
  let ?have = "if \<not> rb_full r then rb_head r else rb_cap r"
  have len: "length (rb_view r) = ?have"
    using ok by (auto simp: rb_view_def inv_defs)
  define m where "m = min (nat n) ?have"
  have cap0: "0 < rb_cap r" and head: "rb_head r < rb_cap r" "length (rb_data r) = rb_cap r"
    using ok by (simp_all add: inv_defs)
  have mle: "m \<le> rb_cap r" using head by (simp add: m_def min_def)
  have start: "(int (rb_head r) - int m + int (rb_cap r)) mod int (rb_cap r)
      = int ((rb_head r + rb_cap r - m) mod rb_cap r)"
    using mle by (simp add: of_nat_mod algebra_simps)
  have idx: "nat ((int s mod int (rb_cap r) + int i) mod int (rb_cap r)) = (s + i) mod rb_cap r"
    for s i
  proof -
    have "(int s mod int (rb_cap r) + int i) mod int (rb_cap r) = int ((s + i) mod rb_cap r)"
      by (simp add: mod_add_left_eq of_nat_mod)
    then show ?thesis by simp
  qed
  have tail: "rb_Tail n r =
      map (\<lambda>i. rb_data r ! ((rb_head r + rb_cap r - m + i) mod rb_cap r)) [0..<m]"
  proof (cases "n \<le> 0 \<or> ?have = 0")
    case True
    then show ?thesis by (auto simp: rb_Tail_def Let_def m_def)
  next
    case False
    then have n': "(if n > (if \<not> rb_full r then int (rb_head r) else int (rb_cap r))
        then (if \<not> rb_full r then int (rb_head r) else int (rb_cap r)) else n) = int m"
      by (auto simp: m_def)
    have "0 < m" using False by (simp add: m_def)
    then show ?thesis
      unfolding rb_Tail_def Let_def n' start
      using idx [of "rb_head r + rb_cap r - m"] by (simp add: of_nat_mod)
  qed
  have elem: "rb_data r ! ((rb_head r + rb_cap r - m + i) mod rb_cap r) = rb_view r ! (?have - m + i)"
    if "i < m" for i
  proof (cases "rb_full r")
    case True
    then have "rb_view r ! (?have - m + i) = rb_data r ! ((rb_head r + (rb_cap r - m + i)) mod rb_cap r)"
      using that mle by (simp add: rb_view_nth [OF ok])
    then show ?thesis using mle by (simp add: add.assoc)
  next
    case False
    then have mh: "m \<le> rb_head r" by (simp add: m_def)
    have "(rb_head r + rb_cap r - m + i) = (rb_head r - m + i) + rb_cap r"
      using mh by simp
    then have "(rb_head r + rb_cap r - m + i) mod rb_cap r = rb_head r - m + i"
      using that mh head by (simp only: mod_add_self2) simp
    then show ?thesis
      using False that mh by (simp add: rb_view_def)
  qed
  have "last_n (nat n) (rb_view r) = drop (?have - m) (rb_view r)"
    by (simp add: last_n_def len m_def min_def)
  moreover have "length (drop (?have - m) (rb_view r)) = m"
    by (simp add: len m_def)
  ultimately have "length (last_n (nat n) (rb_view r)) = m"
    and "last_n (nat n) (rb_view r) ! i = rb_view r ! (?have - m + i)" for i
    by (simp_all add: len)
  then show ?thesis
    using elem by (auto simp: tail intro: nth_equalityI)
qed

lemma pump_fold:
  "pump stream ls r =
     fold rb_push (map (\<lambda>(now, txt). \<lparr>ll_at = now, ll_stream = stream, ll_text = txt\<rparr>) ls) r"
  by (induction ls arbitrary: r) (auto simp: pump_def)

text \<open>
  Capturing any lines in a fresh buffer of the given capacity and then asking for the
  \<open>n\<close> most recent gives the last \<open>n\<close> of the last \<open>capacity\<close> captured lines, oldest
  first: nothing is reordered or duplicated, and nothing within the capacity is lost.
\<close>

theorem ring_tail_is_recent_output:
  "rb_Tail n (fold rb_push ls (newRingBuffer c)) = last_n (nat n) (last_n (nat (max 1 c)) ls)"
  by (simp add: rb_Tail_last_n ring.ok_fold rb_ok_new ring.view_fold rb_view_new rb_cap_new)

end
