(* ===== verification/Process.thy ===== *)
theory Process
  imports RingBuffer
begin

text \<open>
  The supervised child process, \<open>internal/process/process.go\<close>: how an exit is classified and
  published on the exit channel, what its readers get, the two-stage termination, and the
  environment of the child.  The kernel's part (spawning, signals, waiting) is an argument: the
  result of the wait, the error of the signals, and which arm of each \<open>select\<close> fires.
\<close>

datatype wait_result =
    WaitOk
  | WaitExited int              \<comment> \<open>an \<open>exec.ExitError\<close> with this exit status\<close>
  | WaitSignaled int            \<comment> \<open>an \<open>exec.ExitError\<close> of a process killed by this signal\<close>
  | WaitFailed go_error

datatype exit_reason = ReasonNone | ReasonNormal | ReasonKilled | ReasonCrashed

record exit_info =
  ei_ExitCode :: int
  ei_Signal :: "int option"
  ei_Err :: "go_error option"
  ei_At :: time
  ei_Reason :: exit_reason

definition zero_exit_info :: exit_info where
  "zero_exit_info = \<lparr>ei_ExitCode = 0, ei_Signal = None, ei_Err = None, ei_At = 0, ei_Reason = ReasonNone\<rparr>"

definition classify_exit :: "time \<Rightarrow> wait_result \<Rightarrow> exit_info" where
  "classify_exit now w =
     (let info = zero_exit_info\<lparr>ei_At := now\<rparr>
      in case w of
           WaitOk \<Rightarrow> info\<lparr>ei_ExitCode := 0, ei_Reason := ReasonNormal\<rparr>
         | WaitSignaled sig \<Rightarrow> info\<lparr>ei_ExitCode := -1, ei_Signal := Some sig, ei_Reason := ReasonKilled\<rparr>
         | WaitExited code \<Rightarrow>
             info\<lparr>ei_ExitCode := code, ei_Reason := (if code = 0 then ReasonNormal else ReasonCrashed)\<rparr>
         | WaitFailed e \<Rightarrow> info\<lparr>ei_Err := Some e, ei_ExitCode := -1, ei_Reason := ReasonCrashed\<rparr>)"

record process =
  pr_pid :: int
  pr_logs :: ring_buffer
  pr_exitInfo :: "exit_info option"
  pr_exitCh :: "exit_info list"     \<comment> \<open>the buffer, of capacity 1\<close>
  pr_chClosed :: bool

definition Exited :: "process \<Rightarrow> exit_info \<times> bool" where
  "Exited p = (case pr_exitInfo p of None \<Rightarrow> (zero_exit_info, False) | Some i \<Rightarrow> (i, True))"

definition Logs :: "int \<Rightarrow> process \<Rightarrow> log_line list" where
  "Logs n p = rb_Tail n (pr_logs p)"

definition waitAndPublish :: "time \<Rightarrow> wait_result \<Rightarrow> process \<Rightarrow> process" where
  "waitAndPublish now w p =
     (let info = classify_exit now w
      in p\<lparr>pr_exitInfo := Some info, pr_exitCh := pr_exitCh p @ [info], pr_chClosed := True\<rparr>)"

text \<open>Receiving from the exit channel: \<open>None\<close> blocks.\<close>

definition recv_exit :: "process \<Rightarrow> (exit_info \<times> process) option" where
  "recv_exit p =
     (case pr_exitCh p of
        i # is \<Rightarrow> Some (i, p\<lparr>pr_exitCh := is\<rparr>)
      | [] \<Rightarrow> if pr_chClosed p then Some (zero_exit_info, p) else None)"

datatype signal = SIGTERM | SIGKILL

datatype arm = ArmExit | ArmTimer | ArmCtx go_error

datatype term_error = SigtermFailed go_error | RefusedToDie | CtxError go_error

text \<open>
  The result is the error, the process and the signals sent; \<open>None\<close> when the chosen arm of a
  \<open>select\<close> cannot fire, as nothing can be received from the exit channel yet.  Between the two
  selects the process may have exited: \<open>p2\<close> is the process as the second one finds it.
\<close>

definition Terminate ::
    "go_error option \<Rightarrow> arm \<Rightarrow> (process \<Rightarrow> process) \<Rightarrow> arm \<Rightarrow> process \<Rightarrow>
     (term_error option \<times> process \<times> signal list) option" where
  "Terminate sigterm arm1 meanwhile arm2 p =
     (if snd (Exited p) then Some (None, p, [])
      else case sigterm of
             Some e \<Rightarrow> Some (Some (SigtermFailed e), p, [])
           | None \<Rightarrow>
               (let p1 = meanwhile p
                in case arm1 of
                     ArmExit \<Rightarrow> map_option (\<lambda>(_, p'). (None, p', [SIGTERM])) (recv_exit p1)
                   | ArmCtx e \<Rightarrow> Some (Some (CtxError e), p1, [SIGTERM])
                   | ArmTimer \<Rightarrow>
                       (let p2 = meanwhile p1
                        in case arm2 of
                             ArmExit \<Rightarrow> map_option (\<lambda>(_, p'). (None, p', [SIGTERM, SIGKILL])) (recv_exit p2)
                           | ArmTimer \<Rightarrow> Some (Some RefusedToDie, p2, [SIGTERM, SIGKILL])
                           | ArmCtx e \<Rightarrow> Some (Some (CtxError e), p2, [SIGTERM, SIGKILL]))))"

definition mergeEnv :: "string list \<Rightarrow> (string \<times> string) list \<Rightarrow> string list" where
  "mergeEnv parent overlay =
     (if overlay = [] then parent else parent @ map (\<lambda>(k, v). k @ ''='' @ v) overlay)"

subsection \<open>Starting and signalling\<close>

record proc_spec =
  psp_Dir :: string
  psp_Command :: string
  psp_Args :: "string list"
  psp_Env :: "(string \<times> string) list"
  psp_LogCapBuf :: int

text \<open>What is handed to the kernel; the child leads a process group of its own.\<close>

record proc_cmd =
  cm_Path :: string
  cm_Args :: "string list"
  cm_Dir :: string
  cm_Env :: "string list"
  cm_Setpgid :: bool

datatype proc_start_error = StdoutPipeFails go_error | StderrPipeFails go_error | StartFails go_error

definition proc_Start ::
  "string list \<Rightarrow> go_error option \<Rightarrow> go_error option \<Rightarrow> (proc_cmd \<Rightarrow> go_error + int) \<Rightarrow> proc_spec \<Rightarrow> proc_start_error + process" where
  "proc_Start environ stdout_pipe stderr_pipe exec sp =
     (let cap = (if psp_LogCapBuf sp \<le> 0 then 2000 else psp_LogCapBuf sp);
          cmd = \<lparr>cm_Path = psp_Command sp, cm_Args = psp_Args sp, cm_Dir = psp_Dir sp,
                 cm_Env = mergeEnv environ (psp_Env sp), cm_Setpgid = True\<rparr>
      in case stdout_pipe of Some e \<Rightarrow> Inl (StdoutPipeFails e)
       | None \<Rightarrow> (case stderr_pipe of Some e \<Rightarrow> Inl (StderrPipeFails e)
       | None \<Rightarrow> (case exec cmd of
                    Inl e \<Rightarrow> Inl (StartFails e)
                  | Inr pid \<Rightarrow> Inr \<lparr>pr_pid = pid, pr_logs = newRingBuffer cap, pr_exitInfo = None, pr_exitCh = [], pr_chClosed = False\<rparr>)))"

datatype signal_target = SignalsGroup int | SignalsProcess int

text \<open>Whom a signal goes to: the group, or the one process when its group cannot be found.\<close>

definition proc_Signal :: "(int \<Rightarrow> go_error + int) \<Rightarrow> process \<Rightarrow> signal_target" where
  "proc_Signal getpgid p =
     (case getpgid (pr_pid p) of Inl _ \<Rightarrow> SignalsProcess (pr_pid p) | Inr pgid \<Rightarrow> SignalsGroup pgid)"

subsection \<open>The exit is published once\<close>

definition running :: "process \<Rightarrow> bool" where
  "running p \<longleftrightarrow> pr_exitInfo p = None \<and> pr_exitCh p = [] \<and> \<not> pr_chClosed p"

fun recv_times :: "nat \<Rightarrow> process \<Rightarrow> exit_info list option" where
  "recv_times 0 p = Some []"
| "recv_times (Suc n) p =
     (case recv_exit p of
        None \<Rightarrow> None
      | Some (i, p') \<Rightarrow> (case recv_times n p' of None \<Rightarrow> None | Some is \<Rightarrow> Some (i # is)))"

lemma recv_times_drained:
  "pr_exitCh p = [] \<Longrightarrow> pr_chClosed p \<Longrightarrow> recv_times n p = Some (replicate n zero_exit_info)"
  by (induction n) (simp_all add: recv_exit_def)

text \<open>
  The exit channel blocks while the process runs; after it ended, the first reader gets
  the exit information, and every other reader the zero value, which says neither normal nor
  killed.  The slot has three readers on it.
\<close>

theorem exit_reported_to_first_reader:
  assumes "running p"
  shows "recv_exit p = None
    \<and> recv_times (Suc n) (waitAndPublish now w p) = Some (classify_exit now w # replicate n zero_exit_info)
    \<and> Exited (waitAndPublish now w p) = (classify_exit now w, True)
    \<and> ei_Reason zero_exit_info \<notin> {ReasonNormal, ReasonKilled}"
  using assms
  by (auto simp: running_def recv_exit_def waitAndPublish_def Let_def Exited_def recv_times_drained zero_exit_info_def)

definition demo_process :: process where
  "demo_process = \<lparr>pr_pid = 7, pr_logs = newRingBuffer 2, pr_exitInfo = None, pr_exitCh = [], pr_chClosed = False\<rparr>"

theorem exit_reported_to_first_reader_witness:
  "recv_times 2 (waitAndPublish 5 WaitOk demo_process) = Some [classify_exit 5 WaitOk, zero_exit_info]"
  using exit_reported_to_first_reader [of demo_process 1 5 WaitOk]
  by (simp add: demo_process_def running_def eval_nat_numeral del: recv_times.simps)

text \<open>
  Termination escalates in order and only as far as needed: nothing is sent to a process
  known to have exited, a SIGKILL only follows a SIGTERM and an expired grace period, and no error
  means that the exit was seen.
\<close>

theorem Terminate_escalation:
  assumes "Terminate sigterm arm1 meanwhile arm2 p = Some (e, p', sigs)"
  shows "sigs \<in> {[], [SIGTERM], [SIGTERM, SIGKILL]}
    \<and> (snd (Exited p) \<longrightarrow> sigs = [] \<and> e = None \<and> p' = p)
    \<and> (SIGKILL \<in> set sigs \<longrightarrow> \<not> snd (Exited p) \<and> arm1 = ArmTimer)
    \<and> (e = None \<and> \<not> snd (Exited p) \<longrightarrow> (\<exists>q i. recv_exit q = Some (i, p') \<and> (q = meanwhile p \<or> q = meanwhile (meanwhile p))))"
  using assms by (auto simp: Terminate_def Let_def split: if_splits option.splits arm.splits)

theorem Terminate_escalation_witness:
  "\<exists>p' sigs. Terminate None ArmTimer (waitAndPublish 5 (WaitSignaled 9)) ArmExit demo_process = Some (None, p', sigs)
     \<and> sigs \<in> {[], [SIGTERM], [SIGTERM, SIGKILL]} \<and> SIGKILL \<in> set sigs"
proof -
  obtain p' where t: "Terminate None ArmTimer (waitAndPublish 5 (WaitSignaled 9)) ArmExit demo_process
      = Some (None, p', [SIGTERM, SIGKILL])"
    by (simp add: Terminate_def Exited_def demo_process_def waitAndPublish_def Let_def recv_exit_def)
  from Terminate_escalation [OF t] t show ?thesis by auto
qed

end
