(* ===== verification/Slot.thy ===== *)
theory Slot
  imports SlotState Rcon Slp Process
begin

text \<open>
  The slot (\<open>internal/slot/slot.go\<close>): its state and the operations that run under its mutex or
  in one goroutine.  Processes, RCON clients, contexts, tailers, bots and abort channels are
  identified by numbers.  \<open>Start\<close> is given in full, with what it does to the files of the
  server; the file system, the catalog, the random bytes, the faults and the outcome of the spawn
  are its environment.
\<close>

record slot =
  s_cfg :: slot_cfg
  s_instance :: string
  s_host :: string
  s_state :: state
  s_stateSince :: time
  s_lastErr :: "last_error option"
  s_server :: "server option"
  s_process :: "nat option"
  s_lock :: "held option"
  s_rcon :: "nat option"
  s_rconPort :: int
  s_rconPass :: string
  s_startedAt :: time
  s_mountedID :: string
  s_cancel :: "nat option"
  s_slp :: "slp_info option"
  s_tailer :: "nat option"
  s_bot :: "nat option"
  s_stopping :: bool
  s_stopAbort :: "nat option"

definition NewSlot :: "time \<Rightarrow> slot_cfg \<Rightarrow> string \<Rightarrow> string \<Rightarrow> slot" where
  "NewSlot now cfg inst host =
     \<lparr>s_cfg = cfg, s_instance = inst, s_host = host, s_state = StateIdle, s_stateSince = now, s_lastErr = None,
      s_server = None, s_process = None, s_lock = None, s_rcon = None, s_rconPort = 0, s_rconPass = [],
      s_startedAt = 0, s_mountedID = [], s_cancel = None, s_slp = None, s_tailer = None, s_bot = None,
      s_stopping = False, s_stopAbort = None\<rparr>"

record mounted_view =
  mv_ID :: string
  mv_Name :: string
  mv_Type :: string
  mv_Path :: string
  mv_Process :: "nat option"
  mv_StartedAt :: time
  mv_RconConnected :: bool
  mv_SLP :: "slp_info option"

record snapshot =
  sn_Name :: string
  sn_Port :: int
  sn_PublicAddress :: string
  sn_State :: state
  sn_StateSince :: time
  sn_AutoMount :: string
  sn_LastError :: "last_error option"
  sn_Mounted :: "mounted_view option"

definition Snapshot :: "slot \<Rightarrow> snapshot" where
  "Snapshot s =
     \<lparr>sn_Name = sc_Name (s_cfg s), sn_Port = sc_Port (s_cfg s), sn_PublicAddress = sc_PublicAddress (s_cfg s),
      sn_State = s_state s, sn_StateSince = s_stateSince s, sn_AutoMount = sc_AutoMount (s_cfg s),
      sn_LastError = s_lastErr s,
      sn_Mounted = map_option (\<lambda>srv. \<lparr>mv_ID = srv_ID srv, mv_Name = srv_Name srv, mv_Type = srv_Type srv,
        mv_Path = srv_Path srv, mv_Process = s_process s, mv_StartedAt = s_startedAt s,
        mv_RconConnected = (s_rcon s \<noteq> None), mv_SLP = s_slp s\<rparr>) (s_server s)\<rparr>"

text \<open>The locked part of \<open>transition\<close>; the event it publishes afterwards is the pair of states.\<close>

definition transition :: "time \<Rightarrow> state \<Rightarrow> last_error option \<Rightarrow> slot \<Rightarrow> slot" where
  "transition now to lastErr s =
     s\<lparr>s_state := to, s_stateSince := now,
       s_lastErr := (case lastErr of Some e \<Rightarrow> Some e | None \<Rightarrow> if to = StateIdle then None else s_lastErr s)\<rparr>"

definition failMount :: "time \<Rightarrow> string \<Rightarrow> string \<Rightarrow> slot \<Rightarrow> slot" where
  "failMount now code msg s =
     s\<lparr>s_state := StateError, s_stateSince := now,
       s_lastErr := Some \<lparr>er_Code = code, er_Message = msg, er_At = now\<rparr>,
       s_server := None, s_process := None, s_lock := None, s_rcon := None\<rparr>"

subsection \<open>Start\<close>

datatype mount_error =
    ServerNotFound string
  | Incompatible accept_error
  | ConfigError id_error
  | RandomFailed
  | PropertiesError props_error
  | LockError lock_error
  | PlanError plan_error
  | SpawnError go_error

definition mount_code :: "mount_error \<Rightarrow> string" where
  "mount_code e = (case e of
      ServerNotFound _ \<Rightarrow> ''server_not_found''
    | Incompatible _ \<Rightarrow> ''server_incompatible''
    | ConfigError _ \<Rightarrow> ''config_error''
    | RandomFailed \<Rightarrow> ''internal''
    | PropertiesError _ \<Rightarrow> ''properties_error''
    | LockError _ \<Rightarrow> ''server_in_use''
    | PlanError _ \<Rightarrow> ''launch_plan''
    | SpawnError _ \<Rightarrow> ''spawn'')"

record start_opts =
  so_ServerID :: string
  so_Force :: bool

record start_env =
  se_catalog :: catalog
  se_refresh :: "catalog option"
  se_random :: "u8 list option"
  se_props_fault :: write_fault
  se_props_tmp :: string
  se_lock_now :: time
  se_lock_fault :: write_fault
  se_lock_tmp :: string
  se_pid :: int
  se_release_io :: "go_error option"
  se_spawn :: "go_error + nat"
  se_message :: "mount_error \<Rightarrow> string"

definition find_server :: "start_env \<Rightarrow> string \<Rightarrow> server option" where
  "find_server env sid =
     (case FindByID sid (se_catalog env) of
        Some srv \<Rightarrow> Some srv
      | None \<Rightarrow> (case se_refresh env of None \<Rightarrow> None | Some fresh \<Rightarrow> FindByID sid fresh))"

text \<open>Which server, and whether this slot may run it.\<close>

definition choose_server :: "slot \<Rightarrow> string \<Rightarrow> start_env \<Rightarrow> host_fs \<Rightarrow> mount_error + server \<times> config" where
  "choose_server s sid env fs =
     (case find_server env sid of
        None \<Rightarrow> Inl (ServerNotFound sid)
      | Some srv \<Rightarrow>
          (case checkAccepts (s_cfg s) fs srv of
             Some e \<Rightarrow> Inl (Incompatible e)
           | None \<Rightarrow>
               (case read_config (fs_config_io fs (srv_Path srv)) (srv_Path srv) (fs_configs fs) of
                  Inl e \<Rightarrow> Inl (ConfigError e)
                | Inr cfg \<Rightarrow> Inr (srv, cfg))))"

definition mcsm_patch :: "int \<Rightarrow> int \<Rightarrow> string \<Rightarrow> (string \<times> string) list" where
  "mcsm_patch port rconPort pass =
     [(''server-port'', Itoa port), (''query.port'', Itoa port), (''enable-query'', ''true''),
      (''enable-rcon'', ''true''), (''rcon.port'', Itoa rconPort), (''rcon.password'', pass),
      (''broadcast-rcon-to-ops'', ''false'')]"

definition prepare_properties ::
    "slot \<Rightarrow> server \<Rightarrow> start_env \<Rightarrow> string dir \<Rightarrow> (mount_error + string) \<times> string dir" where
  "prepare_properties s srv env d =
     (case GenPassword (se_random env) of
        None \<Rightarrow> (Inl RandomFailed, d)
      | Some pass \<Rightarrow>
          (case PatchProperties (se_props_fault env) (se_props_tmp env) (srv_Path srv)
                  (mcsm_patch (sc_Port (s_cfg s)) (sc_Port (s_cfg s) + rconPortOffset) pass) d of
             (Some e, d') \<Rightarrow> (Inl (PropertiesError e), d')
           | (None, d') \<Rightarrow> (Inr pass, d')))"

definition lock_request :: "slot \<Rightarrow> server \<Rightarrow> start_env \<Rightarrow> bool \<Rightarrow> lock_req" where
  "lock_request s srv env force =
     \<lparr>rq_dir = srv_Path srv, rq_instance = s_instance s, rq_slot = sc_Name (s_cfg s), rq_host = s_host s,
      rq_pid = se_pid env, rq_force = force\<rparr>"

text \<open>Locking, planning and spawning; a failure after the lock was taken releases it.\<close>

definition lock_and_spawn ::
    "slot \<Rightarrow> server \<Rightarrow> config \<Rightarrow> bool \<Rightarrow> start_env \<Rightarrow> host_fs \<Rightarrow> (mount_error + held \<times> nat) \<times> owner dir" where
  "lock_and_spawn s srv cfg force env fs =
     (case TryAcquire (se_lock_now env) (fs_owner_io fs (srv_Path srv)) (se_lock_fault env) (se_lock_tmp env)
             (lock_request s srv env force) (fs_owners fs) of
        (Inl e, d') \<Rightarrow> (Inl (LockError e), d')
      | (Inr h, d') \<Rightarrow>
          (let released = snd (snd (Release (se_release_io env) h d'))
           in case PlanLaunch (fs_ReadDir fs (srv_Path srv)) (\<lambda>n. fs_Stat fs (path_Join [srv_Path srv, n])) cfg (srv_Path srv) of
                Inl e \<Rightarrow> (Inl (PlanError e), released)
              | Inr plan \<Rightarrow>
                  (case se_spawn env of
                     Inl e \<Rightarrow> (Inl (SpawnError e), released)
                   | Inr p \<Rightarrow> (Inr (h, p), d'))))"

record mount =
  mt_server :: server
  mt_process :: nat
  mt_held :: held
  mt_pass :: string

definition do_mount ::
    "slot \<Rightarrow> start_opts \<Rightarrow> start_env \<Rightarrow> host_fs \<Rightarrow> (mount_error + mount) \<times> host_fs" where
  "do_mount s opts env fs =
     (case choose_server s (so_ServerID opts) env fs of
        Inl e \<Rightarrow> (Inl e, fs)
      | Inr (srv, cfg) \<Rightarrow>
          (case prepare_properties s srv env (fs_props fs) of
             (Inl e, props) \<Rightarrow> (Inl e, fs\<lparr>fs_props := props\<rparr>)
           | (Inr pass, props) \<Rightarrow>
               (case lock_and_spawn s srv cfg (so_Force opts) env fs of
                  (Inl e, owners) \<Rightarrow> (Inl e, fs\<lparr>fs_props := props, fs_owners := owners\<rparr>)
                | (Inr (h, p), owners) \<Rightarrow>
                    (Inr \<lparr>mt_server = srv, mt_process = p, mt_held = h, mt_pass = pass\<rparr>,
                     fs\<lparr>fs_props := props, fs_owners := owners\<rparr>))))"

text \<open>The two locked regions of \<open>Start\<close>: the guard, and the installation of what was mounted.\<close>

definition begin_mount :: "time \<Rightarrow> slot \<Rightarrow> slot" where
  "begin_mount now s =
     s\<lparr>s_state := StateMounting, s_stateSince := now, s_lastErr := None, s_stopping := False\<rparr>"

definition install :: "time \<Rightarrow> nat \<Rightarrow> mount \<Rightarrow> slot \<Rightarrow> slot" where
  "install now ctx m s =
     s\<lparr>s_server := Some (mt_server m), s_process := Some (mt_process m), s_lock := Some (mt_held m),
       s_rconPort := sc_Port (s_cfg s) + rconPortOffset, s_rconPass := mt_pass m, s_startedAt := now,
       s_mountedID := srv_ID (mt_server m), s_cancel := Some ctx, s_state := StateStarting,
       s_stateSince := now, s_slp := None, s_tailer := Some ctx\<rparr>"

datatype start_error = SlotBusy state | MountFailed mount_error

definition Start ::
    "time \<Rightarrow> nat \<Rightarrow> start_opts \<Rightarrow> start_env \<Rightarrow> slot \<Rightarrow> host_fs \<Rightarrow> (start_error + unit) \<times> slot \<times> host_fs" where
  "Start now ctx opts env s fs =
     (if \<not> CanStartFrom (s_state s) then (Inl (SlotBusy (s_state s)), s, fs)
      else let s1 = begin_mount now s
           in case do_mount s1 opts env fs of
                (Inl e, fs') \<Rightarrow> (Inl (MountFailed e), failMount now (mount_code e) (se_message env e) s1, fs')
              | (Inr m, fs') \<Rightarrow> (Inr (), install now ctx m s1, fs'))"

subsection \<open>The other operations under the mutex\<close>

record stop_opts =
  sp_GracefulSeconds :: int
  sp_KillGrace :: duration

definition stop_defaults :: "stop_opts \<Rightarrow> stop_opts" where
  "stop_defaults o' =
     \<lparr>sp_GracefulSeconds = (if sp_GracefulSeconds o' \<le> 0 then 30 else sp_GracefulSeconds o'),
      sp_KillGrace = (if sp_KillGrace o' \<le> 0 then 10 * second else sp_KillGrace o')\<rparr>"

definition AbortStop :: "slot \<Rightarrow> (nat \<times> slot) option" where
  "AbortStop s =
     (case s_stopAbort s of
        Some a \<Rightarrow> if s_state s = StateStopping then Some (a, s\<lparr>s_stopAbort := None\<rparr>) else None
      | None \<Rightarrow> None)"

datatype command_error = ServerNotRunning | RconNotConnected | RconFailed rcon_error

definition Command ::
    "go_error option \<Rightarrow> string \<Rightarrow> slot \<Rightarrow> (nat \<Rightarrow> client) \<Rightarrow> (command_error + string) \<times> (nat \<Rightarrow> client)" where
  "Command werr cmd s clients =
     (if s_state s \<noteq> StateRunning then (Inl ServerNotRunning, clients)
      else case s_rcon s of
             None \<Rightarrow> (Inl RconNotConnected, clients)
           | Some c \<Rightarrow>
               (case Cmd werr cmd (clients c) of
                  (Inl e, c') \<Rightarrow> (Inl (RconFailed e), clients(c := c'))
                | (Inr r, c') \<Rightarrow> (Inr r, clients(c := c'))))"

definition SaveControlForBackup :: "slot \<Rightarrow> nat option" where
  "SaveControlForBackup s = (if s_state s \<noteq> StateRunning then None else s_rcon s)"

definition MountedServer :: "slot \<Rightarrow> server option" where
  "MountedServer s = s_server s"

text \<open>The locked region of \<open>watchExit\<close>, after the process has ended.\<close>

definition clear_mount :: "slot \<Rightarrow> slot" where
  "clear_mount s =
     s\<lparr>s_cancel := None, s_rcon := None, s_lock := None, s_process := None, s_server := None,
       s_mountedID := [], s_slp := None\<rparr>"

definition exit_transition :: "(exit_info \<Rightarrow> string) \<Rightarrow> bool \<Rightarrow> exit_info \<Rightarrow> state \<times> last_error option" where
  "exit_transition msg stopping info =
     (if stopping \<and> ei_Reason info = ReasonNormal then (StateIdle, None)
      else if stopping \<and> ei_Reason info = ReasonKilled then
        (StateIdle, Some \<lparr>er_Code = ''killed_after_grace'', er_Message = msg info, er_At = ei_At info\<rparr>)
      else (StateCrashed, Some \<lparr>er_Code = ''process_exited_nonzero'', er_Message = msg info, er_At = ei_At info\<rparr>))"

text \<open>The locked region of one round of \<open>healthLoop\<close>.\<close>

definition probe_result :: "time \<Rightarrow> status option \<Rightarrow> slot \<Rightarrow> slot" where
  "probe_result now st s =
     (case st of
        Some x \<Rightarrow>
          s\<lparr>s_slp := Some \<lparr>si_Online = True, si_PlayersOnline = pl_online (st_players x),
              si_PlayersMax = pl_max (st_players x),
              si_MOTD = (case st_description x of Some d \<Rightarrow> d | None \<Rightarrow> []), si_LatencyMS = st_latency x,
              si_SampledAt = now\<rparr>\<rparr>
      | None \<Rightarrow>
          if s_state s = StateRunning
          then s\<lparr>s_slp := map_option (\<lambda>i. i\<lparr>si_Online := False, si_SampledAt := now\<rparr>) (s_slp s)\<rparr>
          else s)"

subsection \<open>What a start does to the files of the server\<close>

lemma lock_and_spawn_fails:
  assumes "lock_and_spawn s srv cfg force env fs = (Inl e, d')" and "fs_owners fs (se_lock_tmp env) = None"
    and "se_lock_tmp env \<noteq> Path (srv_Path srv)" and "se_release_io env = None"
  shows "if \<exists>le. e = LockError le then d' = fs_owners fs else d' = (fs_owners fs)(Path (srv_Path srv) := None)"
proof -
  obtain r d1 where t: "TryAcquire (se_lock_now env) (fs_owner_io fs (srv_Path srv)) (se_lock_fault env) (se_lock_tmp env)
      (lock_request s srv env force) (fs_owners fs) = (r, d1)" by fastforce
  show ?thesis
  proof (cases r)
    case (Inl le)
    have "d1 = fs_owners fs" using TryAcquire_Inl [OF t [unfolded Inl] assms(2)] .
    then show ?thesis using assms(1) t Inl by (auto simp: lock_and_spawn_def)
  next
    case (Inr h)
    then have h: "d1 = (fs_owners fs)(Path (srv_Path srv) \<mapsto> Holds (new_owner (se_lock_now env) (lock_request s srv env force)))"
        "h_serverDir h = srv_Path srv"
      using TryAcquire_Inr [OF t [unfolded Inr] assms(2)] assms(3) by (auto simp: lock_request_def)
    have "snd (snd (Release (se_release_io env) h d1)) = (fs_owners fs)(Path (srv_Path srv) := None)"
      using assms(4) h by (simp add: Release_def Remove_def Let_def)
    then show ?thesis
      using assms(1) t Inr by (auto simp: lock_and_spawn_def Let_def split: sum.splits)
  qed
qed

lemma lock_refused:
  assumes "lock_and_spawn s srv cfg force env fs = (Inl (LockError e), d')" and "fs_owners fs (se_lock_tmp env) = None"
  shows "d' = fs_owners fs"
proof -
  obtain r d1 where t: "TryAcquire (se_lock_now env) (fs_owner_io fs (srv_Path srv)) (se_lock_fault env) (se_lock_tmp env)
      (lock_request s srv env force) (fs_owners fs) = (r, d1)" by fastforce
  then have "r = Inl e" "d1 = d'"
    using assms(1) by (auto simp: lock_and_spawn_def Let_def split: sum.splits)
  then show ?thesis using TryAcquire_Inl [of _ _ _ _ _ _ e d'] t assms(2) by blast
qed

lemma lock_and_spawn_ok:
  assumes "lock_and_spawn s srv cfg force env fs = (Inr (h, p), d')" and "fs_owners fs (se_lock_tmp env) = None"
    and "se_lock_tmp env \<noteq> Path (srv_Path srv)"
  shows "d' = (fs_owners fs)(Path (srv_Path srv) \<mapsto> Holds (h_owner h)) \<and> h_serverDir h = srv_Path srv
    \<and> own_Instance (h_owner h) = s_instance s \<and> own_Slot (h_owner h) = sc_Name (s_cfg s)"
proof -
  obtain r d1 where t: "TryAcquire (se_lock_now env) (fs_owner_io fs (srv_Path srv)) (se_lock_fault env) (se_lock_tmp env)
      (lock_request s srv env force) (fs_owners fs) = (r, d1)" by fastforce
  then have r: "r = Inr h" "d1 = d'"
    using assms(1) by (auto simp: lock_and_spawn_def Let_def split: sum.splits)
  show ?thesis
    using TryAcquire_Inr [OF t [unfolded r] assms(2)] assms(3) by (auto simp: lock_request_def new_owner_def)
qed


lemma mcsm_patch_neq: "mcsm_patch port rconPort pass \<noteq> []"
  by (simp add: mcsm_patch_def)

lemma good_mcsm_patch:
  assumes "1 \<le> port" and "port \<le> 65535" and "GenPassword (Some b) = Some pass" and "length b \<le> 1000"
  shows "good_patch (mcsm_patch port (port + rconPortOffset) pass)"
proof -
  have good: "good_val w" if "list_all is_digit w \<or> set w \<subseteq> set hex_digits" for w
    using that nth_mem [of 0 w]
    by (auto simp: good_val_def list_all_iff is_digit_def hex_digits_def simp del: nth_mem)
      (auto dest!: subsetD)
  have i: "good_val (Itoa n)" "length (Itoa n) \<le> 5" if "1 \<le> n" "n < 100000" for n
    using that good [of "Itoa n"] length_nat_digits [of "nat n" 5] nat_digits_all [of "nat n"] by (auto simp: Itoa_def)
  have p: "good_val pass" "length pass \<le> 2000"
    using GenPassword_length [OF assms(3)] assms(4) good [of pass] GenPassword_chars [OF assms(3)] by auto
  show ?thesis
    using i [of port] i [of "port + rconPortOffset"] assms(1,2) p
    by (simp add: good_patch_def mcsm_patch_def keys_of_def good_key_def rconPortOffset_def) (simp add: good_val_def)
qed

text \<open>A properties file whose lines have no carriage return, and what it says.\<close>

definition plain_properties :: "string \<Rightarrow> (string \<rightharpoonup> string) \<Rightarrow> bool" where
  "plain_properties body m \<longleftrightarrow> parse_properties body = Some m \<and>
     (case scan_lines default_scan_max body of Lines ls \<Rightarrow> list_all (\<lambda>l. cr \<notin> set l) ls | TooLong _ \<Rightarrow> False)"

lemma plain_patched:
  assumes "good_patch patch" and "patch \<noteq> []" and "plain_properties body m"
  shows "\<exists>body'. patch_body patch body = Some body' \<and> parse_properties body' = Some (m ++ map_of patch)"
  using assms patched_properties_read_back' [OF assms(1,2)]
  by (auto simp: plain_properties_def list_all_iff split: scan_result.splits)

definition start_fits :: "slot \<Rightarrow> start_env \<Rightarrow> server \<Rightarrow> host_fs \<Rightarrow> (string \<rightharpoonup> string) \<Rightarrow> bool" where
  "start_fits s env srv fs m \<longleftrightarrow>
     (\<exists>body. fs_props fs (PropertiesPath (srv_Path srv)) = Some (Holds body) \<and> plain_properties body m)
   \<and> fs_props fs (se_props_tmp env) = None \<and> se_props_tmp env \<noteq> PropertiesPath (srv_Path srv)
   \<and> fs_owners fs (se_lock_tmp env) = None \<and> se_lock_tmp env \<noteq> Path (srv_Path srv)
   \<and> 1 \<le> sc_Port (s_cfg s) \<and> sc_Port (s_cfg s) \<le> 65535
   \<and> (\<forall>b. se_random env = Some b \<longrightarrow> length b \<le> 1000)"

text \<open>The properties of a server as a slot makes them at a mount.\<close>

definition mcsm_properties :: "slot \<Rightarrow> string \<Rightarrow> (string \<rightharpoonup> string) \<Rightarrow> (string \<rightharpoonup> string)" where
  "mcsm_properties s pass m = m ++ map_of (mcsm_patch (sc_Port (s_cfg s)) (sc_Port (s_cfg s) + rconPortOffset) pass)"

lemma prepare_patches:
  assumes "prepare_properties s srv env (fs_props fs) = (Inr pass, d')" and "start_fits s env srv fs m"
  shows "\<exists>body body'. fs_props fs (PropertiesPath (srv_Path srv)) = Some (Holds body) \<and> plain_properties body m
    \<and> good_patch (mcsm_patch (sc_Port (s_cfg s)) (sc_Port (s_cfg s) + rconPortOffset) pass)
    \<and> patch_body (mcsm_patch (sc_Port (s_cfg s)) (sc_Port (s_cfg s) + rconPortOffset) pass) body = Some body'
    \<and> d' (PropertiesPath (srv_Path srv)) = Some (Holds body') \<and> GenPassword (se_random env) = Some pass"
proof -
  let ?p = "mcsm_patch (sc_Port (s_cfg s)) (sc_Port (s_cfg s) + rconPortOffset) pass"
  let ?path = "PropertiesPath (srv_Path srv)"
  obtain body where body: "fs_props fs ?path = Some (Holds body)" "plain_properties body m"
    using assms(2) by (auto simp: start_fits_def)
  obtain b where b: "se_random env = Some b" "GenPassword (Some b) = Some pass"
    using assms(1) by (cases "se_random env") (auto simp: prepare_properties_def GenPassword_def split: option.splits prod.splits)
  have good: "good_patch ?p"
    using good_mcsm_patch [OF _ _ b(2)] assms(2) b(1) by (auto simp: start_fits_def)
  then obtain body' where body': "patch_body ?p body = Some body'"
    using plain_patched [OF _ mcsm_patch_neq body(2)] by blast
  have p: "PatchProperties (se_props_fault env) (se_props_tmp env) (srv_Path srv) ?p (fs_props fs) = (None, d')"
    using assms(1) b by (auto simp: prepare_properties_def split: prod.splits option.splits)
  obtain w where w: "atomic_write (se_props_fault env) (se_props_tmp env) ?path body' (fs_props fs) = (None, w)" "d' = w"
    using p body(1) body' by (auto simp: PatchProperties_def Let_def split: prod.splits option.splits)
  have "w = (fs_props fs)(?path \<mapsto> Holds body')"
    using atomic_write_ok [of "fs_props fs" "se_props_tmp env" ?path "se_props_fault env" body'] w(1) assms(2)
    by (simp add: start_fits_def)
  then show ?thesis using body good body' b w(2) by simp
qed

lemma prepare_writes:
  assumes "prepare_properties s srv env (fs_props fs) = (Inr pass, d')" and "start_fits s env srv fs m"
  shows "\<exists>body'. d' (PropertiesPath (srv_Path srv)) = Some (Holds body') \<and> parse_properties body' = Some (mcsm_properties s pass m)"
proof -
  let ?p = "mcsm_patch (sc_Port (s_cfg s)) (sc_Port (s_cfg s) + rconPortOffset) pass"
  obtain body body' where b: "plain_properties body m" "good_patch ?p" "patch_body ?p body = Some body'"
      "d' (PropertiesPath (srv_Path srv)) = Some (Holds body')"
    using prepare_patches [OF assms] by blast
  then show ?thesis using plain_patched [OF b(2) mcsm_patch_neq b(1)] by (simp add: mcsm_properties_def)
qed

lemma choose_server_found:
  "choose_server s sid env fs = Inr (srv, cfg) \<Longrightarrow> find_server env sid = Some srv"
  by (auto simp: choose_server_def split: option.splits sum.splits)

lemma find_server_ID: "find_server env sid = Some srv \<Longrightarrow> srv_ID srv = sid"
  by (auto simp: find_server_def FindByID_def find_Some_iff split: option.splits)

lemma begin_mount_fits: "start_fits (begin_mount now s) env srv fs m = start_fits s env srv fs m"
  "mcsm_properties (begin_mount now s) = mcsm_properties s"
  by (simp_all add: start_fits_def begin_mount_def mcsm_properties_def fun_eq_iff)

text \<open>What a successful start has written to \<open>server.properties\<close>, and with which password.\<close>

lemma start_patches:
  assumes "Start now ctx opts env s fs = (Inr (), s', fs')"
    and "find_server env (so_ServerID opts) = Some srv" and "start_fits s env srv fs m"
  shows "s_rconPort s' = sc_Port (s_cfg s) + rconPortOffset \<and> GenPassword (se_random env) = Some (s_rconPass s')
    \<and> (\<exists>body body'. fs_props fs (PropertiesPath (srv_Path srv)) = Some (Holds body) \<and> plain_properties body m
        \<and> good_patch (mcsm_patch (sc_Port (s_cfg s)) (s_rconPort s') (s_rconPass s'))
        \<and> patch_body (mcsm_patch (sc_Port (s_cfg s)) (s_rconPort s') (s_rconPass s')) body = Some body'
        \<and> fs_props fs' (PropertiesPath (srv_Path srv)) = Some (Holds body'))"
proof -
  let ?s1 = "begin_mount now s"
  obtain mt where m: "do_mount ?s1 opts env fs = (Inr mt, fs')" "s' = install now ctx mt ?s1"
    using assms(1) by (auto simp: Start_def Let_def split: if_splits prod.splits sum.splits)
  obtain srv' cfg where c: "choose_server ?s1 (so_ServerID opts) env fs = Inr (srv', cfg)"
    using m(1) by (auto simp: do_mount_def split: sum.splits)
  have srv: "srv' = srv" using choose_server_found [OF c] assms(2) by simp
  obtain pass props where p: "prepare_properties ?s1 srv env (fs_props fs) = (Inr pass, props)"
    using m(1) c srv by (auto simp: do_mount_def split: sum.splits prod.splits)
  have mt: "mt_pass mt = pass" "fs_props fs' = props"
    using m(1) c srv p by (auto simp: do_mount_def split: sum.splits prod.splits)
  have cfg: "s_cfg ?s1 = s_cfg s" by (simp add: begin_mount_def)
  have "start_fits ?s1 env srv fs m" using assms(3) by (simp add: begin_mount_fits)
  from prepare_patches [OF p this] show ?thesis
    by (auto simp: m(2) mt install_def cfg)
qed


text \<open>
  A start that is refused because the server is in use has already rewritten that server's
  \<open>server.properties\<close>: the properties are patched before the lock is asked for.  The server another
  instance is running gets this slot's port and a new RCON password in its file.
\<close>

theorem refused_start_rewrites_properties:
  assumes "Start now ctx opts env s fs = (Inl (MountFailed (LockError e)), s', fs')"
    and "find_server env (so_ServerID opts) = Some srv" and "start_fits s env srv fs m"
  shows "fs_owners fs' = fs_owners fs \<and>
    (\<exists>pass body'. GenPassword (se_random env) = Some pass
       \<and> fs_props fs' (PropertiesPath (srv_Path srv)) = Some (Holds body')
       \<and> parse_properties body' = Some (mcsm_properties s pass m))"
proof -
  let ?s1 = "begin_mount now s"
  have m: "do_mount ?s1 opts env fs = (Inl (LockError e), fs')"
    using assms(1) by (auto simp: Start_def Let_def split: if_splits prod.splits sum.splits)
  obtain srv' cfg where c: "choose_server ?s1 (so_ServerID opts) env fs = Inr (srv', cfg)"
    using m by (cases "choose_server ?s1 (so_ServerID opts) env fs")
      (auto simp: do_mount_def choose_server_def split: option.splits sum.splits)
  have srv: "srv' = srv" using choose_server_found [OF c] assms(2) by simp
  obtain pass props where p: "prepare_properties ?s1 srv env (fs_props fs) = (Inr pass, props)"
    using m c srv by (auto simp: do_mount_def prepare_properties_def split: sum.splits prod.splits option.splits)
  obtain owners where l: "lock_and_spawn ?s1 srv cfg (so_Force opts) env fs = (Inl (LockError e), owners)"
      "fs' = fs\<lparr>fs_props := props, fs_owners := owners\<rparr>"
    using m c srv p by (auto simp: do_mount_def split: sum.splits prod.splits)
  have fits: "start_fits ?s1 env srv fs m" using assms(3) by (simp add: begin_mount_fits)
  have "GenPassword (se_random env) = Some pass"
    using p by (auto simp: prepare_properties_def split: option.splits prod.splits)
  moreover have "owners = fs_owners fs"
    using lock_refused [OF l(1)] assms(3) by (simp add: start_fits_def)
  ultimately show ?thesis
    using prepare_writes [OF p fits] by (auto simp: l(2) begin_mount_fits)
qed

subsection \<open>A concrete server\<close>

definition demo_env :: start_env where
  "demo_env = \<lparr>se_catalog = \<lparr>cat_ScannedAt = 0, cat_Servers = [paper_server]\<rparr>, se_refresh = None, se_random = Some [],
     se_props_fault = NoFault, se_props_tmp = ''/p'', se_lock_now = 5, se_lock_fault = NoFault, se_lock_tmp = ''/t'',
     se_pid = 7, se_release_io = None, se_spawn = Inr 0, se_message = (\<lambda>_. [])\<rparr>"

definition free_slot :: slot where
  "free_slot = NewSlot 0 (demo_slot ''a'' 25565) ''i'' ''h''"

definition free_fs :: "owner dir \<Rightarrow> host_fs" where
  "free_fs owners = demo_fs\<lparr>fs_props := [PropertiesPath ''/srv/a'' \<mapsto> Holds []], fs_owners := owners\<rparr>"

definition foreign_owner :: owner where
  "foreign_owner = \<lparr>own_Instance = ''other'', own_Slot = ''b'', own_Host = ''g'', own_PID = 9, own_StartedAt = 5, own_Heartbeat = 5\<rparr>"

abbreviation demo_opts :: start_opts where
  "demo_opts \<equiv> \<lparr>so_ServerID = ''id'', so_Force = False\<rparr>"

lemma demo_props_path: "PropertiesPath ''/srv/a'' = ''/srv/a/server.properties''"
  by code_simp

lemma demo_find: "find_server demo_env ''id'' = Some paper_server"
  by (simp add: find_server_def demo_env_def FindByID_def paper_server_def)

lemma demo_fits: "owners ''/t'' = None \<Longrightarrow> start_fits free_slot demo_env paper_server (free_fs owners) Map.empty"
  by (simp add: start_fits_def free_slot_def demo_env_def paper_server_def free_fs_def NewSlot_def demo_slot_def
      demo_props_path demo_path plain_properties_def parse_properties_def scan_lines_def)

lemma demo_choose:
  "choose_server (begin_mount now free_slot) ''id'' demo_env (free_fs owners) =
     Inr (paper_server, \<lparr>cfg_ID = ''id'', cfg_Name = ''n'', cfg_Type = FlavorPaper, cfg_JavaArgs = [],
        cfg_Features = None, cfg_DiscordToken = [], cfg_DiscordChannels = []\<rparr>)"
  by (simp add: choose_server_def demo_find checkAccepts_def begin_mount_def free_slot_def NewSlot_def demo_slot_def
      free_fs_def demo_fs_def read_config_def)

lemma demo_prepare:
  "\<exists>d. prepare_properties (begin_mount now free_slot) paper_server demo_env (fs_props (free_fs owners)) = (Inr [], d)"
proof -
  have "good_patch (mcsm_patch 25565 (25565 + rconPortOffset) [])"
    by (rule good_mcsm_patch [of _ "[]"]) (simp_all add: GenPassword_def)
  then obtain b where b: "patch_body (mcsm_patch 25565 (25565 + rconPortOffset) []) [] = Some b"
    using plain_patched [OF _ mcsm_patch_neq, of 25565 "25565 + rconPortOffset" "[]" "[]" Map.empty]
    by (auto simp: plain_properties_def parse_properties_def scan_lines_def)
  show ?thesis
    using b by (simp add: prepare_properties_def demo_env_def GenPassword_def begin_mount_def free_slot_def NewSlot_def
        demo_slot_def PatchProperties_def paper_server_def free_fs_def demo_props_path)
qed

lemma demo_lock:
  "\<exists>h d. lock_and_spawn (begin_mount now free_slot) paper_server \<lparr>cfg_ID = ''id'', cfg_Name = ''n'', cfg_Type = FlavorPaper,
     cfg_JavaArgs = [], cfg_Features = None, cfg_DiscordToken = [], cfg_DiscordChannels = []\<rparr> False demo_env (free_fs Map.empty)
     = (Inr (h, 0), d)"
  by (simp add: lock_and_spawn_def demo_env_def TryAcquire_def Read_def acquire_refusal_def lock_request_def paper_server_def
      free_fs_def demo_fs_def demo_path writeOwnerAtomic_def PlanLaunch_def findLaunchJar_def Let_def)

lemma demo_locked:
  "\<exists>e d. lock_and_spawn (begin_mount now free_slot) paper_server cfg False demo_env
     (free_fs [Path ''/srv/a'' \<mapsto> Holds foreign_owner]) = (Inl (LockError e), d)"
  by (simp add: lock_and_spawn_def demo_env_def TryAcquire_def Read_def acquire_refusal_def lock_request_def paper_server_def
      free_fs_def demo_fs_def Classify_def IsStale_def foreign_owner_def begin_mount_def free_slot_def NewSlot_def
      DefaultStaleAfter_def)

lemma demo_can_start: "CanStartFrom (s_state free_slot)"
  by (simp add: free_slot_def NewSlot_def CanStartFrom_def)


theorem refused_start_rewrites_properties_witness:
  "\<exists>e s' fs' body'. Start 5 0 demo_opts demo_env free_slot (free_fs [Path ''/srv/a'' \<mapsto> Holds foreign_owner])
       = (Inl (MountFailed (LockError e)), s', fs')
     \<and> fs_props fs' (PropertiesPath (srv_Path paper_server)) = Some (Holds body')
     \<and> (\<exists>m. parse_properties body' = Some m \<and> m ''server-port'' = Some (Itoa 25565))"
proof -
  let ?fs = "free_fs [Path ''/srv/a'' \<mapsto> Holds foreign_owner]"
  obtain e s' fs' where st: "Start 5 0 demo_opts demo_env free_slot ?fs = (Inl (MountFailed (LockError e)), s', fs')"
  proof -
    obtain d where p: "prepare_properties (begin_mount 5 free_slot) paper_server demo_env (fs_props ?fs) = (Inr [], d)"
      using demo_prepare by blast
    obtain e d' where l: "lock_and_spawn (begin_mount 5 free_slot) paper_server \<lparr>cfg_ID = ''id'', cfg_Name = ''n'',
        cfg_Type = FlavorPaper, cfg_JavaArgs = [], cfg_Features = None, cfg_DiscordToken = [], cfg_DiscordChannels = []\<rparr>
        False demo_env ?fs = (Inl (LockError e), d')"
      using demo_locked by blast
    show thesis
      using that demo_can_start by (simp add: Start_def do_mount_def demo_choose p l Let_def)
  qed
  have f: "find_server demo_env (so_ServerID demo_opts) = Some paper_server" by (simp add: demo_find)
  have fits: "start_fits free_slot demo_env paper_server ?fs Map.empty"
    by (rule demo_fits) (simp add: demo_path)
  have "mcsm_properties free_slot pass Map.empty ''server-port'' = Some (Itoa 25565)" for pass
    by (simp add: mcsm_properties_def mcsm_patch_def free_slot_def NewSlot_def demo_slot_def)
  then show ?thesis
    using refused_start_rewrites_properties [OF st f fits] st by blast
qed


end
