(* ===== verification/FakeMain.thy ===== *)
theory FakeMain
  imports FakeServer Slot
begin

text \<open>
  The main program of \<open>cmd/fake-mc-server\<close>: reading its \<open>server.properties\<close>, the two listeners and
  its end, as a machine over what the connections and the kernel do; and the whole it was written to
  test: a slot starts a server, the stand-in boots from the file the slot has written, and the slot's
  RCON session talks to it.
\<close>

subsection \<open>Reading \<open>server.properties\<close>\<close>

fun IndexAny :: "string \<Rightarrow> string \<Rightarrow> nat option" where
  "IndexAny [] cs = None"
| "IndexAny (c # s) cs = (if c \<in> set cs then Some 0 else map_option Suc (IndexAny s cs))"

definition fake_line :: "string \<Rightarrow> (string \<times> string) option" where
  "fake_line raw =
     (let line = TrimSpace raw
      in if line = [] \<or> HasPrefix line ''#'' then None
         else case IndexAny line ''=:'' of
                None \<Rightarrow> None
              | Some i \<Rightarrow> Some (TrimSpace (take i line), TrimSpace (drop (Suc i) line)))"

definition add_fake_line :: "string \<Rightarrow> (string \<rightharpoonup> string) \<Rightarrow> (string \<rightharpoonup> string)" where
  "add_fake_line raw out = (case fake_line raw of None \<Rightarrow> out | Some (k, v) \<Rightarrow> out(k \<mapsto> v))"

text \<open>The second component of the Go function is an error; with one, \<open>main\<close> does not use the first.\<close>

definition readProps :: "string \<Rightarrow> string dir \<Rightarrow> (string \<rightharpoonup> string) option" where
  "readProps path d =
     (case d path of
        Some (Holds body) \<Rightarrow>
          (case scan_lines default_scan_max body of
             TooLong _ \<Rightarrow> None
           | Lines ls \<Rightarrow> Some (fold add_fake_line ls Map.empty))
      | _ \<Rightarrow> None)"

text \<open>
  What \<open>strconv.Atoi\<close> returns beside its error: zero for bad syntax, and the nearest integer for
  digits that are out of range (the unsigned parser stops at the digit that overflows).
\<close>

fun saturated_digits :: "int \<Rightarrow> string \<Rightarrow> int option" where
  "saturated_digits n [] = Some n"
| "saturated_digits n (c # s) =
     (if \<not> is_digit c then None
      else let n' = 10 * n + digit_val c
           in if 2 ^ 64 \<le> n' then Some (2 ^ 64 - 1) else saturated_digits n' s)"

definition Atoi_value :: "string \<Rightarrow> int" where
  "Atoi_value s =
     (let neg = (case s of c # _ \<Rightarrow> c = CHR ''-'' | [] \<Rightarrow> False);
          body = (case s of c # s' \<Rightarrow> if c = CHR ''-'' \<or> c = CHR ''+'' then s' else s | [] \<Rightarrow> [])
      in if body = [] then 0
         else case saturated_digits 0 body of
                None \<Rightarrow> 0
              | Some n \<Rightarrow> if neg then (if 2 ^ 63 < n then - (2 ^ 63) else - n)
                        else if 2 ^ 63 \<le> n then 2 ^ 63 - 1 else n)"

subsection \<open>Booting\<close>

record fake_server =
  fk_port :: int
  fk_rconPort :: int
  fk_pass :: string

datatype fake_error = FakePropsUnread | FakePropsMissing | FakeBindFails int

text \<open>An absent key is the empty string in Go; \<open>listens\<close> says on which ports the kernel lets it listen.\<close>

definition prop_value :: "(string \<rightharpoonup> string) \<Rightarrow> string \<Rightarrow> string" where
  "prop_value props k = (case props k of None \<Rightarrow> [] | Some v \<Rightarrow> v)"

definition fake_boot :: "(int \<Rightarrow> bool) \<Rightarrow> string \<Rightarrow> string dir \<Rightarrow> fake_error + fake_server" where
  "fake_boot listens cwd d =
     (case readProps (PropertiesPath cwd) d of
        None \<Rightarrow> Inl FakePropsUnread
      | Some props \<Rightarrow>
          (let port = Atoi_value (prop_value props ''server-port'');
               rconPort = Atoi_value (prop_value props ''rcon.port'');
               rconPass = prop_value props ''rcon.password''
           in if port = 0 \<or> rconPort = 0 \<or> rconPass = [] then Inl FakePropsMissing
              else if \<not> listens port then Inl (FakeBindFails port)
              else if \<not> listens rconPort then Inl (FakeBindFails rconPort)
              else Inr \<lparr>fk_port = port, fk_rconPort = rconPort, fk_pass = rconPass\<rparr>))"

subsection \<open>Serving\<close>

text \<open>
  The goroutines of the process share the stop channel and the flag \<open>stopped\<close>.  An event is what one
  of them gets from outside: a connection or an error from a listener, the result of one packet read,
  a signal, \<open>main\<close> noticing that the stop channel is closed, and the end of its last pause.
\<close>

datatype fake_phase = Serving | Draining | Gone

record fake_state =
  ft_phase :: fake_phase
  ft_slp :: bool
  ft_rcon :: bool
  ft_conns :: "rcon_conn list"
  ft_stopCh :: bool
  ft_stopped :: bool

datatype fake_event =
    SlpAccepts "u8 list"
  | SlpAcceptFails
  | RconAccepts
  | RconAcceptFails
  | Reads nat "read_failure + u32 \<times> u32 \<times> string"
  | Signalled
  | StopSeen
  | Drained

definition fake_ready :: fake_state where
  "fake_ready = \<lparr>ft_phase = Serving, ft_slp = True, ft_rcon = True, ft_conns = [], ft_stopCh = False, ft_stopped = False\<rparr>"

definition acceptSLP :: "string \<Rightarrow> fake_event \<Rightarrow> fake_state \<Rightarrow> u8 list \<times> fake_state" where
  "acceptSLP json ev st =
     (case ev of
        SlpAccepts s \<Rightarrow> (if ft_slp st then serveSLP json s else [], st)
      | SlpAcceptFails \<Rightarrow> ([], st\<lparr>ft_slp := False\<rparr>)
      | _ \<Rightarrow> ([], st))"

definition acceptRCON :: "fake_event \<Rightarrow> fake_state \<Rightarrow> fake_state" where
  "acceptRCON ev st =
     (case ev of
        RconAccepts \<Rightarrow>
          if ft_rcon st
          then st\<lparr>ft_conns := ft_conns st @ [\<lparr>rc_auth = False, rc_open = True, rc_stop = False\<rparr>]\<rparr> else st
      | RconAcceptFails \<Rightarrow> st\<lparr>ft_rcon := False\<rparr>
      | _ \<Rightarrow> st)"

text \<open>One round of \<open>serveRCON\<close> on a connection.  A panic in a goroutine ends the process.\<close>

definition serve_conn ::
    "string \<Rightarrow> nat \<Rightarrow> read_failure + u32 \<times> u32 \<times> string \<Rightarrow> fake_state \<Rightarrow> u8 list \<times> fake_state" where
  "serve_conn password i r st =
     (if length (ft_conns st) \<le> i \<or> \<not> rc_open (ft_conns st ! i) then ([], st)
      else case r of
             Inl ReadPanics \<Rightarrow> ([], st\<lparr>ft_phase := Gone\<rparr>)
           | Inl ReadEnds \<Rightarrow> ([], st\<lparr>ft_conns := (ft_conns st)[i := (ft_conns st ! i)\<lparr>rc_open := False\<rparr>]\<rparr>)
           | Inr pkt \<Rightarrow>
               (case serve_packet password ((ft_conns st ! i)\<lparr>rc_stop := ft_stopCh st\<rparr>) pkt of
                  (out, k) \<Rightarrow> (out, st\<lparr>ft_conns := (ft_conns st)[i := k], ft_stopCh := rc_stop k\<rparr>)))"

definition main_waits :: "fake_event \<Rightarrow> fake_state \<Rightarrow> fake_state" where
  "main_waits ev st =
     (case ev of
        Signalled \<Rightarrow> if ft_phase st = Serving then st\<lparr>ft_phase := Draining, ft_stopped := True\<rparr> else st
      | StopSeen \<Rightarrow>
          if ft_phase st = Serving \<and> ft_stopCh st then st\<lparr>ft_phase := Draining, ft_stopped := True\<rparr> else st
      | Drained \<Rightarrow> if ft_phase st = Draining then st\<lparr>ft_phase := Gone\<rparr> else st
      | _ \<Rightarrow> st)"

definition fake_step :: "string \<Rightarrow> string \<Rightarrow> fake_event \<Rightarrow> fake_state \<Rightarrow> u8 list \<times> fake_state" where
  "fake_step json password ev st =
     (if ft_phase st = Gone then ([], st)
      else case ev of
             Reads i r \<Rightarrow> serve_conn password i r st
           | SlpAccepts _ \<Rightarrow> acceptSLP json ev st
           | SlpAcceptFails \<Rightarrow> acceptSLP json ev st
           | RconAccepts \<Rightarrow> ([], acceptRCON ev st)
           | RconAcceptFails \<Rightarrow> ([], acceptRCON ev st)
           | _ \<Rightarrow> ([], main_waits ev st))"

definition fake_run :: "string \<Rightarrow> string \<Rightarrow> fake_event list \<Rightarrow> fake_state" where
  "fake_run json password evs = fold (\<lambda>ev st. snd (fake_step json password ev st)) evs fake_ready"

subsection \<open>The two readers agree on the keys the slot sets\<close>

definition plain_line :: "string \<Rightarrow> bool" where
  "plain_line l \<longleftrightarrow> list_all (\<lambda>c. is_space c \<longrightarrow> c \<in> set blanks) l"

lemma plain_line_simps [simp]:
  "plain_line []"
  "plain_line (c # l) \<longleftrightarrow> (is_space c \<longrightarrow> c \<in> set blanks) \<and> plain_line l"
  "plain_line (l @ l') \<longleftrightarrow> plain_line l \<and> plain_line l'"
  by (simp_all add: plain_line_def)

lemma plain_line_space: "plain_line l \<Longrightarrow> c \<in> set l \<Longrightarrow> is_space c \<longleftrightarrow> c \<in> set blanks"
  by (auto simp: plain_line_def list_all_iff is_space_def)

lemma TrimSpace_spaces_after: "\<forall>c\<in>set b. is_space c \<Longrightarrow> TrimSpace (a @ b) = TrimSpace a"
proof -
  assume b: "\<forall>c\<in>set b. is_space c"
  have eq: "dropWhile is_space (rev (a' @ b)) = dropWhile is_space (rev a')" for a'
    using b dropWhile_append2 [of "rev b" is_space "rev a'"] by simp
  show ?thesis
  proof (cases "\<forall>c\<in>set a. is_space c")
    case True
    then have "dropWhile is_space a = []" "dropWhile is_space (a @ b) = []"
      using b by (auto simp: dropWhile_eq_Nil_conv)
    then show ?thesis by (simp only: TrimSpace_def)
  next
    case False
    then have "dropWhile is_space (a @ b) = dropWhile is_space a @ b" by (auto simp: dropWhile_append1)
    then show ?thesis using eq by (simp add: TrimSpace_def)
  qed
qed

lemma TrimSpace_spaces_before: "TrimSpace (dropWhile is_space s) = TrimSpace s"
  by (simp add: TrimSpace_def dropWhile_idem)

lemma TrimLeft_plain: "plain_line l \<Longrightarrow> TrimLeft l blanks = dropWhile is_space l"
  unfolding TrimLeft_def by (rule dropWhile_cong) (auto dest: plain_line_space)

text \<open>Trimming on the right splits off white space; the head stays.\<close>

lemma TrimSpace_split:
  obtains ws where "dropWhile is_space s = TrimSpace s @ ws" and "\<forall>c\<in>set ws. is_space c"
proof -
  let ?t = "dropWhile is_space s"
  have "?t = TrimSpace s @ rev (takeWhile is_space (rev ?t))"
    unfolding TrimSpace_def by (metis rev_append rev_rev_ident takeWhile_dropWhile_id)
  moreover have "\<forall>c\<in>set (rev (takeWhile is_space (rev ?t))). is_space c"
    by (auto dest: set_takeWhileD)
  ultimately show thesis using that by blast
qed

lemma TrimRight_split:
  obtains ws where "s = TrimRight s cs @ ws" and "set ws \<subseteq> set cs"
proof -
  let ?ws = "rev (takeWhile (\<lambda>c. c \<in> set cs) (rev s))"
  have "s = TrimRight s cs @ ?ws"
    unfolding TrimRight_def by (metis rev_append rev_rev_ident takeWhile_dropWhile_id)
  moreover have "set ?ws \<subseteq> set cs" by (auto dest: set_takeWhileD)
  ultimately show thesis using that by blast
qed

lemma find_sep_first:
  "find_sep esc s = Some i \<Longrightarrow> \<not> esc \<Longrightarrow> backslash \<notin> set (take i s) \<Longrightarrow> set (take i s) \<inter> set ''=:'' = {}"
  by (induction esc s arbitrary: i rule: find_sep.induct) (auto split: if_splits)

lemma IndexAny_Some:
  "IndexAny s cs = Some i \<longleftrightarrow> i < length s \<and> s ! i \<in> set cs \<and> set (take i s) \<inter> set cs = {}"
proof (induction s arbitrary: i)
  case (Cons c s)
  then show ?case by (cases i) auto
qed simp

lemma good_key_plain: "good_key k \<Longrightarrow> plain_line k \<Longrightarrow> \<forall>c\<in>set k. \<not> is_space c"
  by (auto simp: good_key_def dest: plain_line_space)

lemma key_before_sep:
  assumes "good_key k" and "t \<noteq> []" and "x = k @ ws" and "set ws \<subseteq> set blanks"
    and "i < length t" and "take i t = x" and "t ! i \<in> set ''=:''"
  shows "set (take i t) \<inter> set ''=:'' = {} \<and> backslash \<notin> set (take i t) \<and> t ! 0 = k ! 0 \<and> find_sep False t = Some i"
proof -
  have k: "k \<noteq> []" "set k \<inter> {CHR ''='', CHR '':'', backslash} = {}"
    using assms(1) by (auto simp: good_key_def)
  have x: "set (take i t) \<inter> {CHR ''='', CHR '':'', backslash} = {}"
    using k(2) assms(3,4,6) by auto
  have t: "t = take i t @ t ! i # drop (Suc i) t" using assms(5) by (rule id_take_nth_drop)
  have "find_sep False (take i t @ t ! i # drop (Suc i) t) = Some (length (take i t))"
    using find_sep_plain [OF x] assms(7) by simp
  then have "find_sep False t = Some i" using assms(5) t by simp
  moreover have "t ! 0 = k ! 0"
    using k(1) assms(3,6) t by (metis append_Cons nth_Cons_0 append.assoc neq_Nil_conv)
  ultimately show ?thesis using x by auto
qed

lemma read_line_fake:
  assumes "plain_line l" and "good_key k" and "plain_line k" and "read_line l = Some (k, v)"
  shows "fake_line l = Some (k, TrimSpace v)"
proof -
  let ?t = "dropWhile is_space l"
  have t: "TrimLeft l blanks = ?t" by (rule TrimLeft_plain [OF assms(1)])
  have pt: "plain_line ?t"
    using assms(1) by (auto simp: plain_line_def list_all_iff dest: set_dropWhileD)
  obtain i where i: "\<not> is_comment ?t" "find_sep False ?t = Some i" "k = TrimRight (take i ?t) blanks"
      "v = TrimLeft (drop (Suc i) ?t) blanks"
    using assms(4) by (auto simp: read_line_def t Let_def split: if_splits option.splits)
  obtain bl where bl: "take i ?t = k @ bl" "set bl \<subseteq> set blanks"
    using TrimRight_split [of "take i ?t" blanks] i(3) by auto
  note sep = find_sep_is_sep [OF i(2)]
  have ne: "?t \<noteq> []" using i(1) by (auto simp: is_comment_def)
  note k = key_before_sep [OF assms(2) ne refl bl(2) _ bl(1)]
  obtain ws where ws: "?t = TrimSpace l @ ws" "\<forall>c\<in>set ws. is_space c" using TrimSpace_split .
  have iu: "i < length (TrimSpace l)"
  proof (rule ccontr)
    assume "\<not> i < length (TrimSpace l)"
    then have "?t ! i \<in> set ws" using ws(1) sep by (metis in_set_conv_nth nth_append add_diff_inverse_nat length_append nat_add_left_cancel_less)
    then have "is_space (?t ! i)" using ws(2) by blast
    then show False using sep by (auto simp: is_space_def)
  qed
  then have u: "take i (TrimSpace l) = k @ bl" "TrimSpace l ! i = ?t ! i"
      "drop (Suc i) ?t = drop (Suc i) (TrimSpace l) @ ws"
    using bl(1) ws(1) by (simp_all add: nth_append)
  have ix: "IndexAny (TrimSpace l) ''=:'' = Some i"
    using iu u k sep bl(1) by (auto simp: IndexAny_Some)
  have u0: "TrimSpace l \<noteq> []" using iu by auto
  then have "?t ! 0 = TrimSpace l ! 0" using ws(1) by (metis length_greater_0_conv nth_append)
  then have h: "TrimSpace l \<noteq> []" "TrimSpace l ! 0 \<noteq> CHR ''#''"
    using u0 i(1) by (auto simp: is_comment_def)
  have "TrimSpace (k @ bl) = k"
    using bl(2) good_key_plain [OF assms(2,3)] by (subst TrimSpace_spaces_after) (auto simp: TrimSpace_no_space is_space_def)
  moreover have "TrimSpace (drop (Suc i) (TrimSpace l)) = TrimSpace v"
  proof -
    have "plain_line (drop (Suc i) ?t)"
      using pt by (auto simp: plain_line_def list_all_iff dest: in_set_dropD)
    then show ?thesis
      using TrimSpace_spaces_after [OF ws(2)] by (simp add: i(4) TrimLeft_plain TrimSpace_spaces_before u(3))
  qed
  ultimately show ?thesis
    using h ix u(1) by (cases "TrimSpace l") (auto simp: fake_line_def Let_def)
qed

lemma fake_line_read:
  assumes "plain_line l" and "good_key k" and "plain_line k" and "fake_line l = Some (k, w)"
  shows "\<exists>v. read_line l = Some (k, v)"
proof -
  let ?t = "dropWhile is_space l" and ?u = "TrimSpace l"
  obtain i where i: "?u \<noteq> []" "IndexAny ?u ''=:'' = Some i" "k = TrimSpace (take i ?u)"
    using assms(4) by (auto simp: fake_line_def Let_def split: if_splits option.splits)
  obtain ws where ws: "?t = ?u @ ws" using TrimSpace_split by blast
  have pt: "plain_line ?t"
    using assms(1) by (auto simp: plain_line_def list_all_iff dest: set_dropWhileD)
  have iu: "i < length ?u" "?u ! i \<in> set ''=:''" using i(2) by (auto simp: IndexAny_Some)
  have kne: "k \<noteq> []" using assms(2) by (simp add: good_key_def)
  have hd: "\<not> is_space (?u ! 0)"
    using i(1) ws hd_dropWhile [of is_space l] by (cases ?u) auto
  have i0: "i \<noteq> 0"
  proof
    assume "i = 0"
    then have "k = []" using i(3) by (simp add: TrimSpace_def)
    then show False using kne by simp
  qed
  have "dropWhile is_space (take i ?u) = take i ?u"
    using hd i(1) i0 by (cases ?u; cases i) auto
  then obtain bl where bl: "take i ?u = k @ bl" "\<forall>c\<in>set bl. is_space c"
    using TrimSpace_split [of "take i ?u"] i(3) by metis
  have tt: "take i ?t = k @ bl" "?t ! i = ?u ! i" "i < length ?t" "?t \<noteq> []"
    using ws bl(1) iu(1) i(1) by (auto simp: nth_append)
  have "set (k @ bl) \<subseteq> set ?t" using tt(1) by (metis set_take_subset)
  then have blb: "set bl \<subseteq> set blanks"
    using bl(2) plain_line_space [OF pt] by auto
  have s: "find_sep False ?t = Some i" "?t ! 0 = k ! 0"
    using key_before_sep [OF assms(2) tt(4) refl blb tt(3,1)] iu(2) tt(2) by simp_all
  have nc: "\<not> is_comment ?t"
    using assms(2) s(2) tt(4) by (simp add: is_comment_def good_key_def)
  have "TrimRight (k @ bl) blanks = k"
  proof -
    have "set k \<inter> set blanks = {}" using assms(2) by (auto simp: good_key_def)
    then have "TrimRight k blanks = k" by (rule TrimRight_id)
    moreover have "dropWhile (\<lambda>c. c \<in> set blanks) (rev (k @ bl)) = dropWhile (\<lambda>c. c \<in> set blanks) (rev k)"
      using blb dropWhile_append2 [of "rev bl" "\<lambda>c. c \<in> set blanks" "rev k"] by auto
    ultimately show ?thesis by (simp add: TrimRight_def)
  qed
  then show ?thesis
    using nc s(1) tt(1) by (simp add: read_line_def TrimLeft_plain [OF assms(1)] Let_def)
qed

definition fake_entries :: "string list \<Rightarrow> (string \<times> string) list" where
  "fake_entries ls = concat (map (\<lambda>l. case fake_line l of None \<Rightarrow> [] | Some kv \<Rightarrow> [kv]) ls)"

lemma fold_add_fake_line: "fold add_fake_line ls m = m ++ map_of (rev (fake_entries ls))"
proof (induction ls arbitrary: m)
  case (Cons l ls)
  then show ?case by (cases "fake_line l") (auto simp: fake_entries_def add_fake_line_def)
qed (simp add: fake_entries_def)

lemma in_fake_entries: "(k, w) \<in> set (fake_entries ls) \<longleftrightarrow> (\<exists>l\<in>set ls. fake_line l = Some (k, w))"
  by (induction ls) (auto simp: fake_entries_def split: option.splits)

lemma in_entries: "(k, v) \<in> set (entries ls) \<longleftrightarrow> (\<exists>l\<in>set ls. read_line l = Some (k, v))"
  by (induction ls) (auto simp: entries_def split: option.splits)

lemma map_of_constant:
  assumes "(k, v) \<in> set xs" and "\<And>w. (k, w) \<in> set xs \<Longrightarrow> w = v"
  shows "map_of xs k = Some v"
proof -
  obtain w where w: "map_of xs k = Some w" using weak_map_of_SomeI [OF assms(1)] by blast
  have "w = v" by (rule assms(2) [OF map_of_SomeD [OF w]])
  then show ?thesis using w by simp
qed

text \<open>A patch in which the two readers cannot differ.\<close>

definition plain_patch :: "(string \<times> string) list \<Rightarrow> bool" where
  "plain_patch patch \<longleftrightarrow> good_patch patch \<and> (\<forall>(k, v)\<in>set patch. plain_line k \<and> list_all (\<lambda>c. \<not> is_space c) v)"

lemma plain_patchD:
  assumes "plain_patch patch" and "(k, v) \<in> set patch"
  shows "good_key k" and "plain_line k" and "\<forall>c\<in>set v. \<not> is_space c" and "plain_line v"
proof -
  show "good_key k" "plain_line k" and v: "\<forall>c\<in>set v. \<not> is_space c"
    using assms by (fastforce simp: plain_patch_def good_patch_def list_all_iff)+
  then show "plain_line v" by (simp add: plain_line_def list_all_iff)
qed

lemma patched_entry:
  assumes "good_patch patch" and "map_of patch k = Some v" and "(k, v') \<in> set (entries (patched_lines patch ls))"
  shows "v' = v"
proof -
  have "map_of patch k' = Some w" if "(k', w) \<in> set patch" for k' w
    using assms(1) that map_of_is_SomeI [of patch k' w] by (simp add: good_patch_def keys_of_def)
  then show ?thesis
    using assms(2,3) by (auto simp: patched_entries [OF assms(1)] overridden_def)
qed

lemma plain_patched_lines:
  assumes "plain_patch patch" and "\<forall>l\<in>set ls. plain_line l" and "l' \<in> set (patched_lines patch ls)"
  shows "plain_line l'"
  using assms(3)
proof (cases rule: patched_line_cases)
  case kept
  then show ?thesis using assms(2) by blast
next
  case (written k c v)
  have "(k, v) \<in> set patch" by (rule map_of_SomeD [OF written(2)])
  from plain_patchD [OF assms(1) this] show ?thesis using written(1,3) by (auto simp: is_space_def)
next
  case (appended k v)
  from plain_patchD [OF assms(1) appended(2)] show ?thesis using appended(1) by (simp add: is_space_def)
qed

lemma fake_reads_patched:
  assumes "plain_patch patch" and "\<forall>l\<in>set ls. plain_line l" and "map_of patch k = Some v"
  shows "fold add_fake_line (patched_lines patch ls) Map.empty k = Some v"
proof -
  let ?ls = "patched_lines patch ls"
  have g: "good_patch patch" using assms(1) by (simp add: plain_patch_def)
  have kv: "(k, v) \<in> set patch" using assms(3) by (rule map_of_SomeD)
  note k = plain_patchD(1,2) [OF assms(1) kv] TrimSpace_no_space [OF plain_patchD(3) [OF assms(1) kv]]
  have f: "fake_line l = Some (k, v)" if "l \<in> set ?ls" "read_line l = Some (k, v')" for l v'
  proof -
    have "(k, v') \<in> set (entries ?ls)" using that by (auto simp: in_entries)
    from patched_entry [OF g assms(3) this] have "v' = v" .
    then show ?thesis
      using read_line_fake [OF plain_patched_lines [OF assms(1,2) that(1)] k(1,2) that(2)] k(3) by simp
  qed
  have "map_of (rev (entries ?ls)) k = Some v"
    using entries_patched_lines [OF g, of ls] assms(3) by (simp add: map_add_def)
  then have "(k, v) \<in> set (entries ?ls)" by (auto dest: map_of_SomeD)
  then have i: "(k, v) \<in> set (rev (fake_entries ?ls))" using f by (auto simp: in_entries in_fake_entries)
  have u: "w = v" if mem: "(k, w) \<in> set (rev (fake_entries ?ls))" for w
  proof -
    obtain l where l: "l \<in> set ?ls" "fake_line l = Some (k, w)" using mem by (auto simp: in_fake_entries)
    obtain v' where "read_line l = Some (k, v')"
      using fake_line_read [OF plain_patched_lines [OF assms(1,2) l(1)] k(1,2) l(2)] by blast
    then show ?thesis using f [OF l(1)] l(2) by simp
  qed
  from map_of_constant [OF i u] show ?thesis by (simp add: fold_add_fake_line)
qed

subsection \<open>Booting from what a slot has written\<close>

lemma saturated_digits_value:
  "list_all is_digit s \<Longrightarrow> 0 \<le> n \<Longrightarrow> foldl (\<lambda>n c. 10 * n + digit_val c) n s < 2 ^ 64 \<Longrightarrow>
     saturated_digits n s = Some (foldl (\<lambda>n c. 10 * n + digit_val c) n s)"
proof (induction s arbitrary: n)
  case (Cons c s)
  have grow: "n' \<le> foldl (\<lambda>n c. 10 * n + digit_val c) n' s'" if "list_all is_digit s'" "0 \<le> n'" for n' :: int and s'
    using that
  proof (induction s' arbitrary: n')
    case (Cons d s')
    have "0 \<le> digit_val d" using Cons.prems(1) by (simp add: digit_val_def is_digit_def)
    then show ?case using Cons.IH [of "10 * n' + digit_val d"] Cons.prems by simp
  qed simp
  have d: "0 \<le> digit_val c" using Cons.prems(1) by (simp add: digit_val_def is_digit_def)
  then show ?case
    using Cons.IH [of "10 * n + digit_val c"] Cons.prems grow [of s "10 * n + digit_val c"] by simp
qed simp

lemma Atoi_value_port: "0 \<le> n \<Longrightarrow> n < 2 ^ 32 \<Longrightarrow> Atoi_value (Itoa n) = n"
  using nat_digits_all [of "nat n"] nat_digits_sign [of "nat n"] saturated_digits_value [of "nat_digits (nat n)" 0]
    digits_val_nat_digits [of "nat n"]
  by (cases "nat_digits (nat n)") (auto simp: Atoi_value_def Itoa_def Let_def digits_val_def simp del: digits_val_nat_digits)

lemma plain_mcsm_patch:
  assumes "good_patch (mcsm_patch port rconPort pass)" and "GenPassword (Some b) = Some pass" and "0 \<le> port" and "0 \<le> rconPort"
  shows "plain_patch (mcsm_patch port rconPort pass)"
proof -
  have "list_all (\<lambda>c. \<not> is_space c) pass"
    using GenPassword_chars [OF assms(2)] by (auto simp: list_all_iff hex_digits_def is_space_def dest: subsetD)
  moreover have "list_all (\<lambda>c. \<not> is_space c) (Itoa n)" if "0 \<le> n" for n
    using that by (auto simp: Itoa_def list_all_iff is_space_def is_digit_def dest: nat_digits_chars)
  ultimately show ?thesis
    using assms by (simp add: plain_patch_def mcsm_patch_def is_space_def)
qed

lemma Split_chars: "w \<in> set (Split s sep) \<Longrightarrow> set w \<subseteq> set s"
proof (induction s arbitrary: w)
  case (Cons c s)
  obtain v vs where vs: "Split s sep = v # vs" by (cases "Split s sep") auto
  then have "set v \<subseteq> set s" "\<forall>w\<in>set vs. set w \<subseteq> set s" using Cons.IH by auto
  then show ?case using Cons.prems vs by (cases "c = sep") auto
qed simp

lemma scan_lines_chars:
  assumes "scan_lines lim s = Lines ls" and "l \<in> set ls"
  shows "set l \<subseteq> set s"
proof -
  from assms obtain r where r: "r \<in> set (raw_lines s)" "l = drop_cr r"
    by (auto simp: scan_lines_def Let_def split: if_splits)
  then have "r \<in> set (Split s nl)" by (auto split: if_splits dest: in_set_butlastD)
  then show ?thesis using r(2) drop_cr_set [of r] Split_chars by fastforce
qed

lemma boots_from_patched:
  assumes "plain_properties body m" and "plain_line (filter (\<lambda>c. c \<noteq> nl) body)"
    and "good_patch (mcsm_patch port rconPort pass)" and "GenPassword (Some b) = Some pass" and "pass \<noteq> []"
    and "patch_body (mcsm_patch port rconPort pass) body = Some body'" and "d (PropertiesPath cwd) = Some (Holds body')"
    and "0 < port" "port < 2 ^ 32" "0 < rconPort" "rconPort < 2 ^ 32" and "listens port" "listens rconPort"
  shows "fake_boot listens cwd d = Inr \<lparr>fk_port = port, fk_rconPort = rconPort, fk_pass = pass\<rparr>"
proof -
  let ?p = "mcsm_patch port rconPort pass"
  obtain ls where ls: "scan_lines default_scan_max body = Lines ls" "\<forall>l\<in>set ls. cr \<notin> set l"
    using assms(1) by (auto simp: plain_properties_def list_all_iff split: scan_result.splits)
  have sc: "scan_lines default_scan_max body' = Lines (patched_lines ?p ls)"
    using patch_body_lines [OF assms(3) mcsm_patch_neq ls] assms(6) by simp
  have pl: "\<forall>l\<in>set ls. plain_line l"
    using scan_lines_chars [OF ls(1)] scan_lines_no_nl [OF ls(1)] assms(2)
    by (fastforce simp: plain_line_def list_all_iff)
  have pp: "plain_patch ?p" using assms(8,10) by (intro plain_mcsm_patch [OF assms(3,4)]) simp_all
  let ?m = "fold add_fake_line (patched_lines ?p ls) Map.empty"
  have "?m ''server-port'' = Some (Itoa port)" "?m ''rcon.port'' = Some (Itoa rconPort)" "?m ''rcon.password'' = Some pass"
    by (rule fake_reads_patched [OF pp pl], simp add: mcsm_patch_def)+
  then show ?thesis
    using assms(5,8-13) by (simp add: fake_boot_def readProps_def assms(7) sc prop_value_def Atoi_value_port)
qed


definition seeded_env :: start_env where
  "seeded_env = demo_env\<lparr>se_random := Some [1]\<rparr>"

lemma seeded_env_simps:
  "se_lock_now seeded_env = se_lock_now demo_env" "se_lock_fault seeded_env = se_lock_fault demo_env"
  "se_lock_tmp seeded_env = se_lock_tmp demo_env" "se_pid seeded_env = se_pid demo_env"
  "se_release_io seeded_env = se_release_io demo_env" "se_spawn seeded_env = se_spawn demo_env"
  by (simp_all add: seeded_env_def)

lemma seeded_password: "GenPassword (Some [1]) = Some ''01''"
  by (simp add: GenPassword_def hex_digits_def)

lemma seeded_prepare:
  "\<exists>d. prepare_properties (begin_mount now free_slot) paper_server seeded_env (fs_props (free_fs owners)) = (Inr ''01'', d)"
proof -
  have "good_patch (mcsm_patch 25565 (25565 + rconPortOffset) ''01'')"
    by (rule good_mcsm_patch [OF _ _ seeded_password]) simp_all
  then obtain b where b: "patch_body (mcsm_patch 25565 (25565 + rconPortOffset) ''01'') [] = Some b"
    using plain_patched [OF _ mcsm_patch_neq, of 25565 "25565 + rconPortOffset" "''01''" "[]" Map.empty]
    by (auto simp: plain_properties_def parse_properties_def scan_lines_def)
  show ?thesis
    using b by (simp add: prepare_properties_def seeded_env_def demo_env_def seeded_password begin_mount_def free_slot_def
        NewSlot_def demo_slot_def PatchProperties_def paper_server_def free_fs_def demo_props_path)
qed

lemma seeded_find: "find_server seeded_env sid = find_server demo_env sid"
  by (simp add: find_server_def seeded_env_def split: option.split)

lemma seeded_start:
  "\<exists>s' fs'. Start 5 0 demo_opts seeded_env free_slot (free_fs Map.empty) = (Inr (), s', fs')"
proof -
  have c: "choose_server s ''id'' seeded_env fs = choose_server s ''id'' demo_env fs" for s fs
    by (simp add: choose_server_def seeded_find)
  have l: "lock_and_spawn s srv cfg force seeded_env fs = lock_and_spawn s srv cfg force demo_env fs" for s srv cfg force fs
    by (simp only: lock_and_spawn_def lock_request_def seeded_env_simps)
  show ?thesis
    using seeded_prepare [of 5 Map.empty] demo_lock [of 5] demo_can_start
    by (fastforce simp: Start_def do_mount_def demo_choose c l Let_def)
qed


subsection \<open>Only the password stops it\<close>

text \<open>What the events so far say of each connection.\<close>

definition logged_in :: "string \<Rightarrow> fake_event list \<Rightarrow> nat \<Rightarrow> bool" where
  "logged_in password evs i \<longleftrightarrow> (\<exists>rid. Reads i (Inr (rid, rconLogin, password)) \<in> set evs)"

definition stop_asked :: "string \<Rightarrow> fake_event list \<Rightarrow> bool" where
  "stop_asked password evs \<longleftrightarrow>
     (\<exists>xs i rid ys. evs = xs @ Reads i (Inr (rid, rconExec, ''stop'')) # ys \<and> logged_in password xs i)"

lemma fake_run_snoc [simp]:
  "fake_run json password (evs @ [ev]) = snd (fake_step json password ev (fake_run json password evs))"
  by (simp add: fake_run_def)

lemma logged_in_snoc: "logged_in password evs i \<Longrightarrow> logged_in password (evs @ [ev]) i"
  by (auto simp: logged_in_def)

lemma stop_asked_snoc:
  "stop_asked password evs \<Longrightarrow> stop_asked password (evs @ [ev])"
  "logged_in password evs i \<Longrightarrow> stop_asked password (evs @ [Reads i (Inr (rid, rconExec, ''stop''))])"
  by (fastforce simp: stop_asked_def)+

lemma serve_packet_auth:
  "serve_packet password k pkt = (out, k') \<Longrightarrow> rc_auth k' \<Longrightarrow>
     rc_auth k \<or> (\<exists>rid. pkt = (rid, rconLogin, password))"
  "serve_packet password k pkt = (out, k') \<Longrightarrow> rc_stop k' \<Longrightarrow>
     rc_stop k \<or> (rc_auth k \<and> (\<exists>rid. pkt = (rid, rconExec, ''stop'')))"
  by (auto simp: serve_packet_def handleCmd_def split: if_splits prod.splits)

lemma serve_conn_kept:
  assumes "serve_conn password i r st = (out, st')"
  shows "ft_stopCh st' \<Longrightarrow> ft_stopCh st \<or>
      (i < length (ft_conns st) \<and> rc_auth (ft_conns st ! i) \<and> (\<exists>rid. r = Inr (rid, rconExec, ''stop'')))"
    and "j < length (ft_conns st') \<Longrightarrow> rc_auth (ft_conns st' ! j) \<Longrightarrow>
      j < length (ft_conns st) \<and> (rc_auth (ft_conns st ! j) \<or> (j = i \<and> (\<exists>rid. r = Inr (rid, rconLogin, password))))"
    and "ft_phase st' = ft_phase st \<or> r = Inl ReadPanics \<and> ft_phase st' = Gone"
    and "ft_stopped st' = ft_stopped st"
  using assms serve_packet_auth
  by (auto simp: serve_conn_def nth_list_update split: if_splits sum.splits read_failure.splits prod.splits) fastforce+

lemma fake_run_authenticated:
  "let st = fake_run json password evs
   in (\<forall>i < length (ft_conns st). rc_auth (ft_conns st ! i) \<longrightarrow> logged_in password evs i)
     \<and> (ft_stopCh st \<longrightarrow> stop_asked password evs)"
proof (induction evs rule: rev_induct)
  case Nil
  then show ?case by (simp add: fake_run_def fake_ready_def)
next
  case (snoc ev evs)
  let ?st = "fake_run json password evs"
  have IH: "\<And>i. i < length (ft_conns ?st) \<Longrightarrow> rc_auth (ft_conns ?st ! i) \<Longrightarrow> logged_in password evs i"
      "ft_stopCh ?st \<Longrightarrow> stop_asked password evs"
    using snoc by (auto simp: Let_def)
  show ?case
  proof (cases "\<exists>i r. ev = Reads i r \<and> ft_phase ?st \<noteq> Gone")
    case True
    then obtain i r where ev: "ev = Reads i r" "ft_phase ?st \<noteq> Gone" by blast
    obtain out st' where sc: "serve_conn password i r ?st = (out, st')" by fastforce
    have r: "fake_run json password (evs @ [ev]) = st'" using ev sc by (simp add: fake_step_def)
    have "logged_in password (evs @ [ev]) j" if "j < length (ft_conns st')" "rc_auth (ft_conns st' ! j)" for j
      using serve_conn_kept(2) [OF sc that] IH(1) [of j] ev(1)
      by (auto simp: logged_in_def)
    moreover have "stop_asked password (evs @ [ev])" if "ft_stopCh st'"
      using serve_conn_kept(1) [OF sc that] IH stop_asked_snoc ev(1) by blast
    ultimately show ?thesis unfolding r by simp
  next
    case False
    then show ?thesis
      using IH logged_in_snoc stop_asked_snoc(1)
      by (auto simp: fake_step_def acceptSLP_def acceptRCON_def main_waits_def nth_append Let_def less_Suc_eq
          split: fake_event.splits if_splits)
  qed
qed

text \<open>
  The stand-in ends only when it is asked to: if it is no longer serving, it got a signal, or a
  connection that had logged in with the password sent \<open>stop\<close>, or a packet too short for its two
  integers made the reader panic.
\<close>

theorem stand_in_stops_when_asked:
  assumes "ft_phase (fake_run json password evs) \<noteq> Serving"
  shows "Signalled \<in> set evs \<or> stop_asked password evs \<or> (\<exists>i. Reads i (Inl ReadPanics) \<in> set evs)"
  using assms
proof (induction evs rule: rev_induct)
  case Nil
  then show ?case by (simp add: fake_run_def fake_ready_def)
next
  case (snoc ev evs)
  let ?st = "fake_run json password evs"
  show ?case
  proof (cases "ft_phase ?st = Serving")
    case False
    then show ?thesis using snoc.IH stop_asked_snoc(1) by auto
  next
    case True
    have "ft_stopCh ?st \<Longrightarrow> stop_asked password evs"
      using fake_run_authenticated [of json password evs] by (simp add: Let_def)
    moreover have "ft_phase (snd (serve_conn password i r ?st)) = Serving \<or> r = Inl ReadPanics" for i r
      using serve_conn_kept(3) [of password i r ?st] True by (metis prod.collapse)
    ultimately show ?thesis
      using snoc.prems True stop_asked_snoc(1)
      by (fastforce simp: fake_step_def acceptSLP_def acceptRCON_def main_waits_def
          split: fake_event.splits if_splits)
  qed
qed

theorem stand_in_stops_when_asked_witness:
  "ft_phase (fake_run [] ''pw'' [RconAccepts, Reads 0 (Inr (1, rconLogin, ''pw'')), Reads 0 (Inr (2, rconExec, ''stop'')),
     StopSeen]) = Draining
   \<and> stop_asked ''pw'' [RconAccepts, Reads 0 (Inr (1, rconLogin, ''pw'')), Reads 0 (Inr (2, rconExec, ''stop'')), StopSeen]"
proof -
  let ?evs = "[RconAccepts, Reads 0 (Inr (1, rconLogin, ''pw'')), Reads 0 (Inr (2, rconExec, ''stop'')), StopSeen]"
  have d: "ft_phase (fake_run [] ''pw'' ?evs) = Draining"
    by (simp add: fake_run_def fake_ready_def fake_step_def acceptRCON_def serve_conn_def serve_packet_def handleCmd_def
        main_waits_def rconLogin_def rconExec_def)
  then show ?thesis using stand_in_stops_when_asked [of "[]" "''pw''" ?evs] by simp
qed

text \<open>A peer that has not logged in can end the process: a packet with a length below eight is enough.\<close>

theorem short_packet_ends_stand_in:
  assumes "length body = n" and "n < 8" and "readRconPkt (PutUint32 (word_of_nat n) @ body) = (r, rest)"
  shows "ft_phase (fake_run json password [RconAccepts, Reads 0 r]) = Gone"
proof -
  have n: "unat (word_of_nat n :: u32) = n" using assms(2) by (intro unat_of_nat_small) simp
  have "readRconPkt (PutUint32 (word_of_nat n) @ body) = (Inl ReadPanics, [])"
    using ReadFull_append [of "PutUint32 (word_of_nat n)" 4 body] ReadFull_append [OF assms(1), of "[]"] assms(1,2)
    by (simp add: readRconPkt_def n)
  then show ?thesis
    using assms(3) by (simp add: fake_run_def fake_ready_def fake_step_def acceptRCON_def serve_conn_def)
qed

theorem short_packet_ends_stand_in_witness:
  "ft_phase (fake_run [] ''pw'' [RconAccepts, Reads 0 (fst (readRconPkt (PutUint32 (word_of_nat 0) @ [])))]) = Gone"
  by (rule short_packet_ends_stand_in [where body = "[]" and n = 0]) (simp_all add: prod_eq_iff)

end
