(* ===== verification/Auth.thy ===== *)
theory Auth
  imports Config
begin

text \<open>
  Authentication and authorisation of API requests: \<open>internal/api/auth.go\<close>, \<open>argon2.go\<close> and
  \<open>context.go\<close>, together with \<open>cmd/mcsm-tokens\<close>, which makes the hashes the daemon checks.

  The key derivation \<open>argon2.IDKey\<close> is a third-party function and a parameter (\<open>kdf\<close>, in the order
  of its arguments: password, salt, time, memory, threads, key length); that it panics when the
  time or the number of threads is zero is written out.  \<open>fmt.Sscanf\<close> and raw standard base64 are
  modelled for the formats used.
\<close>

subsection \<open>Raw standard base64\<close>

definition b64_char :: "nat \<Rightarrow> char" where
  "b64_char n =
     char_of (if n < 26 then n + 65 else if n < 52 then n + 71 else if n < 62 then n - 4
              else if n = 62 then 43 else 47)"

definition b64_val :: "char \<Rightarrow> nat option" where
  "b64_val c =
     (let n = (of_char c :: nat)
      in if 65 \<le> n \<and> n \<le> 90 then Some (n - 65)
         else if 97 \<le> n \<and> n \<le> 122 then Some (n - 71)
         else if 48 \<le> n \<and> n \<le> 57 then Some (n + 4)
         else if n = 43 then Some 62 else if n = 47 then Some 63 else None)"

fun b64_sextets :: "nat list \<Rightarrow> nat list" where
  "b64_sextets [] = []"
| "b64_sextets [a] = [a div 4, a mod 4 * 16]"
| "b64_sextets [a, b] = [a div 4, a mod 4 * 16 + b div 16, b mod 16 * 4]"
| "b64_sextets (a # b # c # r) =
     a div 4 # (a mod 4 * 16 + b div 16) # (b mod 16 * 4 + c div 64) # c mod 64 # b64_sextets r"

fun b64_bytes :: "nat list \<Rightarrow> nat list option" where
  "b64_bytes [] = Some []"
| "b64_bytes [x] = None"
| "b64_bytes [x, y] = Some [x * 4 + y div 16]"
| "b64_bytes [x, y, z] = Some [x * 4 + y div 16, y mod 16 * 16 + z div 4]"
| "b64_bytes (x # y # z # w # r) =
     map_option (\<lambda>bs. (x * 4 + y div 16) # (y mod 16 * 16 + z div 4) # (z mod 4 * 64 + w) # bs) (b64_bytes r)"

definition b64_encode :: "string \<Rightarrow> string" where
  "b64_encode s = map b64_char (b64_sextets (map of_char s))"

text \<open>Line breaks are skipped; bits left over at the end are not checked.\<close>

definition b64_decode :: "string \<Rightarrow> string option" where
  "b64_decode s =
     (let vs = map b64_val (filter (\<lambda>c. c \<noteq> nl \<and> c \<noteq> cr) s)
      in if list_all (\<lambda>v. v \<noteq> None) vs then map_option (map char_of) (b64_bytes (map the vs)) else None)"

lemma b64_val_char: "n < 64 \<Longrightarrow> b64_val (b64_char n) = Some n"
  by (auto simp: b64_val_def b64_char_def Let_def)

lemma b64_sextets_lt: "list_all (\<lambda>b. b < 256) bs \<Longrightarrow> list_all (\<lambda>n. n < 64) (b64_sextets bs)"
  by (induction bs rule: b64_sextets.induct) auto

lemma b64_bytes_sextets: "list_all (\<lambda>b. b < 256) bs \<Longrightarrow> b64_bytes (b64_sextets bs) = Some bs"
  by (induction bs rule: b64_sextets.induct) auto

lemma b64_char_range: "n < 64 \<Longrightarrow> b64_char n \<notin> {nl, cr, CHR ''$''}"
  using b64_val_char [of n] by (auto simp: b64_val_def)

lemma of_char_lt: "list_all (\<lambda>b. b < 256) (map of_char s :: nat list)"
  by (auto simp: list_all_iff)

lemma b64_decode_encode: "b64_decode (b64_encode s) = Some s"
proof -
  let ?ns = "b64_sextets (map of_char s)"
  have lt: "\<forall>n\<in>set ?ns. n < 64" using b64_sextets_lt [OF of_char_lt] by (simp add: list_all_iff)
  have f: "filter (\<lambda>c. c \<noteq> nl \<and> c \<noteq> cr) (map b64_char ?ns) = map b64_char ?ns"
    using lt b64_char_range by (auto simp: filter_id_conv)
  have v: "map b64_val (map b64_char ?ns) = map Some ?ns"
    using lt by (simp add: b64_val_char)
  show ?thesis
    unfolding b64_decode_def b64_encode_def Let_def f v
    by (simp add: list_all_iff comp_def b64_bytes_sextets [OF of_char_lt])
qed

lemma b64_encode_no_dollar: "CHR ''$'' \<notin> set (b64_encode s)"
proof
  assume "CHR ''$'' \<in> set (b64_encode s)"
  then obtain n where "n \<in> set (b64_sextets (map of_char s))" "CHR ''$'' = b64_char n"
    by (auto simp: b64_encode_def)
  moreover then have "n < 64" using b64_sextets_lt [OF of_char_lt, of s] by (simp add: list_all_iff)
  ultimately show False using b64_char_range [of n] by simp
qed

subsection \<open>Scanning the parameters\<close>

definition scan_lit :: "string \<Rightarrow> string \<Rightarrow> string option" where
  "scan_lit l s = (if HasPrefix s l then Some (drop (length l) s) else None)"

text \<open>\<open>%d\<close> into an unsigned integer: blanks, then digits, without a sign, within the width.\<close>

definition scan_uint :: "nat \<Rightarrow> string \<Rightarrow> (nat \<times> string) option" where
  "scan_uint bits s =
     (let s1 = dropWhile (\<lambda>c. is_space c \<and> c \<noteq> nl) s; ds = takeWhile is_digit s1
      in if ds = [] then None
         else if 2 ^ bits \<le> digits_val ds then None
         else Some (nat (digits_val ds), dropWhile is_digit s1))"

definition scan_params :: "string \<Rightarrow> (nat \<times> nat \<times> nat) option" where
  "scan_params s =
     (case scan_lit ''m='' s of None \<Rightarrow> None | Some s1 \<Rightarrow>
     (case scan_uint 32 s1 of None \<Rightarrow> None | Some (m, s2) \<Rightarrow>
     (case scan_lit '',t='' s2 of None \<Rightarrow> None | Some s3 \<Rightarrow>
     (case scan_uint 32 s3 of None \<Rightarrow> None | Some (t, s4) \<Rightarrow>
     (case scan_lit '',p='' s4 of None \<Rightarrow> None | Some s5 \<Rightarrow>
     (case scan_uint 8 s5 of None \<Rightarrow> None | Some (p, _) \<Rightarrow> Some (m, t, p)))))))"

subsection \<open>Parsing a stored hash\<close>

record argonHash =
  ah_m :: nat
  ah_t :: nat
  ah_p :: nat
  ah_salt :: string
  ah_hash :: string
  ah_keyLen :: nat

datatype argon_error =
    FieldCount nat | NotArgon2id string | NotVersion19 string | BadParams string | ZeroParam
  | BadSalt | BadHash

definition parseArgon2id :: "string \<Rightarrow> argon_error + argonHash" where
  "parseArgon2id s =
     (let parts = Split s CHR ''$''
      in if length parts \<noteq> 6 then Inl (FieldCount (length parts))
         else if parts ! 1 \<noteq> ''argon2id'' then Inl (NotArgon2id (parts ! 1))
         else if parts ! 2 \<noteq> ''v=19'' then Inl (NotVersion19 (parts ! 2))
         else (case scan_params (parts ! 3) of None \<Rightarrow> Inl (BadParams (parts ! 3))
           | Some (m, t, p) \<Rightarrow>
               if m = 0 \<or> t = 0 \<or> p = 0 then Inl ZeroParam
               else (case b64_decode (parts ! 4) of None \<Rightarrow> Inl BadSalt
                 | Some salt \<Rightarrow>
                    (case b64_decode (parts ! 5) of None \<Rightarrow> Inl BadHash
                     | Some h \<Rightarrow> Inr \<lparr>ah_m = m, ah_t = t, ah_p = p, ah_salt = salt, ah_hash = h,
                                     ah_keyLen = length h\<rparr>))))"

subsection \<open>The authenticator\<close>

record resolvedToken =
  rt_name :: string
  rt_scopes :: "string list"
  rt_hashRaw :: string
  rt_parsed :: argonHash

type_synonym authenticator = "resolvedToken list"
type_synonym kdf = "string \<Rightarrow> string \<Rightarrow> nat \<Rightarrow> nat \<Rightarrow> nat \<Rightarrow> nat \<Rightarrow> string"

fun NewAuthenticator :: "token list \<Rightarrow> argon_error + authenticator" where
  "NewAuthenticator [] = Inr []"
| "NewAuthenticator (t # ts) =
     (case parseArgon2id (tok_Hash t) of
        Inl e \<Rightarrow> Inl e
      | Inr ph \<Rightarrow>
         (case NewAuthenticator ts of
            Inl e \<Rightarrow> Inl e
          | Inr out \<Rightarrow> Inr (\<lparr>rt_name = tok_Name t, rt_scopes = tok_Scopes t, rt_hashRaw = tok_Hash t,
                            rt_parsed = ph\<rparr> # out)))"

text \<open>\<open>None\<close> is a panic.\<close>

definition IDKey :: "kdf \<Rightarrow> string \<Rightarrow> string \<Rightarrow> nat \<Rightarrow> nat \<Rightarrow> nat \<Rightarrow> nat \<Rightarrow> string option" where
  "IDKey kdf pw salt t m p keyLen = (if t = 0 \<or> p = 0 then None else Some (kdf pw salt t m p keyLen))"

fun match_token :: "kdf \<Rightarrow> string \<Rightarrow> authenticator \<Rightarrow> resolvedToken option option" where
  "match_token kdf raw [] = Some None"
| "match_token kdf raw (t # ts) =
     (let h = rt_parsed t
      in case IDKey kdf raw (ah_salt h) (ah_t h) (ah_m h) (ah_p h) (ah_keyLen h) of
           None \<Rightarrow> None
         | Some derived \<Rightarrow> if derived = ah_hash h then Some (Some t) else match_token kdf raw ts)"

record token_info =
  ti_Name :: string
  ti_Scopes :: "string list"

fun HasScope :: "token_info option \<Rightarrow> string \<Rightarrow> bool" where
  "HasScope None scope = False"
| "HasScope (Some t) scope = list_ex (\<lambda>s. s = ''*'' \<or> s = scope) (ti_Scopes t)"

datatype auth_failure = MissingToken | InvalidToken | AuthPanic

text \<open>\<open>header\<close> is the Authorization header, empty when absent.\<close>

definition authenticate :: "kdf \<Rightarrow> authenticator \<Rightarrow> string \<Rightarrow> auth_failure + token_info" where
  "authenticate kdf a header =
     (if header = [] then Inl MissingToken
      else if \<not> HasPrefix header ''Bearer '' then Inl MissingToken
      else let raw = TrimSpace (drop (length ''Bearer '') header)
           in if raw = [] then Inl MissingToken
              else case match_token kdf raw a of
                     None \<Rightarrow> Inl AuthPanic
                   | Some None \<Rightarrow> Inl InvalidToken
                   | Some (Some t) \<Rightarrow> Inr \<lparr>ti_Name = rt_name t, ti_Scopes = rt_scopes t\<rparr>)"

text \<open>
  A denied request reports the scopes of the token, so a request without a token would
  dereference nil; the handler runs only in the remaining case.
\<close>

datatype 'a gate = Denied int string | GatePanic | Allowed 'a

definition requireScope :: "string \<Rightarrow> token_info option \<Rightarrow> 'a \<Rightarrow> 'a gate" where
  "requireScope scope tok next =
     (if HasScope tok scope then Allowed next
      else case tok of None \<Rightarrow> GatePanic | Some t \<Rightarrow> Denied 403 ''scope_denied'')"

text \<open>\<open>chain(auth, scope(s))(h)\<close>: the handler is given the token that was matched.\<close>

definition guarded :: "kdf \<Rightarrow> authenticator \<Rightarrow> string \<Rightarrow> string \<Rightarrow> (token_info \<Rightarrow> 'a) \<Rightarrow> 'a gate" where
  "guarded kdf a scope header h =
     (case authenticate kdf a header of
        Inl MissingToken \<Rightarrow> Denied 401 ''missing_token''
      | Inl InvalidToken \<Rightarrow> Denied 401 ''invalid_token''
      | Inl AuthPanic \<Rightarrow> GatePanic
      | Inr t \<Rightarrow> requireScope scope (Some t) (h t))"

subsection \<open>mcsm-tokens\<close>

text \<open>
  The plaintext read from standard input loses trailing newlines only; the salt is random and an
  argument.  The parameters are 64-bit flags, truncated for the key derivation but printed whole.
\<close>

definition token_plaintext :: "string \<Rightarrow> string option" where
  "token_plaintext input = (let p = TrimRight input [nl] in if p = [] then None else Some p)"

definition token_hash_line :: "kdf \<Rightarrow> string \<Rightarrow> string \<Rightarrow> nat \<Rightarrow> nat \<Rightarrow> nat \<Rightarrow> string option" where
  "token_hash_line kdf plaintext salt m t p =
     map_option
       (\<lambda>h. ''$argon2id$v=19$m='' @ nat_digits m @ '',t='' @ nat_digits t @ '',p='' @ nat_digits p
            @ ''$'' @ b64_encode salt @ ''$'' @ b64_encode h)
       (IDKey kdf plaintext salt (t mod 2 ^ 32) (m mod 2 ^ 32) (p mod 2 ^ 8) 32)"

subsection \<open>Issued hashes are read back\<close>

lemma takeWhile_digits: "r = [] \<or> \<not> is_digit (hd r) \<Longrightarrow> takeWhile is_digit (nat_digits n @ r) = nat_digits n"
  using nat_digits_all [of n] by (cases r) (auto simp: list_all_iff takeWhile_append)

lemma dropWhile_digits: "r = [] \<or> \<not> is_digit (hd r) \<Longrightarrow> dropWhile is_digit (nat_digits n @ r) = r"
  using nat_digits_all [of n] by (cases r) (auto simp: list_all_iff dropWhile_append)

lemma scan_uint_digits:
  assumes "n < 2 ^ bits" and "r = [] \<or> \<not> is_digit (hd r)"
  shows "scan_uint bits (nat_digits n @ r) = Some (n, r)"
proof -
  obtain c s where cs: "nat_digits n = c # s" by (cases "nat_digits n") auto
  then have "\<not> is_space c" using nat_digits_all [of n] by (auto simp: is_digit_def is_space_def)
  then have "dropWhile (\<lambda>c. is_space c \<and> c \<noteq> nl) (nat_digits n @ r) = nat_digits n @ r"
    by (simp add: cs)
  moreover have "int n < 2 ^ bits" using assms(1) by (metis of_nat_less_iff of_nat_numeral of_nat_power)
  ultimately show ?thesis
    using assms(2) by (simp add: scan_uint_def Let_def takeWhile_digits dropWhile_digits)
qed

lemma scan_params_printed:
  assumes "m < 2 ^ 32" "t < 2 ^ 32" "p < 2 ^ 8"
  shows "scan_params (''m='' @ nat_digits m @ '',t='' @ nat_digits t @ '',p='' @ nat_digits p) = Some (m, t, p)"
proof -
  have "scan_uint 32 (nat_digits m @ '',t='' @ nat_digits t @ '',p='' @ nat_digits p)
      = Some (m, '',t='' @ nat_digits t @ '',p='' @ nat_digits p)"
    by (rule scan_uint_digits [OF assms(1)]) (simp add: is_digit_def)
  moreover have "scan_uint 32 (nat_digits t @ '',p='' @ nat_digits p) = Some (t, '',p='' @ nat_digits p)"
    by (rule scan_uint_digits [OF assms(2)]) (simp add: is_digit_def)
  moreover have "scan_uint 8 (nat_digits p) = Some (p, [])"
    using scan_uint_digits [OF assms(3), of "[]"] by simp
  ultimately show ?thesis by (simp add: scan_params_def scan_lit_def)
qed

lemma params_no_dollar:
  "CHR ''$'' \<notin> set (''m='' @ nat_digits m @ '',t='' @ nat_digits t @ '',p='' @ nat_digits p)"
  using nat_digits_chars [of "CHR ''$''"] by (auto simp: is_digit_def)

lemma parse_token_hash_line:
  assumes "token_hash_line kdf pw salt m t p = Some l"
    and "m < 2 ^ 32" "t < 2 ^ 32" "p < 2 ^ 8" "0 < m"
  shows "parseArgon2id l = Inr \<lparr>ah_m = m, ah_t = t, ah_p = p, ah_salt = salt,
           ah_hash = kdf pw salt t m p 32, ah_keyLen = length (kdf pw salt t m p 32)\<rparr>"
proof -
  let ?h = "kdf pw salt t m p 32"
  let ?ps = "''m='' @ nat_digits m @ '',t='' @ nat_digits t @ '',p='' @ nat_digits p"
  let ?parts = "[[], ''argon2id'', ''v=19'', ?ps, b64_encode salt, b64_encode ?h]"
  have l: "l = Join ?parts ''$''" and tp: "t \<noteq> 0" "p \<noteq> 0"
    using assms by (auto simp: token_hash_line_def IDKey_def split: if_splits)
  have "CHR ''$'' \<notin> set w" if "w \<in> set ?parts" for w
    using that params_no_dollar [of m t p] b64_encode_no_dollar [of salt] b64_encode_no_dollar [of ?h]
    by (simp del: set_append) (elim disjE; simp)
  then have parts: "Split l CHR ''$'' = ?parts" unfolding l by (intro Split_Join) auto
  have "scan_params (?parts ! 3) = Some (m, t, p)" using scan_params_printed [OF assms(2-4)] by simp
  then show ?thesis
    using tp assms(5) by (simp add: parseArgon2id_def parts b64_decode_encode)
qed

text \<open>What every resolved token satisfies, so that the key derivation never panics.\<close>

definition auth_ok :: "authenticator \<Rightarrow> bool" where
  "auth_ok a \<longleftrightarrow> list_all (\<lambda>t. 0 < ah_t (rt_parsed t) \<and> 0 < ah_p (rt_parsed t)) a"

lemma parseArgon2id_pos: "parseArgon2id s = Inr h \<Longrightarrow> 0 < ah_t h \<and> 0 < ah_p h"
  by (auto simp: parseArgon2id_def Let_def split: if_splits option.splits)

lemma NewAuthenticator_ok: "NewAuthenticator ts = Inr a \<Longrightarrow> auth_ok a"
  by (induction ts arbitrary: a) (auto simp: auth_ok_def parseArgon2id_pos split: sum.splits)

definition fits :: "kdf \<Rightarrow> string \<Rightarrow> resolvedToken \<Rightarrow> bool" where
  "fits kdf raw t \<longleftrightarrow>
     (let h = rt_parsed t in kdf raw (ah_salt h) (ah_t h) (ah_m h) (ah_p h) (ah_keyLen h) = ah_hash h)"

lemma match_token_find: "auth_ok a \<Longrightarrow> match_token kdf raw a = Some (List.find (fits kdf raw) a)"
  by (induction a) (auto simp: auth_ok_def IDKey_def fits_def Let_def)

lemma authenticate_Inr:
  assumes "auth_ok a"
  shows "authenticate kdf a header = Inr t' \<longleftrightarrow> (\<exists>raw t. header = ''Bearer '' @ raw \<and> TrimSpace raw \<noteq> []
      \<and> List.find (fits kdf (TrimSpace raw)) a = Some t
      \<and> t' = \<lparr>ti_Name = rt_name t, ti_Scopes = rt_scopes t\<rparr>)"
  by (auto simp: authenticate_def match_token_find [OF assms] Let_def HasPrefix_prefix prefix_def
      split: option.splits if_splits)

lemma requireScope_Allowed:
  "requireScope scope (Some t) y = Allowed x \<longleftrightarrow>
     (''*'' \<in> set (ti_Scopes t) \<or> scope \<in> set (ti_Scopes t)) \<and> x = y"
  by (auto simp: requireScope_def list_ex_iff)

text \<open>
  The gate in front of every handler: with an authenticator built from a configuration it never
  panics, and the handler runs exactly for a bearer token (trimmed, not empty) whose first fitting
  configured token carries the scope or the wildcard; it is handed that token.
\<close>

theorem handler_runs_iff_token_has_scope:
  assumes "NewAuthenticator ts = Inr a"
  shows "guarded kdf a scope header h \<noteq> GatePanic
       \<and> (guarded kdf a scope header h = Allowed x \<longleftrightarrow>
            (\<exists>raw t. header = ''Bearer '' @ raw \<and> TrimSpace raw \<noteq> []
               \<and> List.find (fits kdf (TrimSpace raw)) a = Some t
               \<and> (''*'' \<in> set (rt_scopes t) \<or> scope \<in> set (rt_scopes t))
               \<and> x = h \<lparr>ti_Name = rt_name t, ti_Scopes = rt_scopes t\<rparr>))"
proof -
  note ok = NewAuthenticator_ok [OF assms]
  let ?a = "authenticate kdf a header"
  have "?a \<noteq> Inl AuthPanic"
    by (auto simp: authenticate_def match_token_find [OF ok] Let_def split: option.splits)
  then have "guarded kdf a scope header h \<noteq> GatePanic"
    by (auto simp: guarded_def requireScope_def split: sum.splits auth_failure.splits)
  moreover have "guarded kdf a scope header h = Allowed x \<longleftrightarrow>
      (\<exists>t'. ?a = Inr t' \<and> requireScope scope (Some t') (h t') = Allowed x)"
    by (auto simp: guarded_def split: sum.splits auth_failure.splits)
  ultimately show ?thesis unfolding requireScope_Allowed authenticate_Inr [OF ok] by auto
qed

text \<open>
  A token made by \<open>mcsm-tokens\<close> authenticates: with its printed hash first in the configuration,
  presenting the plaintext reaches the handler of every scope it was given, provided the plaintext
  is neither empty nor padded with blanks.
\<close>

theorem issued_token_opens_its_scopes:
  assumes "token_hash_line kdf pw salt m t p = Some l"
    and "m < 2 ^ 32" "t < 2 ^ 32" "p < 2 ^ 8" "0 < m"
    and len: "length (kdf pw salt t m p 32) = 32"
    and pw: "TrimSpace pw = pw" "pw \<noteq> []"
    and a: "NewAuthenticator (tok # ts) = Inr a" "tok_Hash tok = l" "scope \<in> set (tok_Scopes tok)"
  shows "guarded kdf a scope (''Bearer '' @ pw) h
       = Allowed (h \<lparr>ti_Name = tok_Name tok, ti_Scopes = tok_Scopes tok\<rparr>)"
proof -
  have P: "parseArgon2id (tok_Hash tok) = Inr \<lparr>ah_m = m, ah_t = t, ah_p = p, ah_salt = salt,
           ah_hash = kdf pw salt t m p 32, ah_keyLen = 32\<rparr>"
    using parse_token_hash_line [OF assms(1-5)] a(2) len by simp
  let ?r = "\<lparr>rt_name = tok_Name tok, rt_scopes = tok_Scopes tok, rt_hashRaw = tok_Hash tok,
    rt_parsed = \<lparr>ah_m = m, ah_t = t, ah_p = p, ah_salt = salt, ah_hash = kdf pw salt t m p 32, ah_keyLen = 32\<rparr>\<rparr>"
  obtain rest where rest: "NewAuthenticator ts = Inr rest"
    using a(1) by (simp add: P split: sum.splits)
  then have "a = ?r # rest" using a(1) by (simp add: P)
  moreover have "fits kdf pw ?r" by (simp add: fits_def)
  ultimately obtain r where ar: "a = r # rest" "fits kdf pw r" and r: "r = ?r" by blast
  have ar: "a = r # rest" "rt_name r = tok_Name tok" "rt_scopes r = tok_Scopes tok" "fits kdf pw r"
    using ar by (simp_all add: r)
  then have "List.find (fits kdf (TrimSpace pw)) a = Some r" using pw by simp
  then have "authenticate kdf a (''Bearer '' @ pw) = Inr \<lparr>ti_Name = rt_name r, ti_Scopes = rt_scopes r\<rparr>"
    using pw by (intro authenticate_Inr [OF NewAuthenticator_ok [OF a(1)], THEN iffD2] exI
        [of _ pw] exI [of _ r]) simp
  then show ?thesis
    using a(3) ar by (simp add: guarded_def requireScope_Allowed)
qed

text \<open>A key derivation for examples: the password padded to 32 bytes.\<close>

definition pad_kdf :: kdf where
  "pad_kdf pw salt t m p n = take n (pw @ replicate n CHR ''.'')"

definition demo_line :: string where
  "demo_line = the (token_hash_line pad_kdf ''s3cret'' ''NaCl'' 65536 3 2)"

definition demo_token :: token where
  "demo_token = \<lparr>tok_Name = ''ops'', tok_Hash = demo_line, tok_Scopes = [''slot:read''], tok_RateLimit = None\<rparr>"

lemma demo_line: "token_hash_line pad_kdf ''s3cret'' ''NaCl'' 65536 3 2 = Some demo_line"
  by (simp add: demo_line_def token_hash_line_def IDKey_def)

lemma demo_auth: "\<exists>a. NewAuthenticator [demo_token] = Inr a"
  using parse_token_hash_line [OF demo_line] by (simp add: demo_token_def)

theorem issued_token_opens_its_scopes_witness:
  "\<exists>a. NewAuthenticator [demo_token] = Inr a
     \<and> guarded pad_kdf a ''slot:read'' ''Bearer s3cret'' ti_Name = Allowed ''ops''"
proof -
  obtain a where a: "NewAuthenticator [demo_token] = Inr a" using demo_auth by blast
  have "length (pad_kdf ''s3cret'' ''NaCl'' 3 65536 2 32) = 32" "TrimSpace ''s3cret'' = ''s3cret''"
    by (simp_all add: pad_kdf_def TrimSpace_def is_space_def)
  then have "guarded pad_kdf a ''slot:read'' (''Bearer '' @ ''s3cret'') ti_Name = Allowed ''ops''"
    using issued_token_opens_its_scopes [OF demo_line _ _ _ _ _ _ _ a, of "''slot:read''" ti_Name]
    by (simp add: demo_token_def)
  then show ?thesis using a by auto
qed

theorem handler_runs_iff_token_has_scope_witness:
  "\<exists>a. NewAuthenticator [demo_token] = Inr a
     \<and> guarded pad_kdf a ''slot:write'' ''Bearer s3cret'' ti_Name = Denied 403 ''scope_denied''
     \<and> guarded pad_kdf a ''slot:write'' ''Bearer s3cret'' ti_Name \<noteq> GatePanic"
proof -
  obtain a where a: "NewAuthenticator [demo_token] = Inr a" using demo_auth by blast
  have p: "parseArgon2id demo_line = Inr \<lparr>ah_m = 65536, ah_t = 3, ah_p = 2, ah_salt = ''NaCl'',
     ah_hash = pad_kdf ''s3cret'' ''NaCl'' 3 65536 2 32, ah_keyLen = 32\<rparr>"
    using parse_token_hash_line [OF demo_line] by (simp add: pad_kdf_def)
  have t: "TrimSpace ''s3cret'' = ''s3cret''" by (simp add: TrimSpace_def is_space_def)
  have "guarded pad_kdf a ''slot:write'' ''Bearer s3cret'' ti_Name = Denied 403 ''scope_denied''"
    using a by (auto simp: demo_token_def p guarded_def authenticate_def Let_def IDKey_def t requireScope_def)
  then show ?thesis
    using a handler_runs_iff_token_has_scope [OF a, of pad_kdf "''slot:write''" "''Bearer s3cret''" ti_Name] by blast
qed

end
