(* ===== verification/Tools.thy ===== *)
theory Tools
  imports FakeServer Auth
begin

text \<open>
  \<open>internal/ids\<close>, the identifiers; \<open>main\<close> of \<open>cmd/mcsm-tokens\<close>, with the proof that what it prints authenticates;
  and the two probes, \<open>cmd/probe-fake\<close> and \<open>cmd/probe-ws\<close>, as functions from what the network answers to
  the lines they print.  The first probe is run against the stand-in
  server: it prints its answers.
\<close>

subsection \<open>Identifiers\<close>

text \<open>The two generators of the UUID library are arguments.\<close>

definition NewServerID :: "string option \<Rightarrow> string \<Rightarrow> string" where
  "NewServerID v7 v4 = (case v7 of Some i \<Rightarrow> i | None \<Rightarrow> v4)"

definition hex_EncodeToString :: "u8 list \<Rightarrow> string" where
  "hex_EncodeToString b = concat (map (\<lambda>v. [hex_digits ! unat (drop_bit 4 v), hex_digits ! unat (v AND 0x0F)]) b)"

text \<open>\<open>got\<close>: the bytes the random source has filled in; the error of a short read is ignored.\<close>

definition NewTraceID :: "u8 list \<Rightarrow> string" where
  "NewTraceID got = hex_EncodeToString (take 8 (got @ replicate 8 0))"

lemma GenPassword_hex: "GenPassword (Some b) = Some (hex_EncodeToString b)"
  by (simp add: GenPassword_def hex_EncodeToString_def)

text \<open>
  A trace identifier has sixteen hexadecimal digits, also when the random source fails; all eight bytes
  are in it.
\<close>

theorem trace_ids:
  "length (NewTraceID got) = 16 \<and> set (NewTraceID got) \<subseteq> set hex_digits
   \<and> (length got = 8 \<and> length got' = 8 \<longrightarrow> (NewTraceID got = NewTraceID got' \<longleftrightarrow> got = got'))"
proof -
  have l: "length (take 8 (got @ replicate 8 (0 :: u8))) = 8" by simp
  have "GenPassword (Some b) = GenPassword (Some b') \<longleftrightarrow> b = b'" for b b'
    using GenPassword_faithful by blast
  then have "hex_EncodeToString b = hex_EncodeToString b' \<longleftrightarrow> b = b'" for b b' by (simp add: GenPassword_hex)
  then show ?thesis
    using GenPassword_length [OF GenPassword_hex] GenPassword_chars [OF GenPassword_hex] l by (simp add: NewTraceID_def)
qed

theorem trace_ids_witness: "NewTraceID [1, 2, 3, 4, 5, 6, 7, 8] \<noteq> NewTraceID [1, 2, 3, 4, 5, 6, 7, 9]"
  using trace_ids [of "[1, 2, 3, 4, 5, 6, 7, 8]" "[1, 2, 3, 4, 5, 6, 7, 9]"] by simp

subsection \<open>mcsm-tokens\<close>

text \<open>
  \<open>main\<close> of \<open>cmd/mcsm-tokens\<close>: the flags, what the random source fills in for the token and for the salt
  (\<open>None\<close> when it fails), and all of standard input.  Under \<open>-random\<close> the token is shown on standard error;
  the hash goes to standard output.  A time cost or a parallelism of zero makes the key derivation panic.
\<close>

datatype tokens_failure = RandFails | StdinFails go_error | EmptyToken | SaltFails
datatype tokens_end = TokensFail tokens_failure | TokensPanic | TokensPrint "string option" string

definition tokens_input :: "bool \<Rightarrow> u8 list option \<Rightarrow> go_error + string \<Rightarrow> tokens_failure + string option \<times> string" where
  "tokens_input random raw stdin =
     (if random
      then case raw of
             None \<Rightarrow> Inl RandFails
           | Some b \<Rightarrow> Inr (Some (hex_EncodeToString b), hex_EncodeToString b)
      else case stdin of
             Inl e \<Rightarrow> Inl (StdinFails e)
           | Inr body \<Rightarrow>
               (case token_plaintext body of None \<Rightarrow> Inl EmptyToken | Some pw \<Rightarrow> Inr (None, pw)))"

definition tokens_main ::
    "kdf \<Rightarrow> bool \<Rightarrow> nat \<Rightarrow> nat \<Rightarrow> nat \<Rightarrow> u8 list option \<Rightarrow> go_error + string \<Rightarrow> string option \<Rightarrow> tokens_end" where
  "tokens_main kdf random m t p raw stdin salt =
     (case tokens_input random raw stdin of
        Inl e \<Rightarrow> TokensFail e
      | Inr (shown, pw) \<Rightarrow>
     (case salt of
        None \<Rightarrow> TokensFail SaltFails
      | Some s \<Rightarrow>
     (case token_hash_line kdf pw s m t p of
        None \<Rightarrow> TokensPanic
      | Some l \<Rightarrow> TokensPrint shown l)))"

lemma hex_no_space:
  assumes "length b = 16"
  shows "TrimSpace (hex_EncodeToString b) = hex_EncodeToString b \<and> hex_EncodeToString b \<noteq> []"
proof (intro conjI TrimSpace_no_space ballI)
  fix c
  assume "c \<in> set (hex_EncodeToString b)"
  then have "c \<in> set hex_digits" using GenPassword_chars [OF GenPassword_hex] by blast
  then show "\<not> is_space c" by (auto simp: hex_digits_def is_space_def)
next
  have "length (hex_EncodeToString b) = 2 * length b" by (rule GenPassword_length [OF GenPassword_hex])
  then show "hex_EncodeToString b \<noteq> []" using assms by auto
qed

text \<open>What a successful run has done.\<close>

lemma tokens_main_prints:
  "tokens_main kdf random m t p raw stdin salt = TokensPrint shown l \<longleftrightarrow>
     (\<exists>s pw. salt = Some s \<and> token_hash_line kdf pw s m t p = Some l
        \<and> (if random then (\<exists>b. raw = Some b \<and> pw = hex_EncodeToString b \<and> shown = Some pw)
           else (\<exists>body. stdin = Inr body \<and> pw = TrimRight body [nl] \<and> pw \<noteq> [] \<and> shown = None)))"
  by (auto simp: tokens_main_def tokens_input_def token_plaintext_def Let_def split: sum.splits option.splits if_splits)

text \<open>
  C29: a token made by \<open>mcsm-tokens\<close> authenticates.  With the line it prints first in the configuration,
  the token it shows under \<open>-random\<close>, or the one piped in, reaches the handler of every scope the entry
  gives it; a token that is piped in must not be padded with blanks, which the daemon trims from the header and the
  tool does not.
\<close>

theorem printed_token_opens_its_scopes:
  assumes run: "tokens_main kdf random m t p raw stdin salt = TokensPrint shown l"
    and pw: "if random then shown = Some pw \<and> map_option length raw = Some 16
             else \<exists>body. stdin = Inr body \<and> pw = TrimRight body [nl] \<and> TrimSpace pw = pw"
    and "m < 2 ^ 32" "t < 2 ^ 32" "p < 2 ^ 8" "0 < m"
    and len: "\<And>pw salt. length (kdf pw salt t m p 32) = 32"
    and a: "NewAuthenticator (tok # ts) = Inr a" "tok_Hash tok = l" "scope \<in> set (tok_Scopes tok)"
  shows "guarded kdf a scope (''Bearer '' @ pw) h
       = Allowed (h \<lparr>ti_Name = tok_Name tok, ti_Scopes = tok_Scopes tok\<rparr>)"
proof -
  obtain s where l: "token_hash_line kdf pw s m t p = Some l" and ok: "TrimSpace pw = pw" "pw \<noteq> []"
    using run pw hex_no_space unfolding tokens_main_prints by (cases random) fastforce+
  show ?thesis by (rule issued_token_opens_its_scopes [OF l assms(3-6) len ok a])
qed

theorem printed_token_opens_its_scopes_witness:
  "\<exists>l a. tokens_main pad_kdf True 65536 3 2 (Some (replicate 16 0xAB)) (Inr []) (Some ''NaCl'')
        = TokensPrint (Some (hex_EncodeToString (replicate 16 0xAB))) l
     \<and> NewAuthenticator [\<lparr>tok_Name = ''ops'', tok_Hash = l, tok_Scopes = [''slot:read''], tok_RateLimit = None\<rparr>] = Inr a
     \<and> guarded pad_kdf a ''slot:read'' (''Bearer '' @ hex_EncodeToString (replicate 16 0xAB)) ti_Name = Allowed ''ops''"
proof -
  let ?pw = "hex_EncodeToString (replicate 16 0xAB)"
  have len: "length (pad_kdf pw s 3 65536 2 32) = 32" for pw s by (simp add: pad_kdf_def)
  obtain l where l: "token_hash_line pad_kdf ?pw ''NaCl'' 65536 3 2 = Some l"
    by (simp add: token_hash_line_def IDKey_def)
  let ?tok = "\<lparr>tok_Name = ''ops'', tok_Hash = l, tok_Scopes = [''slot:read''], tok_RateLimit = None\<rparr>"
  have run: "tokens_main pad_kdf True 65536 3 2 (Some (replicate 16 0xAB)) (Inr []) (Some ''NaCl'')
      = TokensPrint (Some ?pw) l"
    using l by (simp add: tokens_main_def tokens_input_def)
  obtain a where a: "NewAuthenticator [?tok] = Inr a"
    using parse_token_hash_line [OF l] len by simp
  have "guarded pad_kdf a ''slot:read'' (''Bearer '' @ ?pw) ti_Name = Allowed ''ops''"
    using printed_token_opens_its_scopes [OF run _ _ _ _ _ len a, of ?pw "''slot:read''" ti_Name] by simp
  then show ?thesis using run a by blast
qed

subsection \<open>The probe of the stand-in\<close>

datatype probe_line =
    SlpErrorLine slp_error
  | SlpOkLine "string option" int int int     \<comment> \<open>description, players online and at most, latency\<close>
  | RconDialErrorLine rcon_error
  | RconCmdErrorLine rcon_error
  | RconListLine string
  | RconSayErrorLine rcon_error
  | RconSayLine string

definition slp_line :: "slp_error + status \<Rightarrow> probe_line" where
  "slp_line r = (case r of Inl e \<Rightarrow> SlpErrorLine e
     | Inr st \<Rightarrow> SlpOkLine (st_description st) (pl_online (st_players st)) (pl_max (st_players st)) (st_latency st))"

definition probe_fake :: "slp_error + status \<Rightarrow> rcon_error + client \<Rightarrow> probe_line list" where
  "probe_fake st dialed =
     slp_line st #
     (case dialed of
        Inl e \<Rightarrow> [RconDialErrorLine e]
      | Inr c \<Rightarrow>
          (case Cmd None ''list'' c of (r1, c1) \<Rightarrow>
             (case Cmd None ''say hello'' c1 of (r2, _) \<Rightarrow>
                [case r1 of Inl e \<Rightarrow> RconCmdErrorLine e | Inr resp \<Rightarrow> RconListLine resp,
                 case r2 of Inl e \<Rightarrow> RconSayErrorLine e | Inr resp \<Rightarrow> RconSayLine resp])))"

subsection \<open>The probe of a stream\<close>

text \<open>
  \<open>dialed\<close>: whether the connection opens; \<open>reads\<close>: what its reads return, one after the other.  The result
  is the exit code, the frames printed and whether a read failed.
\<close>

fun probe_frames :: "nat \<Rightarrow> (go_error + string) list \<Rightarrow> string list \<times> bool" where
  "probe_frames 0 reads = ([], False)"
| "probe_frames (Suc n) [] = ([], False)"
| "probe_frames (Suc n) (Inl e # reads) = ([], True)"
| "probe_frames (Suc n) (Inr body # reads) = (case probe_frames n reads of (fs, failed) \<Rightarrow> (body # fs, failed))"

definition probe_header :: "string \<Rightarrow> (string \<times> string) list" where
  "probe_header tok = (if tok = [] then [] else [(''Authorization'', ''Bearer '' @ tok)])"

definition probe_ws ::
    "string \<Rightarrow> string \<Rightarrow> int \<Rightarrow> (string \<Rightarrow> (string \<times> string) list \<Rightarrow> go_error option) \<Rightarrow> (go_error + string) list \<Rightarrow>
     nat \<times> string list" where
  "probe_ws url tok frames dial reads =
     (if url = [] then (2, [])
      else if dial url (probe_header tok) \<noteq> None then (1, [])
      else (0, fst (probe_frames (nat frames) reads)))"

subsection \<open>The probe against the stand-in\<close>

lemma serve_loop_step:
  assumes "length x \<le> 4086" "nul \<notin> set x" "rc_open k"
  shows "serveRCON_loop (Suc n) password k (writeRconPkt rid ptype x @ rest) =
     (case serve_packet password k (rid, ptype, x) of
        (out, k') \<Rightarrow> (case serveRCON_loop n password k' rest of (out', k'') \<Rightarrow> (out @ out', k'')))"
  using readRconPkt_write [OF assms(1,2), of rid ptype rest] assms(3) by simp

lemma Dial_answer_rest:
  assumes "length given \<le> 4086"
  shows "Dial (Inr (writeRconPkt 1 ptype [] @ rest)) None given
       = Inr \<lparr>cl_id = 1, cl_closed = False, cl_in = rest, cl_out = [writeRconPkt 1 typeLogin given]\<rparr>"
proof -
  have "readPacket (writeRconPkt 1 ptype [] @ rest) = (Inr (1, ptype, []), rest)"
    by (rule readPacket_writePacket) (simp_all add: writePacket_is_writeRconPkt)
  then show ?thesis
    using assms
    by (simp add: Dial_def Rcon.authenticate_def nextID_def send_packet_def writePacket_is_writeRconPkt Let_def
        split: unit.split)
qed

text \<open>The packets the probe sends, and what the stand-in makes of them.\<close>

definition probe_packets :: "u8 list" where
  "probe_packets = writeRconPkt 1 typeLogin ''testpass'' @ writeRconPkt 2 typeExecCmd ''list''
     @ writeRconPkt 3 typeExecCmd ''say hello''"

lemma probe_served:
  "fst (serveRCON ''testpass'' False probe_packets)
     = writeRconPkt 1 typeExecCmd [] @ writeRconPkt 2 typeResponse (fst (handleCmd ''list'' False))
       @ writeRconPkt 3 typeResponse []"
proof -
  obtain n where n: "Suc (length probe_packets) = Suc (Suc (Suc (Suc n)))"
    by (simp add: probe_packets_def writeRconPkt_def)
  have w: "writeRconPkt 3 typeExecCmd ''say hello'' = writeRconPkt 3 typeExecCmd ''say hello'' @ []" by simp
  have e: "serveRCON_loop (Suc n) password k [] = ([], k\<lparr>rc_open := False\<rparr>)" if "rc_open k" for password k
    using that by (simp add: readRconPkt_def ReadFull_def)
  show ?thesis
    unfolding serveRCON_def n unfolding probe_packets_def
    by (subst w, subst serve_loop_step, simp_all add: serve_packet_def typeLogin_def typeExecCmd_def rconLogin_def rconExec_def
        typeResponse_def rconResponse_def serve_loop_step e handleCmd_def del: serveRCON_loop.simps append_Nil2)
qed

text \<open>
  The smoke test: against the stand-in the probe prints the status and the answers of the stand-in to its
  two commands, and no error.
\<close>

theorem probe_of_stand_in:
  assumes "unmarshal json = Some st" and "length json < 2 ^ 31 - 16"
  shows "probe_fake
      (Probe unmarshal (Inr (serveSLP json (probe_requests ''127.0.0.1'' 25599 now))) (None, None, None) elapsed)
      (Dial (Inr (fst (serveRCON ''testpass'' False probe_packets))) None ''testpass'')
    = [SlpOkLine (st_description st) (pl_online (st_players st)) (pl_max (st_players st)) elapsed,
       RconListLine ''There are 0 of a max of 20 players online: '', RconSayLine []]"
proof -
  let ?a = "fst (handleCmd ''list'' False)"
  let ?c = "\<lparr>cl_id = 1, cl_closed = False, cl_in = writeRconPkt 2 typeResponse ?a @ writeRconPkt 3 typeResponse [],
     cl_out = [writeRconPkt 1 typeLogin ''testpass'']\<rparr>"
  have s: "Probe unmarshal (Inr (serveSLP json (probe_requests ''127.0.0.1'' 25599 now))) (None, None, None) elapsed
      = Inr (st\<lparr>st_raw := json, st_latency := elapsed\<rparr>)"
    unfolding serveSLP_answers [of "''127.0.0.1''", simplified]
    by (rule Probe_status_response) (use assms in \<open>simp_all add: PutUint64_be_def\<close>)
  have d: "Dial (Inr (fst (serveRCON ''testpass'' False probe_packets))) None ''testpass'' = Inr ?c"
    unfolding probe_served by (rule Dial_answer_rest) simp
  have i: "fst (nextID ?c) = 2" by (simp add: nextID_def)
  have "fst (Cmd None ''list'' ?c) = Inr ?a \<and> cl_in (snd (Cmd None ''list'' ?c)) = writeRconPkt 3 typeResponse []"
    by (rule Cmd_ok [where ptype = typeResponse and p = "writeRconPkt 2 typeResponse ?a"])
      (simp_all only: i, simp_all add: maxPayload_def writePacket_is_writeRconPkt handleCmd_def)
  then obtain c1 where c1: "Cmd None ''list'' ?c = (Inr ?a, c1)" "cl_in c1 = writeRconPkt 3 typeResponse []"
    by (metis prod.collapse)
  have c1': "\<not> cl_closed c1" "fst (nextID c1) = 3"
    using c1(1) by (auto simp: Cmd_def send_packet_def nextID_def maxPayload_def writePacket_is_writeRconPkt Let_def split: sum.splits prod.splits if_splits)
  have c2: "fst (Cmd None ''say hello'' c1) = Inr []"
    using Cmd_ok [of c1 "''say hello''" typeResponse "[]" "writeRconPkt 3 typeResponse []" "[]"] c1' c1(2)
    by (simp add: maxPayload_def writePacket_is_writeRconPkt)
  then show ?thesis
    unfolding s d by (simp add: probe_fake_def slp_line_def c1(1) case_prod_beta) (simp add: handleCmd_def)
qed

theorem probe_of_stand_in_witness:
  "probe_fake
      (Probe demo_unmarshal (Inr (serveSLP ''{}'' (probe_requests ''127.0.0.1'' 25599 7))) (None, None, None) 3)
      (Dial (Inr (fst (serveRCON ''testpass'' False probe_packets))) None ''testpass'')
    = [SlpOkLine None 0 0 3, RconListLine ''There are 0 of a max of 20 players online: '', RconSayLine []]"
proof -
  let ?st = "\<lparr>st_version = [], st_players = \<lparr>pl_max = 0, pl_online = 0\<rparr>, st_description = None, st_raw = [], st_latency = 0\<rparr>"
  have "probe_fake
      (Probe demo_unmarshal (Inr (serveSLP ''{}'' (probe_requests ''127.0.0.1'' 25599 7))) (None, None, None) 3)
      (Dial (Inr (fst (serveRCON ''testpass'' False probe_packets))) None ''testpass'')
    = [SlpOkLine (st_description ?st) (pl_online (st_players ?st)) (pl_max (st_players ?st)) 3,
       RconListLine ''There are 0 of a max of 20 players online: '', RconSayLine []]"
    by (rule probe_of_stand_in) (simp_all add: demo_unmarshal_def)
  then show ?thesis by (simp only: status.simps players.simps)
qed

text \<open>The stream probe prints the frames that arrive before the first failed read, and at most as many as asked for.\<close>

lemma probe_frames_prints: "fst (probe_frames n reads) = map projr (takeWhile (\<lambda>r. \<not> isl r) (take n reads))"
  by (induction n reads rule: probe_frames.induct) (simp_all add: case_prod_beta)

end
