(* ===== verification/Follow.thy ===== *)
theory Follow
  imports LogTail
begin

text \<open>
  The loops of the tailer, \<open>internal/logtail/tailer.go\<close>: waiting for the file (\<open>waitForFile\<close>),
  following it until it is rotated (\<open>tailOnce\<close>), and opening it again (\<open>Run\<close>).  What the loops
  select from is their input: a file-system event comes with the bytes of the open file at the moment
  it is handled and the clock, and an opening with what the calls that open the file return.  Reading
  an open file does not fail.
\<close>

datatype watch_op = OpCreate | OpWrite | OpRemove | OpRename | OpChmod

record watch_event =
  we_path :: string
  we_ops :: "watch_op list"

definition Has :: "watch_event \<Rightarrow> watch_op \<Rightarrow> bool" where
  "Has ev op \<longleftrightarrow> op \<in> set (we_ops ev)"

subsection \<open>Waiting for the file\<close>

datatype wait_input = WaitCanceled | WaitTimeout | WaitEvent watch_event | WaitWatchError

datatype wait_end = FileThere | WaitFails | StillWaiting

text \<open>Each turn of the loop looks for the file first and then waits for one input.\<close>

fun wait_loop :: "string \<Rightarrow> (bool \<times> wait_input) list \<Rightarrow> wait_end" where
  "wait_loop path [] = StillWaiting"
| "wait_loop path ((there, i) # rest) =
     (if there then FileThere
      else case i of
             WaitCanceled \<Rightarrow> WaitFails
           | WaitTimeout \<Rightarrow> WaitFails
           | WaitEvent ev \<Rightarrow> if we_path ev = path \<and> Has ev OpCreate then FileThere else wait_loop path rest
           | WaitWatchError \<Rightarrow> wait_loop path rest)"

record wait_env =
  wv_there :: bool      \<comment> \<open>the file exists when the tailer starts\<close>
  wv_watcher :: bool    \<comment> \<open>\<open>fsnotify.NewWatcher\<close> succeeds\<close>
  wv_parent :: bool     \<comment> \<open>its directory can be watched\<close>
  wv_inputs :: "(bool \<times> wait_input) list"

definition waitForFile :: "string \<Rightarrow> wait_env \<Rightarrow> wait_end" where
  "waitForFile path e =
     (if wv_there e then FileThere
      else if \<not> wv_watcher e then WaitFails
      else if \<not> wv_parent e then WaitFails
      else wait_loop path (wv_inputs e))"

subsection \<open>Following a file\<close>

datatype tail_input =
    CtxDone
  | Watched watch_event string "nat \<Rightarrow> time"
  | WatchError

datatype tail_end = TailCanceled | TailRotated | TailFails

text \<open>\<open>None\<close> in the result means that the loop waits for more input; \<open>None\<close> outside is a panic.\<close>

fun watch_loop :: "duration \<Rightarrow> nat \<Rightarrow> tail_input list \<Rightarrow> tailer \<Rightarrow> (tailer \<times> tail_end option) option" where
  "watch_loop zone pos [] t = Some (t, None)"
| "watch_loop zone pos (CtxDone # rest) t = Some (t, Some TailCanceled)"
| "watch_loop zone pos (WatchError # rest) t = watch_loop zone pos rest t"
| "watch_loop zone pos (Watched ev content clk # rest) t =
     (if Has ev OpWrite \<and> we_path ev = t_path t then
        (case readUntilEOF zone clk content pos t of
           None \<Rightarrow> None
         | Some (t', pos') \<Rightarrow> watch_loop zone pos' rest t')
      else if Has ev OpRemove \<or> Has ev OpRename then
        (if we_path ev = t_path t then Some (t, Some TailRotated) else watch_loop zone pos rest t)
      else if Has ev OpCreate \<and> we_path ev = t_path t then Some (t, Some TailRotated)
      else watch_loop zone pos rest t)"

record open_env =
  op_open :: bool              \<comment> \<open>\<open>os.Open\<close> succeeds\<close>
  op_body :: "string option"   \<comment> \<open>what the backfill reads, if it can\<close>
  op_now :: time
  op_size :: nat               \<comment> \<open>where seeking to the end leads\<close>
  op_watch :: bool             \<comment> \<open>the file and its directory can be watched\<close>

definition tailOnce :: "duration \<Rightarrow> open_env \<Rightarrow> tail_input list \<Rightarrow> tailer \<Rightarrow> (tailer \<times> tail_end option) option" where
  "tailOnce zone e ins t =
     (if \<not> op_open e then Some (t, Some TailFails)
      else case (case op_body e of None \<Rightarrow> Some t | Some body \<Rightarrow> backfill zone (op_now e) body 200 t) of
             None \<Rightarrow> None
           | Some t' \<Rightarrow>
               if \<not> op_watch e then Some (t', Some TailFails) else watch_loop zone (op_size e) ins t')"

subsection \<open>Opening it again\<close>

record attempt =
  at_opening :: open_env
  at_inputs :: "tail_input list"
  at_canceled :: bool          \<comment> \<open>the context ends during the pause that follows\<close>

text \<open>The second component: whether the loop has returned.\<close>

fun tail_attempts :: "duration \<Rightarrow> attempt list \<Rightarrow> tailer \<Rightarrow> (tailer \<times> bool) option" where
  "tail_attempts zone [] t = Some (t, False)"
| "tail_attempts zone (a # as) t =
     (case tailOnce zone (at_opening a) (at_inputs a) t of
        None \<Rightarrow> None
      | Some (t', None) \<Rightarrow> Some (t', False)
      | Some (t', Some TailCanceled) \<Rightarrow> Some (t', True)
      | Some (t', Some _) \<Rightarrow> if at_canceled a then Some (t', True) else tail_attempts zone as t')"

definition close_tail :: "tailer \<Rightarrow> (tailer \<times> bool) option" where
  "close_tail t = map_option (\<lambda>b. (t\<lparr>t_bcast := b\<rparr>, True)) (br_Close (t_bcast t))"

definition tail_Run :: "duration \<Rightarrow> wait_env \<Rightarrow> attempt list \<Rightarrow> tailer \<Rightarrow> (tailer \<times> bool) option" where
  "tail_Run zone e as t =
     (case waitForFile (t_path t) e of
        StillWaiting \<Rightarrow> Some (t, False)
      | WaitFails \<Rightarrow> close_tail t
      | FileThere \<Rightarrow>
          (case tail_attempts zone as t of
             None \<Rightarrow> None
           | Some (t', returned) \<Rightarrow> if returned then close_tail t' else Some (t', False)))"

subsection \<open>A log and its rotations\<close>

text \<open>
  What happens to a log file while it is followed: whole lines are appended, it is truncated and
  rewritten shorter, or something happens that is none of its business.
\<close>

datatype log_step = Appends string "nat \<Rightarrow> time" | Truncates string "nat \<Rightarrow> time" | Noise tail_input

definition whole_lines :: "string \<Rightarrow> bool" where
  "whole_lines w \<longleftrightarrow> w = [] \<or> last w = nl"

fun is_noise :: "string \<Rightarrow> tail_input \<Rightarrow> bool" where
  "is_noise path CtxDone = False"
| "is_noise path WatchError = True"
| "is_noise path (Watched ev _ _) = (we_path ev \<noteq> path \<or> set (we_ops ev) \<subseteq> {OpChmod})"

definition wrote :: "string \<Rightarrow> watch_event" where
  "wrote path = \<lparr>we_path = path, we_ops = [OpWrite]\<rparr>"

fun valid_steps :: "string \<Rightarrow> string \<Rightarrow> log_step list \<Rightarrow> bool" where
  "valid_steps path c [] = True"
| "valid_steps path c (Appends w _ # ss) = (whole_lines w \<and> valid_steps path (c @ w) ss)"
| "valid_steps path c (Truncates w _ # ss) = (length w < length c \<and> whole_lines w \<and> valid_steps path w ss)"
| "valid_steps path c (Noise i # ss) = (is_noise path i \<and> valid_steps path c ss)"

fun step_inputs :: "string \<Rightarrow> string \<Rightarrow> log_step list \<Rightarrow> tail_input list" where
  "step_inputs path c [] = []"
| "step_inputs path c (Appends w clk # ss) = Watched (wrote path) (c @ w) clk # step_inputs path (c @ w) ss"
| "step_inputs path c (Truncates w clk # ss) = Watched (wrote path) w clk # step_inputs path w ss"
| "step_inputs path c (Noise i # ss) = i # step_inputs path c ss"

fun content_after :: "string \<Rightarrow> log_step list \<Rightarrow> string" where
  "content_after c [] = c"
| "content_after c (Appends w _ # ss) = content_after (c @ w) ss"
| "content_after c (Truncates w _ # ss) = content_after w ss"
| "content_after c (Noise i # ss) = content_after c ss"

fun step_lines :: "log_step list \<Rightarrow> string list" where
  "step_lines [] = []"
| "step_lines (Appends w _ # ss) = fresh_lines w @ step_lines ss"
| "step_lines (Truncates w _ # ss) = fresh_lines w @ step_lines ss"
| "step_lines (Noise _ # ss) = step_lines ss"

fun step_entries :: "duration \<Rightarrow> log_step list \<Rightarrow> log_entry list" where
  "step_entries zone [] = []"
| "step_entries zone (Appends w clk # ss) = stamped zone clk (fresh_lines w) @ step_entries zone ss"
| "step_entries zone (Truncates w clk # ss) = stamped zone clk (fresh_lines w) @ step_entries zone ss"
| "step_entries zone (Noise _ # ss) = step_entries zone ss"

record log_file =
  lf_start :: string
  lf_opened :: time
  lf_steps :: "log_step list"

definition file_entries :: "duration \<Rightarrow> log_file \<Rightarrow> log_entry list" where
  "file_entries zone f =
     map (\<lambda>l. Parse zone l (lf_opened f)) (backfill_lines (lf_start f) 200) @ step_entries zone (lf_steps f)"

definition file_lines :: "log_file \<Rightarrow> string list" where
  "file_lines f = map (\<lambda>l. TrimRight l [cr]) (backfill_lines (lf_start f) 200) @ step_lines (lf_steps f)"

definition clean_opening :: "log_file \<Rightarrow> open_env" where
  "clean_opening f = \<lparr>op_open = True, op_body = Some (lf_start f), op_now = lf_opened f, op_size = length (lf_start f), op_watch = True\<rparr>"

definition followed :: "string \<Rightarrow> log_file \<Rightarrow> attempt" where
  "followed path f = \<lparr>at_opening = clean_opening f, at_inputs = step_inputs path (lf_start f) (lf_steps f), at_canceled = False\<rparr>"

definition rotated :: "string \<Rightarrow> log_file \<Rightarrow> attempt" where
  "rotated path f = (followed path f)\<lparr>at_inputs := step_inputs path (lf_start f) (lf_steps f)
     @ [Watched \<lparr>we_path = path, we_ops = [OpRename]\<rparr> [] (\<lambda>_. 0)]\<rparr>"

lemma Parse_Raw [simp]: "le_Raw (Parse zone l now) = TrimRight l [cr]"
  by (simp add: Parse_def Let_def split: option.splits)

lemma TrimRight_TrimRight: "set ds \<subseteq> set cs \<Longrightarrow> TrimRight (TrimRight l cs) ds = TrimRight l cs"
proof -
  assume s: "set ds \<subseteq> set cs"
  have "dropWhile (\<lambda>c. c \<in> set ds) (dropWhile (\<lambda>c. c \<in> set cs) xs) = dropWhile (\<lambda>c. c \<in> set cs) xs" for xs
    using s by (induction xs) auto
  then show ?thesis by (simp add: TrimRight_def)
qed

lemma fresh_lines_trimmed: "map (\<lambda>l. TrimRight l [cr]) (fresh_lines s) = fresh_lines s"
  by (rule map_idI) (auto simp: fresh_lines_def TrimRight_TrimRight)

lemma stamped_Raw: "map le_Raw (stamped zone clk ls) = map (\<lambda>l. TrimRight l [cr]) ls"
proof -
  have "map le_Raw (stamped zone clk ls) = map ((\<lambda>l. TrimRight l [cr]) \<circ> snd) (List.enumerate 0 ls)"
    by (simp add: stamped_def case_prod_beta comp_def)
  then show ?thesis by (metis list.map_comp map_snd_enumerate)
qed

lemma step_entries_Raw: "map le_Raw (step_entries zone ss) = step_lines ss"
  by (induction zone ss rule: step_entries.induct) (simp_all add: stamped_Raw fresh_lines_trimmed)

lemma file_entries_Raw: "map le_Raw (file_entries zone f) = file_lines f"
  by (simp add: file_entries_def file_lines_def step_entries_Raw comp_def)

lemma emit'_path: "t_ok t \<Longrightarrow> t_path (emit' e t) = t_path t"
  by (simp add: emit'_def emit_some)

lemma fold_emit'_path: "t_ok t \<Longrightarrow> t_path (fold emit' es t) = t_path t"
  by (induction es arbitrary: t) (auto simp: emit'_path tail.ok_push)

lemma fold_emit'_bcast: "t_ok t \<Longrightarrow> t_bcast (fold emit' es t) = fold br_publish es (t_bcast t)"
proof (induction es arbitrary: t)
  case (Cons e es)
  have "t_bcast (emit' e t) = br_publish e (t_bcast t)" using Cons.prems by (simp add: emit'_def emit_some)
  then show ?case using Cons by (simp add: tail.ok_push)
qed simp

lemma Has_wrote [simp]: "Has (wrote p) op \<longleftrightarrow> op = OpWrite" "we_path (wrote p) = p"
  by (simp_all add: Has_def wrote_def)

lemma noise_ignored: "is_noise (t_path t) i \<Longrightarrow> watch_loop zone pos (i # rest) t = watch_loop zone pos rest t"
  by (cases i) (auto simp: Has_def)

lemma watch_steps:
  assumes "t_ok t" and "valid_steps (t_path t) c ss"
  shows "watch_loop zone (length c) (step_inputs (t_path t) c ss @ rest) t
    = watch_loop zone (length (content_after c ss)) rest (fold emit' (step_entries zone ss) t)"
  using assms
proof (induction c ss arbitrary: t rule: content_after.induct)
  case (2 c w clk ss)
  let ?es = "stamped zone clk (fresh_lines w)"
  have t: "t_ok (fold emit' ?es t)" "t_path (fold emit' ?es t) = t_path t"
    using 2(2) by (simp_all add: tail.ok_fold fold_emit'_path)
  show ?case
    using 2(1) [OF t(1)] 2(2,3) by (simp add: t readUntilEOF_def read_to_EOF_def emit_all_fold)
next
  case (3 c w clk ss)
  let ?es = "stamped zone clk (fresh_lines w)"
  have t: "t_ok (fold emit' ?es t)" "t_path (fold emit' ?es t) = t_path t"
    using 3(2) by (simp_all add: tail.ok_fold fold_emit'_path)
  show ?case
    using 3(1) [OF t(1)] 3(2,3) by (simp add: t readUntilEOF_def read_to_EOF_def emit_all_fold)
next
  case (4 c i ss)
  then show ?case by (simp add: noise_ignored)
qed simp_all

lemma tailOnce_followed:
  assumes "t_ok t" and "valid_steps (t_path t) (lf_start f) (lf_steps f)"
  shows "tailOnce zone (clean_opening f) (step_inputs (t_path t) (lf_start f) (lf_steps f) @ rest) t
    = watch_loop zone (length (content_after (lf_start f) (lf_steps f))) rest (fold emit' (file_entries zone f) t)"
proof -
  let ?b = "map (\<lambda>l. Parse zone l (lf_opened f)) (backfill_lines (lf_start f) 200)"
  have b: "t_ok (fold emit' ?b t)" "t_path (fold emit' ?b t) = t_path t"
    using assms(1) by (simp_all add: tail.ok_fold fold_emit'_path)
  show ?thesis
    using watch_steps [OF b(1), of "lf_start f" "lf_steps f" zone rest] assms
    by (simp add: tailOnce_def clean_opening_def backfill_def emit_all_fold b file_entries_def)
qed

lemma attempts_rotated:
  assumes "t_ok t" and "\<forall>f\<in>set fs. valid_steps (t_path t) (lf_start f) (lf_steps f)"
  shows "tail_attempts zone (map (rotated (t_path t)) fs @ as) t
    = tail_attempts zone as (fold emit' (concat (map (file_entries zone) fs)) t)"
  using assms
proof (induction fs arbitrary: t)
  case (Cons f fs)
  let ?t = "fold emit' (file_entries zone f) t"
  have t: "t_ok ?t" "t_path ?t = t_path t" using Cons.prems(1) by (simp_all add: tail.ok_fold fold_emit'_path)
  have "tailOnce zone (clean_opening f) (at_inputs (rotated (t_path t) f)) t = Some (?t, Some TailRotated)"
    using Cons.prems tailOnce_followed [of t f zone] by (simp add: rotated_def Has_def t)
  then show ?case
    using Cons.IH [OF t(1)] Cons.prems by (simp add: t rotated_def followed_def)
qed simp


definition demo_old :: log_file where
  "demo_old = \<lparr>lf_start = ''a'' @ [nl], lf_opened = 0, lf_steps = [Appends (''b'' @ [nl]) (\<lambda>_. 0), Noise WatchError]\<rparr>"

definition demo_new :: log_file where
  "demo_new = \<lparr>lf_start = [], lf_opened = 0, lf_steps = [Appends (''c'' @ [nl]) (\<lambda>_. 0), Truncates [] (\<lambda>_. 0), Appends (''d'' @ [nl]) (\<lambda>_. 0)]\<rparr>"

definition present :: wait_env where
  "present = \<lparr>wv_there = True, wv_watcher = True, wv_parent = True, wv_inputs = []\<rparr>"


subsection \<open>Two starts that go wrong\<close>

text \<open>
  The log directory of a server that has never run does not exist, and nothing creates it: the
  directory cannot be watched, and the tailer gives up before the server has written its first line.  No
  log stream and no player event of that run ever arrives.
\<close>

theorem first_run_is_not_tailed:
  "\<exists>t. tail_Run zone \<lparr>wv_there = False, wv_watcher = True, wv_parent = False, wv_inputs = ins\<rparr> as (NewTailer path N) = Some (t, True)
    \<and> t_history t = []"
  by (simp add: tail_Run_def waitForFile_def close_tail_def NewTailer_def br_Close_def NewBroadcaster_def)

text \<open>
  A log left by a session \<open>k\<close> days ago is read as if it were new: its last lines, with the players who
  joined then, are emitted with the time of day of the old line on the day of the new start.
\<close>

lemma clock_days: "clock 0 (t + k * day) = clock 0 t"
  by (simp only: clock_def) simp

theorem old_session_is_replayed:
  assumes "waitForFile path e = FileThere" and "t mod second = 0" and "now - 23 * hour < t + k * day" and "t + k * day \<le> now"
    and "backfill_lines body 200 = [server_line (clock 0 t) ''Server thread'' ''INFO'' ''Steve joined the game'']"
  shows "\<exists>tl. tail_Run 0 e [followed path \<lparr>lf_start = body, lf_opened = now, lf_steps = []\<rparr>] (NewTailer path N) = Some (tl, False)
     \<and> map le_Message (t_history tl) = [''Steve joined the game''] \<and> map le_TS (t_history tl) = [t + k * day]"
proof -
  let ?l = "server_line (clock 0 t) ''Server thread'' ''INFO'' ''Steve joined the game''"
  let ?f = "\<lparr>lf_start = body, lf_opened = now, lf_steps = []\<rparr> :: log_file" and ?e = "Parse 0 ?l now"
  note t0 = t_ok_New [of path N]
  have p: "t_path (NewTailer path N) = path" by (simp add: NewTailer_def)
  have fe: "file_entries 0 ?f = [?e]" using assms(5) by (simp add: file_entries_def)
  have "valid_steps (t_path (NewTailer path N)) (lf_start ?f) (lf_steps ?f)" by simp
  from tailOnce_followed [OF t0 this, of 0 "[]"]
  have "tailOnce 0 (clean_opening ?f) [] (NewTailer path N) = Some (fold emit' [?e] (NewTailer path N), None)"
    unfolding fe by simp
  then have "tail_attempts 0 [followed path ?f] (NewTailer path N) = Some (fold emit' [?e] (NewTailer path N), False)"
    by (simp add: followed_def)
  then have r: "tail_Run 0 e [followed path ?f] (NewTailer path N) = Some (fold emit' [?e] (NewTailer path N), False)"
    using assms(1) by (simp add: tail_Run_def p)
  have h: "t_history (fold emit' [?e] (NewTailer path N)) = [?e]"
    using tail.view_fold [OF t0, of "[?e]"] by (auto simp: NewTailer_def last_n_def)
  have c: "0 \<le> clock 0 t" "clock 0 t < 86400" by (auto simp: clock_def)
  have "le_Message ?e = ''Steve joined the game'' \<and> le_TS ?e = mergeTime 0 now (show_hms (clock 0 t))"
    by (subst Parse_server_line [OF c]; simp add: is_upper_def re_space_def)+
  moreover have "mergeTime 0 now (show_hms (clock 0 (t + k * day))) = t + k * day"
  proof (rule mergeTime_recovers)
    have "k * day = k * 86400 * second" by simp
    then show "(t + k * day + 0) mod second = 0" using assms(2) by (simp only: add_0_right mod_mult_self1)
  qed (use assms(3,4) in simp_all)
  then have "mergeTime 0 now (show_hms (clock 0 t)) = t + k * day" unfolding clock_days .
  ultimately show ?thesis using r h by simp
qed

end
