(* ===== verification/Router.thy ===== *)
theory Router
  imports Auth
begin

text \<open>
  Routing and the middleware that guards it: \<open>internal/api/router.go\<close>, \<open>middleware.go\<close> and the
  error envelope of \<open>errors.go\<close>.

  A request's path is the list of its segments after unescaping, which is what
  \<open>http.ServeMux\<close> matches one by one: a segment may hold a slash, and a wildcard takes any segment
  that is not empty.  A pattern for GET also serves HEAD.  The handlers are a parameter, as functions
  on the state of the daemon; a panic is a result.
\<close>

subsection \<open>Requests and responses\<close>

record request =
  rq_Method :: string
  rq_Path :: "string list"
  rq_Authorization :: string
  rq_Body :: string
  rq_TraceID :: string

record response =
  rs_Status :: int
  rs_Code :: string      \<comment> \<open>the error code of the envelope, empty on success\<close>

definition ok_response :: "int \<Rightarrow> response" where
  "ok_response status = \<lparr>rs_Status = status, rs_Code = []\<rparr>"

definition WriteError :: "int \<Rightarrow> string \<Rightarrow> response" where
  "WriteError status code = \<lparr>rs_Status = status, rs_Code = code\<rparr>"

datatype 'w outcome = Responds response 'w | Panics 'w

subsection \<open>The routes\<close>

datatype seg = Lit string | Wild string

record route =
  ro_Method :: string
  ro_Pattern :: "seg list"
  ro_Scope :: "string option"
  ro_Handler :: string

definition parse_pattern :: "string \<Rightarrow> seg list" where
  "parse_pattern p =
     map (\<lambda>s. if HasPrefix s ''{'' then Wild (butlast (tl s)) else Lit s) (tl (Split p CHR ''/''))"

definition open_route :: "string \<Rightarrow> string \<Rightarrow> string \<Rightarrow> route" where
  "open_route m p h = \<lparr>ro_Method = m, ro_Pattern = parse_pattern p, ro_Scope = None, ro_Handler = h\<rparr>"

definition api_route :: "string \<Rightarrow> string \<Rightarrow> string \<Rightarrow> string \<Rightarrow> route" where
  "api_route m p s h =
     \<lparr>ro_Method = m, ro_Pattern = parse_pattern (''/api/v1'' @ p), ro_Scope = Some s, ro_Handler = h\<rparr>"

definition public_routes :: "route list" where
  "public_routes =
     [open_route ''GET'' ''/healthz'' ''handleHealthz'',
      open_route ''GET'' ''/readyz'' ''handleReadyz'',
      open_route ''GET'' ''/version'' ''handleVersion'',
      open_route ''GET'' ''/openapi.json'' ''handleOpenAPI'']"

definition slot_routes :: "route list" where
  "slot_routes =
     [api_route ''GET'' ''/instance'' ''instance:read'' ''handleInstance'',
      api_route ''GET'' ''/discovery'' ''discovery:read'' ''handleDiscovery'',
      api_route ''POST'' ''/discovery/refresh'' ''discovery:write'' ''handleDiscoveryRefresh'',
      api_route ''DELETE'' ''/discovery/{server_id}/lock'' ''discovery:write'' ''handleDiscoveryUnlock'',
      api_route ''GET'' ''/slots'' ''slot:read'' ''handleSlotsList'',
      api_route ''GET'' ''/slots/{name}'' ''slot:read'' ''handleSlotGet'',
      api_route ''GET'' ''/slots/{name}/compatible-servers'' ''slot:read'' ''handleSlotCompatible'',
      api_route ''POST'' ''/slots/{name}/start'' ''slot:write'' ''handleSlotStart'',
      api_route ''POST'' ''/slots/{name}/stop'' ''slot:write'' ''handleSlotStop'',
      api_route ''POST'' ''/slots/{name}/restart'' ''slot:write'' ''handleSlotRestart'',
      api_route ''POST'' ''/slots/{name}/abort-stop'' ''slot:write'' ''handleSlotAbortStop'']"

definition server_routes :: "route list" where
  "server_routes =
     [api_route ''POST'' ''/slots/{name}/server/command'' ''server:command'' ''handleServerCommand'',
      api_route ''POST'' ''/slots/{name}/server/say'' ''server:command'' ''handleServerSay'',
      api_route ''GET'' ''/slots/{name}/server/players'' ''server:read'' ''handleServerPlayers'',
      api_route ''POST'' ''/slots/{name}/server/players/{player}/kick'' ''server:moderate'' ''handleServerKick'',
      api_route ''POST'' ''/slots/{name}/server/players/{player}/ban'' ''server:moderate'' ''handleServerBan'',
      api_route ''POST'' ''/slots/{name}/server/players/{player}/unban'' ''server:moderate'' ''handleServerUnban'',
      api_route ''POST'' ''/slots/{name}/server/players/{player}/op'' ''server:admin'' ''handleServerOp'',
      api_route ''POST'' ''/slots/{name}/server/players/{player}/deop'' ''server:admin'' ''handleServerDeop'',
      api_route ''GET'' ''/slots/{name}/server/whitelist'' ''server:read'' ''handleWhitelistGet'',
      api_route ''PUT'' ''/slots/{name}/server/whitelist/{player}'' ''server:admin'' ''handleWhitelistAdd'',
      api_route ''DELETE'' ''/slots/{name}/server/whitelist/{player}'' ''server:admin'' ''handleWhitelistRemove'',
      api_route ''POST'' ''/slots/{name}/server/whitelist/reload'' ''server:admin'' ''handleWhitelistReload'',
      api_route ''GET'' ''/slots/{name}/server/banlist'' ''server:read'' ''handleBanlistGet'',
      api_route ''GET'' ''/slots/{name}/server/banlist/ips'' ''server:read'' ''handleBanlistIPsGet'',
      api_route ''GET'' ''/slots/{name}/server/properties'' ''server:read'' ''handleServerPropertiesGet'',
      api_route ''PATCH'' ''/slots/{name}/server/properties'' ''server:admin'' ''handleServerPropertiesPatch'',
      api_route ''GET'' ''/slots/{name}/server/logs'' ''server:read'' ''handleServerLogs'',
      api_route ''GET'' ''/slots/{name}/server/logs/stream'' ''server:read'' ''handleServerLogsStream'',
      api_route ''GET'' ''/slots/{name}/events'' ''slot:read'' ''handleSlotEventsStream'']"

definition other_routes :: "route list" where
  "other_routes =
     [api_route ''GET'' ''/slots/{name}/server/update'' ''server:admin'' ''handleUpdateCheck'',
      api_route ''POST'' ''/slots/{name}/server/update'' ''server:admin'' ''handleUpdateApply'',
      api_route ''GET'' ''/slots/{name}/server/backups'' ''server:admin'' ''handleBackupsList'',
      api_route ''POST'' ''/slots/{name}/server/backups'' ''server:admin'' ''handleBackupCreate'',
      api_route ''GET'' ''/slots/{name}/server/backups/{id}'' ''server:admin'' ''handleBackupGet'',
      api_route ''POST'' ''/slots/{name}/server/backups/{id}/restore'' ''server:admin'' ''handleBackupRestore'',
      api_route ''DELETE'' ''/slots/{name}/server/backups/{id}'' ''server:admin'' ''handleBackupDelete'',
      api_route ''GET'' ''/system/temperature'' ''system:read'' ''handleSystemTemperature'',
      api_route ''GET'' ''/system/resources'' ''system:read'' ''handleSystemResources'',
      api_route ''GET'' ''/audit'' ''audit:read'' ''handleAudit'',
      api_route ''GET'' ''/peers'' ''peer:read'' ''handlePeersList'',
      api_route ''POST'' ''/peers/refresh'' ''peer:read'' ''handlePeersRefresh'',
      api_route ''GET'' ''/federation/discovery'' ''discovery:read'' ''handleFederationDiscovery'',
      api_route ''GET'' ''/federation/slots'' ''slot:read'' ''handleFederationSlots'']"

record metrics_cfg =
  mc_Enabled :: bool
  mc_Path :: string
  mc_RequireAuth :: bool

definition metrics_routes :: "metrics_cfg \<Rightarrow> route list" where
  "metrics_routes c =
     (if \<not> mc_Enabled c then []
      else [\<lparr>ro_Method = ''GET'', ro_Pattern = parse_pattern (if mc_Path c = [] then ''/metrics'' else mc_Path c),
             ro_Scope = (if mc_RequireAuth c then Some ''metrics:read'' else None), ro_Handler = ''handleMetrics''\<rparr>])"

definition fixed_routes :: "route list" where
  "fixed_routes = public_routes @ slot_routes @ server_routes @ other_routes"

definition register :: "metrics_cfg \<Rightarrow> route list" where
  "register c = fixed_routes @ metrics_routes c"

subsection \<open>Matching\<close>

fun match_path :: "seg list \<Rightarrow> string list \<Rightarrow> (string \<times> string) list option" where
  "match_path [] [] = Some []"
| "match_path (Lit l # ps) (s # ss) = (if s = l then match_path ps ss else None)"
| "match_path (Wild n # ps) (s # ss) =
     (if s = [] then None else map_option (\<lambda>b. (n, s) # b) (match_path ps ss))"
| "match_path _ _ = None"

definition method_fits :: "string \<Rightarrow> string \<Rightarrow> bool" where
  "method_fits pat m \<longleftrightarrow> pat = m \<or> (pat = ''GET'' \<and> m = ''HEAD'')"

definition route_fits :: "request \<Rightarrow> route \<Rightarrow> bool" where
  "route_fits rq r \<longleftrightarrow> method_fits (ro_Method r) (rq_Method rq) \<and> match_path (ro_Pattern r) (rq_Path rq) \<noteq> None"

text \<open>The catch-all pattern serves whatever no other pattern takes.\<close>

definition dispatch :: "route list \<Rightarrow> request \<Rightarrow> (route \<times> (string \<times> string) list) option" where
  "dispatch rs rq =
     (case List.find (route_fits rq) rs of
        None \<Rightarrow> None
      | Some r \<Rightarrow> Some (r, the (match_path (ro_Pattern r) (rq_Path rq))))"

definition PathValue :: "(string \<times> string) list \<Rightarrow> string \<Rightarrow> string" where
  "PathValue binds n = (case map_of binds n of None \<Rightarrow> [] | Some v \<Rightarrow> v)"

subsection \<open>Serving a request\<close>

type_synonym 'w handler = "(string \<times> string) list \<Rightarrow> request \<Rightarrow> 'w \<Rightarrow> 'w outcome"

text \<open>The multiplexer with the guards of each route: the outcome and the name of the token, if one was accepted.\<close>

definition serve_mux ::
  "kdf \<Rightarrow> authenticator \<Rightarrow> route list \<Rightarrow> (string \<Rightarrow> 'w handler) \<Rightarrow> request \<Rightarrow> 'w \<Rightarrow> 'w outcome" where
  "serve_mux kdf a rs handlers rq w =
     (case dispatch rs rq of
        None \<Rightarrow> Responds (WriteError 404 ''not_found'') w
      | Some (r, binds) \<Rightarrow>
          (case ro_Scope r of
             None \<Rightarrow> handlers (ro_Handler r) binds rq w
           | Some scope \<Rightarrow>
              (case guarded kdf a scope (rq_Authorization rq) (\<lambda>t. handlers (ro_Handler r) binds rq w) of
                 Denied status code \<Rightarrow> Responds (WriteError status code) w
               | GatePanic \<Rightarrow> Panics w
               | Allowed out \<Rightarrow> out)))"

definition recoverer :: "'w outcome \<Rightarrow> response \<times> 'w" where
  "recoverer out = (case out of Responds r w \<Rightarrow> (r, w) | Panics w \<Rightarrow> (WriteError 500 ''internal'', w))"

subsection \<open>The routes are unambiguous\<close>

fun seg_overlap :: "seg \<Rightarrow> seg \<Rightarrow> bool" where
  "seg_overlap (Lit a) (Lit b) = (a = b)"
| "seg_overlap _ _ = True"

fun overlap :: "seg list \<Rightarrow> seg list \<Rightarrow> bool" where
  "overlap [] [] = True"
| "overlap (p # ps) (q # qs) = (seg_overlap p q \<and> overlap ps qs)"
| "overlap _ _ = False"

lemma match_path_overlap:
  "match_path ps ss \<noteq> None \<Longrightarrow> match_path qs ss \<noteq> None \<Longrightarrow> overlap ps qs"
proof (induction ps ss arbitrary: qs rule: match_path.induct)
  case (2 l ps s ss)
  then show ?case by (cases qs; cases "hd qs") (auto split: if_splits)
next
  case (3 n ps s ss)
  then show ?case by (cases qs; cases "hd qs") (auto split: if_splits)
qed (case_tac qs; auto)+

definition clash :: "route \<Rightarrow> route \<Rightarrow> bool" where
  "clash r s \<longleftrightarrow> ro_Method r = ro_Method s \<and> overlap (ro_Pattern r) (ro_Pattern s)"

fun pairwise_apart :: "route list \<Rightarrow> bool" where
  "pairwise_apart [] = True"
| "pairwise_apart (r # rs) = (list_all (\<lambda>s. \<not> clash r s) rs \<and> pairwise_apart rs)"

lemma fixed_routes_apart: "pairwise_apart fixed_routes"
  by code_simp

lemma pairwise_apart_mem:
  "pairwise_apart rs \<Longrightarrow> r \<in> set rs \<Longrightarrow> s \<in> set rs \<Longrightarrow> clash r s \<Longrightarrow> clash s r \<Longrightarrow> r = s"
  by (induction rs) (auto simp: list_all_iff)

lemma fixed_routes_methods: "list_all (\<lambda>r. ro_Method r \<noteq> ''HEAD'') fixed_routes"
  by code_simp

lemma fixed_routes_mem: "r \<in> set fixed_routes \<Longrightarrow> ro_Method r \<noteq> ''HEAD''"
  using fixed_routes_methods by (auto simp: list_all_iff)

text \<open>
  The order of registration does not matter: no request fits two of the fixed routes, so first
  match is the only match.
\<close>

theorem routes_unambiguous:
  assumes "r \<in> set fixed_routes" "s \<in> set fixed_routes" and "route_fits rq r" "route_fits rq s"
  shows "r = s"
proof -
  have m: "ro_Method r = ro_Method s"
    using assms fixed_routes_mem [OF assms(1)] fixed_routes_mem [OF assms(2)]
    by (auto simp: route_fits_def method_fits_def)
  have "overlap (ro_Pattern r) (ro_Pattern s)" "overlap (ro_Pattern s) (ro_Pattern r)"
    using assms(3,4) match_path_overlap by (auto simp: route_fits_def)
  then show ?thesis
    using pairwise_apart_mem [OF fixed_routes_apart assms(1,2)] m by (simp add: clash_def)
qed

definition demo_request :: request where
  "demo_request = \<lparr>rq_Method = ''POST'', rq_Path = [''api'', ''v1'', ''slots'', ''creative'', ''start''],
     rq_Authorization = [], rq_Body = [], rq_TraceID = ''t''\<rparr>"

definition demo_route :: route where
  "demo_route = api_route ''POST'' ''/slots/{name}/start'' ''slot:write'' ''handleSlotStart''"

lemma demo_route_in: "demo_route \<in> set fixed_routes"
  by (simp add: demo_route_def fixed_routes_def slot_routes_def)

lemma demo_route_fits: "route_fits demo_request demo_route"
  by code_simp

theorem routes_unambiguous_witness:
  "List.find (route_fits demo_request) fixed_routes = Some demo_route"
proof -
  obtain r where r: "List.find (route_fits demo_request) fixed_routes = Some r"
    using demo_route_in demo_route_fits by (metis find_None_iff not_Some_eq)
  then have "r \<in> set fixed_routes" "route_fits demo_request r" by (auto simp: find_Some_iff)
  then have "r = demo_route" using routes_unambiguous demo_route_in demo_route_fits by blast
  then show ?thesis using r by simp
qed

subsection \<open>Only scoped tokens act\<close>

lemma open_routes_public: "list_all (\<lambda>r. ro_Scope r = None \<longrightarrow> (case ro_Pattern r of Lit l # _ \<Rightarrow> l \<noteq> ''api'' | _ \<Rightarrow> False)) fixed_routes"
  by code_simp

lemma open_route_outside_api:
  "r \<in> set fixed_routes \<Longrightarrow> ro_Scope r = None \<Longrightarrow> match_path (ro_Pattern r) (''api'' # rest) = None"
proof -
  assume "r \<in> set fixed_routes" "ro_Scope r = None"
  then have "case ro_Pattern r of Lit l # _ \<Rightarrow> l \<noteq> ''api'' | _ \<Rightarrow> False"
    using open_routes_public by (simp add: list_all_iff)
  then obtain l ps where "ro_Pattern r = Lit l # ps" "l \<noteq> ''api''"
    by (cases "ro_Pattern r"; cases "hd (ro_Pattern r)") auto
  then show ?thesis by auto
qed

lemma api_dispatch:
  assumes a: "NewAuthenticator ts = Inr a" and api: "rq_Path rq = ''api'' # rest"
    and metrics: "list_all (\<lambda>r. match_path (ro_Pattern r) (rq_Path rq) = None) (metrics_routes c)"
  shows "(\<exists>r binds scope t. r \<in> set fixed_routes \<and> dispatch (register c) rq = Some (r, binds) \<and> ro_Scope r = Some scope
            \<and> authenticate kdf a (rq_Authorization rq) = Inr t \<and> HasScope (Some t) scope
            \<and> serve_mux kdf a (register c) handlers rq w = handlers (ro_Handler r) binds rq w)
       \<or> (\<exists>status code. serve_mux kdf a (register c) handlers rq w = Responds (WriteError status code) w
            \<and> status \<in> {401, 403, 404})"
proof (cases "dispatch (register c) rq")
  case None
  then have "serve_mux kdf a (register c) handlers rq w = Responds (WriteError 404 ''not_found'') w"
    by (simp add: serve_mux_def)
  then show ?thesis by blast
next
  case (Some rb)
  then obtain r binds where d: "dispatch (register c) rq = Some (r, binds)" by (cases rb) auto
  then have r: "r \<in> set (register c)" "route_fits rq r"
    by (auto simp: dispatch_def find_Some_iff split: option.splits)
  then have fixed: "r \<in> set fixed_routes" "match_path (ro_Pattern r) (''api'' # rest) \<noteq> None"
    using metrics api by (auto simp: register_def route_fits_def list_all_iff)
  then have "ro_Scope r \<noteq> None" using open_route_outside_api [of r rest] by metis
  then obtain scope where s: "ro_Scope r = Some scope" by blast
  note ok = NewAuthenticator_ok [OF a]
  let ?h = "handlers (ro_Handler r) binds rq w"
  show ?thesis
  proof (cases "authenticate kdf a (rq_Authorization rq)")
    case (Inr t)
    show ?thesis
    proof (cases "HasScope (Some t) scope")
      case True
      have "serve_mux kdf a (register c) handlers rq w = ?h"
        using True by (simp add: serve_mux_def d s guarded_def Inr requireScope_def)
      then show ?thesis using fixed(1) d s Inr True by blast
    next
      case False
      then have "serve_mux kdf a (register c) handlers rq w = Responds (WriteError 403 ''scope_denied'') w"
        by (simp add: serve_mux_def d s guarded_def Inr requireScope_def)
      then show ?thesis by blast
    qed
  next
    case (Inl e)
    moreover have "e \<noteq> AuthPanic"
      using Inl by (auto simp: authenticate_def match_token_find [OF ok] Let_def split: option.splits if_splits)
    ultimately have "\<exists>code. serve_mux kdf a (register c) handlers rq w = Responds (WriteError 401 code) w"
      by (cases e) (auto simp: serve_mux_def d s guarded_def)
    then show ?thesis by blast
  qed
qed

text \<open>
  C6: on the paths below \<open>/api\<close>, a handler runs only for a request whose bearer token has the scope of
  the route that fits; every other request leaves the daemon as it was and is answered with 401, 403
  or 404.  (The metrics path is configurable and assumed to lie elsewhere.)
\<close>

theorem only_scoped_tokens_act:
  assumes a: "NewAuthenticator ts = Inr a" and api: "rq_Path rq = ''api'' # rest"
    and metrics: "list_all (\<lambda>r. match_path (ro_Pattern r) (rq_Path rq) = None) (metrics_routes c)"
  shows "(\<exists>r binds scope t. dispatch (register c) rq = Some (r, binds) \<and> ro_Scope r = Some scope
            \<and> authenticate kdf a (rq_Authorization rq) = Inr t \<and> HasScope (Some t) scope
            \<and> serve_mux kdf a (register c) handlers rq w = handlers (ro_Handler r) binds rq w)
       \<or> (\<exists>status code. serve_mux kdf a (register c) handlers rq w = Responds (WriteError status code) w
            \<and> status \<in> {401, 403, 404})"
  using api_dispatch [OF a api metrics, of kdf handlers w] by (elim disjE exE conjE) blast+

definition demo_metrics :: metrics_cfg where
  "demo_metrics = \<lparr>mc_Enabled = True, mc_Path = [], mc_RequireAuth = False\<rparr>"

theorem only_scoped_tokens_act_witness:
  "\<exists>a. NewAuthenticator [demo_token] = Inr a
     \<and> serve_mux pad_kdf a (register demo_metrics) (\<lambda>_ _ _ w. Responds (ok_response 202) (w + 1)) demo_request (0 :: nat)
         = Responds (WriteError 401 ''missing_token'') 0"
proof -
  obtain a where a: "NewAuthenticator [demo_token] = Inr a" using demo_auth by blast
  let ?h = "\<lambda>_ _ _ w. Responds (ok_response 202) (w + 1) :: nat outcome"
  have p: "rq_Path demo_request = ''api'' # [''v1'', ''slots'', ''creative'', ''start'']" by (simp add: demo_request_def)
  have m: "list_all (\<lambda>r. match_path (ro_Pattern r) (rq_Path demo_request) = None) (metrics_routes demo_metrics)"
    by code_simp
  have n: "authenticate pad_kdf a (rq_Authorization demo_request) = Inl MissingToken"
    by (simp add: authenticate_def demo_request_def)
  obtain status code where
    "serve_mux pad_kdf a (register demo_metrics) ?h demo_request 0 = Responds (WriteError status code) 0"
    using only_scoped_tokens_act [OF a p m, of pad_kdf ?h 0] n by auto
  moreover have "serve_mux pad_kdf a (register demo_metrics) ?h demo_request 0 = Responds (WriteError 401 ''missing_token'') 0
      \<or> serve_mux pad_kdf a (register demo_metrics) ?h demo_request 0 = Responds (WriteError 404 ''not_found'') 0
      \<or> (\<exists>r b. dispatch (register demo_metrics) demo_request = Some (r, b) \<and> ro_Scope r = None)"
    using n by (auto simp: serve_mux_def guarded_def split: option.splits)
  moreover have "dispatch (register demo_metrics) demo_request = Some (demo_route, [(''name'', ''creative'')])"
    by code_simp
  ultimately show ?thesis
    using a n by (auto simp: serve_mux_def guarded_def demo_route_def api_route_def)
qed

end
