(* ===== verification/SlotMachine.thy ===== *)
theory SlotMachine
  imports Slot
begin

text \<open>
  The goroutines of a slot as a step relation.  A step is one region under the slot's mutex, one
  receive, or one choice of a \<open>select\<close>; between two steps of a goroutine any other goroutine may
  move.  Contexts, processes and abort channels get their numbers from one counter; a mount's
  context has the number of its process.  What the network answers (probes, dials), when timers
  fire and when processes end is left open.
\<close>

datatype thread =
    TDone
  | TMount string                       \<comment> \<open>\<open>Start\<close>, between its two locked regions\<close>
  | TWatchStart                         \<comment> \<open>\<open>watchExit\<close>, not yet at the exit channel\<close>
  | TWatch nat                          \<comment> \<open>\<open>watchExit\<close> at the exit channel of this process\<close>
  | TWatchGot exit_info                 \<comment> \<open>it received, and is about to take the mutex\<close>
  | TWatchEnd bool exit_info            \<comment> \<open>it cleared the slot, and is about to \<open>transition\<close>\<close>
  | THealth nat                         \<comment> \<open>\<open>healthLoop\<close> at its select, with its context\<close>
  | THealthSeen nat bool state          \<comment> \<open>after the locked region: probe result, state read\<close>
  | THealthLate nat state               \<comment> \<open>before the test of the deadline\<close>
  | THealthKill                         \<comment> \<open>the start-up budget is exhausted\<close>
  | TRcon nat                           \<comment> \<open>\<open>rconConnectLoop\<close>\<close>
  | TStop0 "string option"              \<comment> \<open>\<open>Stop\<close> after its guard (for \<open>Restart\<close>: of this server)\<close>
  | TStop1 "string option"              \<comment> \<open>\<open>Stop\<close> after \<open>transition(stopping)\<close>\<close>
  | TStopWait "nat option" nat          \<comment> \<open>its goroutine, with the process and abort channel it read\<close>
  | TStopRevert                         \<comment> \<open>its goroutine, aborted, before \<open>transition(running)\<close>\<close>
  | TTerm nat                           \<comment> \<open>\<open>Terminate\<close> of this process\<close>
  | TRestart string                     \<comment> \<open>the goroutine of \<open>Restart\<close>\<close>

record sys =
  y_slot :: slot
  y_procs :: "nat \<rightharpoonup> process"
  y_threads :: "thread list"
  y_cancelled :: "nat set"
  y_aborted :: "nat set"
  y_next :: nat
  y_events :: "(state \<times> state) list"

definition at :: "sys \<Rightarrow> nat \<Rightarrow> thread \<Rightarrow> bool" where
  "at w i t \<longleftrightarrow> i < length (y_threads w) \<and> y_threads w ! i = t"

definition go :: "nat \<Rightarrow> thread \<Rightarrow> thread list \<Rightarrow> sys \<Rightarrow> sys" where
  "go i t spawned w = w\<lparr>y_threads := (y_threads w)[i := t] @ spawned\<rparr>"

definition on_slot :: "(slot \<Rightarrow> slot) \<Rightarrow> sys \<Rightarrow> sys" where
  "on_slot f w = w\<lparr>y_slot := f (y_slot w)\<rparr>"

text \<open>\<open>transition\<close>: the locked region and the event, which the bus gets right after it.\<close>

definition shift :: "time \<Rightarrow> state \<Rightarrow> last_error option \<Rightarrow> sys \<Rightarrow> sys" where
  "shift now to e w =
     w\<lparr>y_slot := transition now to e (y_slot w), y_events := y_events w @ [(s_state (y_slot w), to)]\<rparr>"

definition with_proc :: "nat \<Rightarrow> process \<Rightarrow> sys \<Rightarrow> sys" where
  "with_proc p pr w = w\<lparr>y_procs := (y_procs w)(p \<mapsto> pr)\<rparr>"

definition timeout_error :: "time \<Rightarrow> last_error" where
  "timeout_error now = \<lparr>er_Code = ''startup_timeout'', er_Message = ''server did not become SLP-healthy within 5m0s'', er_At = now\<rparr>"

definition revert_stop :: "slot \<Rightarrow> slot" where
  "revert_stop s = (if s_state s = StateStopping then s\<lparr>s_stopping := False, s_stopAbort := None\<rparr> else s)"

inductive slot_step :: "sys \<Rightarrow> sys \<Rightarrow> bool" where
  start_call: "CanStartFrom (s_state (y_slot w)) \<Longrightarrow>
     slot_step w (on_slot (begin_mount now) (w\<lparr>y_threads := y_threads w @ [TMount sid]\<rparr>))"
| start_fail: "at w i (TMount sid) \<Longrightarrow>
     slot_step w (go i TDone [] (on_slot (failMount now (mount_code e) msg) w))"
| start_ok: "at w i (TMount sid) \<Longrightarrow> mt_process m = y_next w \<Longrightarrow> srv_ID (mt_server m) = sid \<Longrightarrow> running pr \<Longrightarrow>
     slot_step w (go i TDone [TWatchStart, THealth (y_next w), TRcon (y_next w)]
       (with_proc (y_next w) pr (on_slot (install now (y_next w) m) (w\<lparr>y_next := y_next w + 1\<rparr>))))"
| watch_none: "at w i TWatchStart \<Longrightarrow> s_process (y_slot w) = None \<Longrightarrow> slot_step w (go i TDone [] w)"
| watch_some: "at w i TWatchStart \<Longrightarrow> s_process (y_slot w) = Some p \<Longrightarrow> slot_step w (go i (TWatch p) [] w)"
| watch_recv: "at w i (TWatch p) \<Longrightarrow> y_procs w p = Some pr \<Longrightarrow> recv_exit pr = Some (info, pr') \<Longrightarrow>
     slot_step w (go i (TWatchGot info) [] (with_proc p pr' w))"
| watch_clear: "at w i (TWatchGot info) \<Longrightarrow>
     slot_step w (go i (TWatchEnd (s_stopping (y_slot w)) info) []
       (on_slot clear_mount (w\<lparr>y_cancelled := y_cancelled w \<union> set_option (s_cancel (y_slot w))\<rparr>)))"
| watch_end: "at w i (TWatchEnd stopping info) \<Longrightarrow> exit_transition msg stopping info = (to, e) \<Longrightarrow>
     slot_step w (go i TDone [] (shift now to e w))"
| process_exit: "y_procs w p = Some pr \<Longrightarrow> running pr \<Longrightarrow> slot_step w (with_proc p (waitAndPublish now res pr) w)"
| health_done: "at w i (THealth c) \<Longrightarrow> c \<in> y_cancelled w \<Longrightarrow> slot_step w (go i TDone [] w)"
| health_probe: "at w i (THealth c) \<Longrightarrow>
     slot_step w (go i (THealthSeen c (st \<noteq> None) (s_state (y_slot w))) [] (on_slot (probe_result now st) w))"
| health_up: "at w i (THealthSeen c True StateStarting) \<Longrightarrow>
     slot_step w (go i (THealthLate c StateStarting) [] (shift now StateRunning None w))"
| health_same: "at w i (THealthSeen c ok st) \<Longrightarrow> \<not> ok \<or> st \<noteq> StateStarting \<Longrightarrow>
     slot_step w (go i (THealthLate c st) [] w)"
| health_next: "at w i (THealthLate c st) \<Longrightarrow> slot_step w (go i (THealth c) [] w)"
| health_timeout: "at w i (THealthLate c StateStarting) \<Longrightarrow>
     slot_step w (go i THealthKill [] (shift now StateError (Some (timeout_error now)) w))"
| health_kill: "at w i THealthKill \<Longrightarrow>
     slot_step w (go i TDone (case s_process (y_slot w) of None \<Rightarrow> [] | Some p \<Rightarrow> [TTerm p]) w)"
| term_recv: "at w i (TTerm p) \<Longrightarrow> y_procs w p = Some pr \<Longrightarrow> recv_exit pr = Some (info, pr') \<Longrightarrow>
     slot_step w (go i TDone [] (with_proc p pr' w))"
| term_return: "at w i (TTerm p) \<Longrightarrow> slot_step w (go i TDone [] w)"
| rcon_done: "at w i (TRcon c) \<Longrightarrow> c \<in> y_cancelled w \<Longrightarrow> slot_step w (go i TDone [] w)"
| rcon_up: "at w i (TRcon c) \<Longrightarrow> slot_step w (go i TDone [] (on_slot (\<lambda>s. s\<lparr>s_rcon := Some k\<rparr>) w))"
| stop_call: "CanStopFrom (s_state (y_slot w)) \<Longrightarrow> (\<And>sid. restart = Some sid \<Longrightarrow> sid = s_mountedID (y_slot w) \<and> sid \<noteq> []) \<Longrightarrow>
     slot_step w (w\<lparr>y_threads := y_threads w @ [TStop0 restart]\<rparr>)"
| stop_shift: "at w i (TStop0 restart) \<Longrightarrow> slot_step w (go i (TStop1 restart) [] (shift now StateStopping None w))"
| stop_record: "at w i (TStop1 restart) \<Longrightarrow>
     slot_step w (go i (TStopWait (s_process (y_slot w)) (y_next w)) (map TRestart (case restart of None \<Rightarrow> [] | Some sid \<Rightarrow> [sid]))
       (on_slot (\<lambda>s. s\<lparr>s_stopping := True, s_stopAbort := Some (y_next w)\<rparr>) (w\<lparr>y_next := y_next w + 1\<rparr>)))"
| stop_nil: "at w i (TStopWait None a) \<Longrightarrow> slot_step w (go i TDone [] w)"
| stop_exit: "at w i (TStopWait (Some p) a) \<Longrightarrow> y_procs w p = Some pr \<Longrightarrow> recv_exit pr = Some (info, pr') \<Longrightarrow>
     slot_step w (go i TDone [] (with_proc p pr' w))"
| stop_abort: "at w i (TStopWait (Some p) a) \<Longrightarrow> a \<in> y_aborted w \<Longrightarrow>
     slot_step w (go i TStopRevert [] (on_slot revert_stop w))"
| stop_revert: "at w i TStopRevert \<Longrightarrow> slot_step w (go i TDone [] (shift now StateRunning None w))"
| stop_escalate: "at w i (TStopWait (Some p) a) \<Longrightarrow> slot_step w (go i (TTerm p) [] w)"
| abort_call: "AbortStop (y_slot w) = Some (a, s') \<Longrightarrow>
     slot_step w (w\<lparr>y_slot := s', y_aborted := insert a (y_aborted w)\<rparr>)"
| restart_start: "at w i (TRestart sid) \<Longrightarrow> CanStartFrom (s_state (y_slot w)) \<Longrightarrow>
     slot_step w (go i (TMount sid) [] (on_slot (begin_mount now) w))"
| restart_giveup: "at w i (TRestart sid) \<Longrightarrow> slot_step w (go i TDone [] w)"

inductive_cases slot_stepE: "slot_step w w'"

definition boot :: "slot_cfg \<Rightarrow> sys" where
  "boot cfg = \<lparr>y_slot = NewSlot 0 cfg ''i'' ''h'', y_procs = Map.empty, y_threads = [], y_cancelled = {},
     y_aborted = {}, y_next = 0, y_events = []\<rparr>"

inductive slot_reachable :: "slot_cfg \<Rightarrow> sys \<Rightarrow> bool" for cfg where
  sr_boot: "slot_reachable cfg (boot cfg)"
| sr_step: "slot_reachable cfg w \<Longrightarrow> slot_step w w' \<Longrightarrow> slot_reachable cfg w'"

lemma reachable_invariant:
  assumes "slot_reachable cfg w" and "I (boot cfg)" and "\<And>w w'. slot_step w w' \<Longrightarrow> I w \<Longrightarrow> I w'"
  shows "I w"
  using assms(1) by (induction rule: slot_reachable.induct) (auto intro: assms(2,3))

lemmas sys_defs = go_def on_slot_def shift_def with_proc_def

subsection \<open>What a slot holds, it holds together\<close>

definition together :: "slot \<Rightarrow> bool" where
  [inv_defs]: "together s \<longleftrightarrow> (s_process s = None \<longleftrightarrow> s_server s = None) \<and> (s_lock s = None \<longleftrightarrow> s_server s = None)
     \<and> (\<forall>srv. s_server s = Some srv \<longrightarrow> s_mountedID s = srv_ID srv)"

lemma together_frame:
  "together s \<Longrightarrow> s_process s' = s_process s \<Longrightarrow> s_server s' = s_server s \<Longrightarrow> s_lock s' = s_lock s \<Longrightarrow>
     s_mountedID s' = s_mountedID s \<Longrightarrow> together s'"
  by (simp add: together_def)

lemma together_ops [simp]:
  "together (failMount now code msg s)" "together (install now c m s)" "together (clear_mount s)"
  "together s \<Longrightarrow> together (begin_mount now s)" "together s \<Longrightarrow> together (transition now to e s)"
  "together s \<Longrightarrow> together (probe_result now st s)" "together s \<Longrightarrow> together (revert_stop s)"
  by (auto simp: together_def failMount_def install_def clear_mount_def begin_mount_def transition_def
      probe_result_def revert_stop_def split: option.splits)

lemma together_step: "slot_step w w' \<Longrightarrow> together (y_slot w) \<Longrightarrow> together (y_slot w')"
proof (induction rule: slot_step.induct)
  case (abort_call w a s')
  then show ?case by (auto simp: AbortStop_def together_def split: option.splits if_splits)
qed (auto simp: sys_defs intro: together_frame)

lemma together_boot: "together (y_slot (boot cfg))"
  by (simp add: boot_def NewSlot_def together_def)

lemma together_reachable: "slot_reachable cfg w \<Longrightarrow> together (y_slot w)"
  by (erule reachable_invariant) (auto intro: together_step together_boot)

text \<open>
  C1: at every moment, in every interleaving of its goroutines, a slot has a process if and
  only if it has a server, and a lock if and only if it has a server, and the identifier it would
  restart is that server's.
\<close>

theorem slot_holds_together:
  assumes "slot_reachable cfg w"
  shows "(s_process (y_slot w) = None \<longleftrightarrow> s_server (y_slot w) = None)
    \<and> (s_lock (y_slot w) = None \<longleftrightarrow> s_server (y_slot w) = None)
    \<and> (\<forall>srv. s_server (y_slot w) = Some srv \<longrightarrow> s_mountedID (y_slot w) = srv_ID srv)"
  using together_reachable [OF assms] by (simp add: together_def)

subsection \<open>A run of the machine\<close>

text \<open>A mount, a stop that the operator aborts while the process exits, and another stop.\<close>

definition run_mount :: mount where
  "run_mount = \<lparr>mt_server = paper_server, mt_process = 0, mt_held = demo_held, mt_pass = []\<rparr>"

abbreviation C :: slot_cfg where "C \<equiv> demo_slot ''a'' 25565"

definition run1 :: sys where
  "run1 = on_slot (begin_mount 1) ((boot C)\<lparr>y_threads := y_threads (boot C) @ [TMount ''id'']\<rparr>)"

definition run2 :: sys where
  "run2 = go 0 TDone [TWatchStart, THealth (y_next run1), TRcon (y_next run1)]
       (with_proc (y_next run1) demo_process (on_slot (install 2 (y_next run1) run_mount) (run1\<lparr>y_next := y_next run1 + 1\<rparr>)))"

lemma run1_reachable: "slot_reachable C run1"
  unfolding run1_def by (rule sr_step [OF sr_boot start_call]) (simp add: boot_def NewSlot_def CanStartFrom_def)

lemma run2_reachable: "slot_reachable C run2"
  unfolding run2_def
  by (rule sr_step [OF run1_reachable start_ok])
    (simp_all add: run1_def on_slot_def boot_def at_def run_mount_def running_def demo_process_def paper_server_def)

lemma run2_slot: "s_state (y_slot run2) = StateStarting" "s_process (y_slot run2) = Some 0" "s_server (y_slot run2) = Some paper_server"
    "s_cancel (y_slot run2) = Some 0" "s_stopping (y_slot run2) = False" "s_stopAbort (y_slot run2) = None"
    "y_threads run2 = [TDone, TWatchStart, THealth 0, TRcon 0]" "y_next run2 = 1" "y_procs run2 = [0 \<mapsto> demo_process]"
    "y_cancelled run2 = {}" "y_aborted run2 = {}"
  by (simp_all add: run2_def run1_def sys_defs boot_def install_def begin_mount_def NewSlot_def run_mount_def)

theorem slot_holds_together_witness:
  "s_process (y_slot run2) = Some 0 \<and> s_server (y_slot run2) = Some paper_server \<and> s_lock (y_slot run2) \<noteq> None"
  using slot_holds_together [OF run2_reachable] by (simp add: run2_slot)

text \<open>The process after its exit was published, and after one receive.\<close>

definition drained :: process where
  "drained = (waitAndPublish 4 WaitOk demo_process)\<lparr>pr_exitCh := []\<rparr>"

definition exit_error :: last_error where
  "exit_error = \<lparr>er_Code = ''process_exited_nonzero'', er_Message = [], er_At = 4\<rparr>"

lemma exited_recv: "recv_exit (waitAndPublish 4 WaitOk demo_process) = Some (classify_exit 4 WaitOk, drained)"
  by (simp add: recv_exit_def waitAndPublish_def drained_def demo_process_def Let_def)

lemma unasked_exit: "exit_transition (\<lambda>_. []) False (classify_exit 4 WaitOk) = (StateCrashed, Some exit_error)"
  by (simp add: exit_transition_def exit_error_def classify_exit_def zero_exit_info_def Let_def)

text \<open>What the steps of the run read of a world.\<close>

definition sees :: "sys \<Rightarrow> state \<Rightarrow> nat option \<Rightarrow> bool \<Rightarrow> nat option \<times> nat option \<Rightarrow> thread list \<Rightarrow> bool" where
  "sees w st p stopping ca ts \<longleftrightarrow> s_state (y_slot w) = st \<and> s_process (y_slot w) = p \<and> s_stopping (y_slot w) = stopping
     \<and> (s_cancel (y_slot w), s_stopAbort (y_slot w)) = ca \<and> y_threads w = ts"

definition knows :: "sys \<Rightarrow> nat \<Rightarrow> (nat \<rightharpoonup> process) \<Rightarrow> nat set \<Rightarrow> nat set \<Rightarrow> bool" where
  "knows w n procs cancelled aborted \<longleftrightarrow> y_next w = n \<and> y_procs w = procs \<and> y_cancelled w = cancelled \<and> y_aborted w = aborted"

lemmas run_defs = sys_defs sees_def knows_def at_def transition_def clear_mount_def revert_stop_def

lemma run2_sees: "sees run2 StateStarting (Some 0) False (Some 0, None) [TDone, TWatchStart, THealth 0, TRcon 0]"
    "knows run2 1 [0 \<mapsto> demo_process] {} {}"
  by (simp_all add: sees_def knows_def run2_slot)

definition run3 :: sys where
  "run3 = go 1 (TWatch 0) [] run2"

lemma run3_reachable: "slot_reachable C run3"
  unfolding run3_def by (rule sr_step [OF run2_reachable watch_some])
    (use run2_sees in \<open>simp_all add: run_defs \<close>)

lemma run3_sees: "sees run3 StateStarting (Some 0) False (Some 0, None)
      [TDone, TWatch 0, THealth 0, TRcon 0]"
    "knows run3 1 [0 \<mapsto> demo_process] {} {}"
  using run2_sees by (simp_all add: run_defs run3_def)

definition run4 :: sys where
  "run4 = run3\<lparr>y_threads := y_threads run3 @ [TStop0 None]\<rparr>"

lemma run4_reachable: "slot_reachable C run4"
  unfolding run4_def by (rule sr_step [OF run3_reachable stop_call])
    (use run3_sees in \<open>simp_all add: run_defs CanStopFrom_def\<close>)

lemma run4_sees: "sees run4 StateStarting (Some 0) False (Some 0, None)
      [TDone, TWatch 0, THealth 0, TRcon 0, TStop0 None]"
    "knows run4 1 [0 \<mapsto> demo_process] {} {}"
  using run3_sees by (simp_all add: run_defs run4_def)

definition run5 :: sys where
  "run5 = go 4 (TStop1 None) [] (shift 3 StateStopping None run4)"

lemma run5_reachable: "slot_reachable C run5"
  unfolding run5_def by (rule sr_step [OF run4_reachable stop_shift])
    (use run4_sees in \<open>simp_all add: run_defs \<close>)

lemma run5_sees: "sees run5 StateStopping (Some 0) False (Some 0, None)
      [TDone, TWatch 0, THealth 0, TRcon 0, TStop1 None]"
    "knows run5 1 [0 \<mapsto> demo_process] {} {}"
  using run4_sees by (simp_all add: run_defs run5_def)

definition run6 :: sys where
  "run6 = go 4 (TStopWait (s_process (y_slot run5)) (y_next run5)) (map TRestart (case None of None \<Rightarrow> [] | Some sid \<Rightarrow> [sid]))
     (on_slot (\<lambda>s. s\<lparr>s_stopping := True, s_stopAbort := Some (y_next run5)\<rparr>) (run5\<lparr>y_next := y_next run5 + 1\<rparr>))"

lemma run6_reachable: "slot_reachable C run6"
  unfolding run6_def by (rule sr_step [OF run5_reachable stop_record])
    (use run5_sees in \<open>simp_all add: run_defs \<close>)

lemma run6_sees: "sees run6 StateStopping (Some 0) True (Some 0, Some 1)
      [TDone, TWatch 0, THealth 0, TRcon 0, TStopWait (Some 0) 1]"
    "knows run6 2 [0 \<mapsto> demo_process] {} {}"
  using run5_sees by (simp_all add: run_defs run6_def)

definition run7 :: sys where
  "run7 = with_proc 0 (waitAndPublish 4 WaitOk demo_process) run6"

lemma run7_reachable: "slot_reachable C run7"
  unfolding run7_def by (rule sr_step [OF run6_reachable process_exit])
    (use run6_sees in \<open>simp_all add: run_defs running_def demo_process_def\<close>)

lemma run7_sees: "sees run7 StateStopping (Some 0) True (Some 0, Some 1)
      [TDone, TWatch 0, THealth 0, TRcon 0, TStopWait (Some 0) 1]"
    "knows run7 2 [0 \<mapsto> waitAndPublish 4 WaitOk demo_process] {} {}"
  using run6_sees by (simp_all add: run_defs run7_def)

definition run8 :: sys where
  "run8 = run7\<lparr>y_slot := (y_slot run7)\<lparr>s_stopAbort := None\<rparr>, y_aborted := insert 1 (y_aborted run7)\<rparr>"

lemma run8_reachable: "slot_reachable C run8"
  unfolding run8_def by (rule sr_step [OF run7_reachable abort_call])
    (use run7_sees in \<open>simp_all add: run_defs AbortStop_def\<close>)

lemma run8_sees: "sees run8 StateStopping (Some 0) True (Some 0, None)
      [TDone, TWatch 0, THealth 0, TRcon 0, TStopWait (Some 0) 1]"
    "knows run8 2 [0 \<mapsto> waitAndPublish 4 WaitOk demo_process] {} {1}"
  using run7_sees by (simp_all add: run_defs run8_def)

definition run9 :: sys where
  "run9 = go 4 TStopRevert [] (on_slot revert_stop run8)"

lemma run9_reachable: "slot_reachable C run9"
  unfolding run9_def by (rule sr_step [OF run8_reachable stop_abort])
    (use run8_sees in \<open>simp_all add: run_defs \<close>)

lemma run9_sees: "sees run9 StateStopping (Some 0) False (Some 0, None)
      [TDone, TWatch 0, THealth 0, TRcon 0, TStopRevert]"
    "knows run9 2 [0 \<mapsto> waitAndPublish 4 WaitOk demo_process] {} {1}"
  using run8_sees by (simp_all add: run_defs run9_def)

definition run10 :: sys where
  "run10 = go 1 (TWatchGot (classify_exit 4 WaitOk)) [] (with_proc 0 drained run9)"

lemma run10_reachable: "slot_reachable C run10"
  unfolding run10_def by (rule sr_step [OF run9_reachable watch_recv [where pr = "waitAndPublish 4 WaitOk demo_process" and info = "classify_exit 4 WaitOk" and pr' = drained]])
    (use run9_sees in \<open>simp_all add: run_defs exited_recv\<close>)

lemma run10_sees: "sees run10 StateStopping (Some 0) False (Some 0, None)
      [TDone, TWatchGot (classify_exit 4 WaitOk), THealth 0, TRcon 0, TStopRevert]"
    "knows run10 2 [0 \<mapsto> drained] {} {1}"
  using run9_sees by (simp_all add: run_defs run10_def)

definition run11 :: sys where
  "run11 = go 1 (TWatchEnd (s_stopping (y_slot run10)) (classify_exit 4 WaitOk)) []
     (on_slot clear_mount (run10\<lparr>y_cancelled := y_cancelled run10 \<union> set_option (s_cancel (y_slot run10))\<rparr>))"

lemma run11_reachable: "slot_reachable C run11"
  unfolding run11_def by (rule sr_step [OF run10_reachable watch_clear])
    (use run10_sees in \<open>simp_all add: run_defs \<close>)

lemma run11_sees: "sees run11 StateStopping (None) False (None, None)
      [TDone, TWatchEnd False (classify_exit 4 WaitOk), THealth 0, TRcon 0, TStopRevert]"
    "knows run11 2 [0 \<mapsto> drained] {0} {1}"
  using run10_sees by (simp_all add: run_defs run11_def)

definition run12 :: sys where
  "run12 = go 1 TDone [] (shift 5 StateCrashed (Some exit_error) run11)"

lemma run12_reachable: "slot_reachable C run12"
  unfolding run12_def by (rule sr_step [OF run11_reachable watch_end [where stopping = False and info = "classify_exit 4 WaitOk" and msg = "\<lambda>_. []"]])
    (use run11_sees in \<open>simp_all add: run_defs unasked_exit\<close>)

lemma run12_sees: "sees run12 StateCrashed (None) False (None, None)
      [TDone, TDone, THealth 0, TRcon 0, TStopRevert]"
    "knows run12 2 [0 \<mapsto> drained] {0} {1}"
  using run11_sees by (simp_all add: run_defs run12_def)

definition run13 :: sys where
  "run13 = go 4 TDone [] (shift 6 StateRunning None run12)"

lemma run13_reachable: "slot_reachable C run13"
  unfolding run13_def by (rule sr_step [OF run12_reachable stop_revert])
    (use run12_sees in \<open>simp_all add: run_defs \<close>)

lemma run13_sees: "sees run13 StateRunning (None) False (None, None)
      [TDone, TDone, THealth 0, TRcon 0, TDone]"
    "knows run13 2 [0 \<mapsto> drained] {0} {1}"
  using run12_sees by (simp_all add: run_defs run13_def)

definition run14 :: sys where
  "run14 = go 2 TDone [] run13"

lemma run14_reachable: "slot_reachable C run14"
  unfolding run14_def by (rule sr_step [OF run13_reachable health_done])
    (use run13_sees in \<open>simp_all add: run_defs \<close>)

lemma run14_sees: "sees run14 StateRunning (None) False (None, None)
      [TDone, TDone, TDone, TRcon 0, TDone]"
    "knows run14 2 [0 \<mapsto> drained] {0} {1}"
  using run13_sees by (simp_all add: run_defs run14_def)

definition run15 :: sys where
  "run15 = go 3 TDone [] run14"

lemma run15_reachable: "slot_reachable C run15"
  unfolding run15_def by (rule sr_step [OF run14_reachable rcon_done])
    (use run14_sees in \<open>simp_all add: run_defs \<close>)

lemma run15_sees: "sees run15 StateRunning (None) False (None, None)
      [TDone, TDone, TDone, TDone, TDone]"
    "knows run15 2 [0 \<mapsto> drained] {0} {1}"
  using run14_sees by (simp_all add: run_defs run15_def)

definition run16 :: sys where
  "run16 = run15\<lparr>y_threads := y_threads run15 @ [TStop0 None]\<rparr>"

lemma run16_reachable: "slot_reachable C run16"
  unfolding run16_def by (rule sr_step [OF run15_reachable stop_call])
    (use run15_sees in \<open>simp_all add: run_defs CanStopFrom_def\<close>)

lemma run16_sees: "sees run16 StateRunning (None) False (None, None)
      [TDone, TDone, TDone, TDone, TDone, TStop0 None]"
    "knows run16 2 [0 \<mapsto> drained] {0} {1}"
  using run15_sees by (simp_all add: run_defs run16_def)

definition run17 :: sys where
  "run17 = go 5 (TStop1 None) [] (shift 7 StateStopping None run16)"

lemma run17_reachable: "slot_reachable C run17"
  unfolding run17_def by (rule sr_step [OF run16_reachable stop_shift])
    (use run16_sees in \<open>simp_all add: run_defs \<close>)

lemma run17_sees: "sees run17 StateStopping (None) False (None, None)
      [TDone, TDone, TDone, TDone, TDone, TStop1 None]"
    "knows run17 2 [0 \<mapsto> drained] {0} {1}"
  using run16_sees by (simp_all add: run_defs run17_def)

definition run18 :: sys where
  "run18 = go 5 (TStopWait (s_process (y_slot run17)) (y_next run17)) (map TRestart (case None of None \<Rightarrow> [] | Some sid \<Rightarrow> [sid]))
     (on_slot (\<lambda>s. s\<lparr>s_stopping := True, s_stopAbort := Some (y_next run17)\<rparr>) (run17\<lparr>y_next := y_next run17 + 1\<rparr>))"

lemma run18_reachable: "slot_reachable C run18"
  unfolding run18_def by (rule sr_step [OF run17_reachable stop_record])
    (use run17_sees in \<open>simp_all add: run_defs \<close>)

lemma run18_sees: "sees run18 StateStopping (None) True (None, Some 2)
      [TDone, TDone, TDone, TDone, TDone, TStopWait None 2]"
    "knows run18 3 [0 \<mapsto> drained] {0} {1}"
  using run17_sees by (simp_all add: run_defs run18_def)

definition run19 :: sys where
  "run19 = go 5 TDone [] run18"

lemma run19_reachable: "slot_reachable C run19"
  unfolding run19_def by (rule sr_step [OF run18_reachable stop_nil])
    (use run18_sees in \<open>simp_all add: run_defs \<close>)

lemma run19_sees: "sees run19 StateStopping (None) True (None, Some 2)
      [TDone, TDone, TDone, TDone, TDone, TDone]"
    "knows run19 3 [0 \<mapsto> drained] {0} {1}"
  using run18_sees by (simp_all add: run_defs run19_def)

subsection \<open>A start over a process that is still alive\<close>

definition late3 :: sys where
  "late3 = go 1 (TWatch 0) [] run2"

lemma late3_reachable: "slot_reachable C late3"
  unfolding late3_def by (rule sr_step [OF run2_reachable watch_some])
    (use run2_sees in \<open>simp_all add: run_defs \<close>)

lemma late3_sees: "sees late3 StateStarting (Some 0) False (Some 0, None)
      [TDone, TWatch 0, THealth 0, TRcon 0]"
    "knows late3 1 ([0 \<mapsto> demo_process]) {} {}"
  using run2_sees by (simp_all add: run_defs late3_def probe_result_def begin_mount_def install_def fun_upd_twist run_mount_def)

definition late4 :: sys where
  "late4 = go 2 (THealthSeen 0 (None \<noteq> (None :: status option)) (s_state (y_slot late3))) [] (on_slot (probe_result 3 None) late3)"

lemma late4_reachable: "slot_reachable C late4"
  unfolding late4_def by (rule sr_step [OF late3_reachable health_probe])
    (use late3_sees in \<open>simp_all add: run_defs \<close>)

lemma late4_sees: "sees late4 StateStarting (Some 0) False (Some 0, None)
      [TDone, TWatch 0, THealthSeen 0 False StateStarting, TRcon 0]"
    "knows late4 1 ([0 \<mapsto> demo_process]) {} {}"
  using late3_sees by (simp_all add: run_defs late4_def probe_result_def begin_mount_def install_def fun_upd_twist run_mount_def)

definition late5 :: sys where
  "late5 = go 2 (THealthLate 0 StateStarting) [] late4"

lemma late5_reachable: "slot_reachable C late5"
  unfolding late5_def by (rule sr_step [OF late4_reachable health_same [where ok = False]])
    (use late4_sees in \<open>simp_all add: run_defs \<close>)

lemma late5_sees: "sees late5 StateStarting (Some 0) False (Some 0, None)
      [TDone, TWatch 0, THealthLate 0 StateStarting, TRcon 0]"
    "knows late5 1 ([0 \<mapsto> demo_process]) {} {}"
  using late4_sees by (simp_all add: run_defs late5_def probe_result_def begin_mount_def install_def fun_upd_twist run_mount_def)

definition late6 :: sys where
  "late6 = go 2 THealthKill [] (shift 4 StateError (Some (timeout_error 4)) late5)"

lemma late6_reachable: "slot_reachable C late6"
  unfolding late6_def by (rule sr_step [OF late5_reachable health_timeout])
    (use late5_sees in \<open>simp_all add: run_defs \<close>)

lemma late6_sees: "sees late6 StateError (Some 0) False (Some 0, None)
      [TDone, TWatch 0, THealthKill, TRcon 0]"
    "knows late6 1 ([0 \<mapsto> demo_process]) {} {}"
  using late5_sees by (simp_all add: run_defs late6_def probe_result_def begin_mount_def install_def fun_upd_twist run_mount_def)

definition late7 :: sys where
  "late7 = on_slot (begin_mount 5) (late6\<lparr>y_threads := y_threads late6 @ [TMount ''id'']\<rparr>)"

lemma late7_reachable: "slot_reachable C late7"
  unfolding late7_def by (rule sr_step [OF late6_reachable start_call])
    (use late6_sees in \<open>simp_all add: run_defs CanStartFrom_def\<close>)

lemma late7_sees: "sees late7 StateMounting (Some 0) False (Some 0, None)
      [TDone, TWatch 0, THealthKill, TRcon 0, TMount ''id'']"
    "knows late7 1 ([0 \<mapsto> demo_process]) {} {}"
  using late6_sees by (simp_all add: run_defs late7_def probe_result_def begin_mount_def install_def fun_upd_twist run_mount_def)

definition late8 :: sys where
  "late8 = go 4 TDone [TWatchStart, THealth (y_next late7), TRcon (y_next late7)]
     (with_proc (y_next late7) demo_process (on_slot (install 6 (y_next late7) (run_mount\<lparr>mt_process := 1\<rparr>)) (late7\<lparr>y_next := y_next late7 + 1\<rparr>)))"

lemma late8_reachable: "slot_reachable C late8"
  unfolding late8_def by (rule sr_step [OF late7_reachable start_ok])
    (use late7_sees in \<open>simp_all add: run_defs running_def demo_process_def run_mount_def paper_server_def\<close>)

lemma late8_sees: "sees late8 StateStarting (Some 1) False (Some 1, None)
      [TDone, TWatch 0, THealthKill, TRcon 0, TDone, TWatchStart, THealth 1, TRcon 1]"
    "knows late8 2 ([0 \<mapsto> demo_process, 1 \<mapsto> demo_process]) {} {}"
  using late7_sees by (simp_all add: run_defs late8_def probe_result_def begin_mount_def install_def fun_upd_twist run_mount_def)

definition late9 :: sys where
  "late9 = with_proc 0 (waitAndPublish 4 WaitOk demo_process) late8"

lemma late9_reachable: "slot_reachable C late9"
  unfolding late9_def by (rule sr_step [OF late8_reachable process_exit])
    (use late8_sees in \<open>simp_all add: run_defs running_def demo_process_def\<close>)

lemma late9_sees: "sees late9 StateStarting (Some 1) False (Some 1, None)
      [TDone, TWatch 0, THealthKill, TRcon 0, TDone, TWatchStart, THealth 1, TRcon 1]"
    "knows late9 2 ([0 \<mapsto> waitAndPublish 4 WaitOk demo_process, 1 \<mapsto> demo_process]) {} {}"
  using late8_sees by (simp_all add: run_defs late9_def probe_result_def begin_mount_def install_def fun_upd_twist run_mount_def)

definition late10 :: sys where
  "late10 = go 1 (TWatchGot (classify_exit 4 WaitOk)) [] (with_proc 0 drained late9)"

lemma late10_reachable: "slot_reachable C late10"
  unfolding late10_def by (rule sr_step [OF late9_reachable watch_recv [where pr = "waitAndPublish 4 WaitOk demo_process" and info = "classify_exit 4 WaitOk" and pr' = drained]])
    (use late9_sees in \<open>simp_all add: run_defs exited_recv\<close>)

lemma late10_sees: "sees late10 StateStarting (Some 1) False (Some 1, None)
      [TDone, TWatchGot (classify_exit 4 WaitOk), THealthKill, TRcon 0, TDone, TWatchStart, THealth 1, TRcon 1]"
    "knows late10 2 ([0 \<mapsto> drained, 1 \<mapsto> demo_process]) {} {}"
  using late9_sees by (simp_all add: run_defs late10_def probe_result_def begin_mount_def install_def fun_upd_twist run_mount_def)

definition late11 :: sys where
  "late11 = go 1 (TWatchEnd (s_stopping (y_slot late10)) (classify_exit 4 WaitOk)) []
     (on_slot clear_mount (late10\<lparr>y_cancelled := y_cancelled late10 \<union> set_option (s_cancel (y_slot late10))\<rparr>))"

lemma late11_reachable: "slot_reachable C late11"
  unfolding late11_def by (rule sr_step [OF late10_reachable watch_clear])
    (use late10_sees in \<open>simp_all add: run_defs \<close>)

lemma late11_sees: "sees late11 StateStarting (None) False (None, None)
      [TDone, TWatchEnd False (classify_exit 4 WaitOk), THealthKill, TRcon 0, TDone, TWatchStart, THealth 1, TRcon 1]"
    "knows late11 2 ([0 \<mapsto> drained, 1 \<mapsto> demo_process]) {1} {}"
  using late10_sees by (simp_all add: run_defs late11_def probe_result_def begin_mount_def install_def fun_upd_twist run_mount_def)

definition late12 :: sys where
  "late12 = go 1 TDone [] (shift 5 StateCrashed (Some exit_error) late11)"

lemma late12_reachable: "slot_reachable C late12"
  unfolding late12_def by (rule sr_step [OF late11_reachable watch_end [where stopping = False and info = "classify_exit 4 WaitOk" and msg = "\<lambda>_. []"]])
    (use late11_sees in \<open>simp_all add: run_defs unasked_exit\<close>)

lemma late12_sees: "sees late12 StateCrashed (None) False (None, None)
      [TDone, TDone, THealthKill, TRcon 0, TDone, TWatchStart, THealth 1, TRcon 1]"
    "knows late12 2 ([0 \<mapsto> drained, 1 \<mapsto> demo_process]) {1} {}"
  using late11_sees by (simp_all add: run_defs late12_def probe_result_def begin_mount_def install_def fun_upd_twist run_mount_def)

subsection \<open>Properties of the runs\<close>

definition all_done :: "sys \<Rightarrow> bool" where
  "all_done w \<longleftrightarrow> list_all (\<lambda>t. t = TDone) (y_threads w)"

lemma all_done_at: "all_done w \<Longrightarrow> at w i t \<Longrightarrow> t = TDone"
  by (auto simp: all_done_def at_def list_all_length)

text \<open>
  An aborted stop can leave a slot that runs nothing.  If the process exits while the
  operator aborts the stop, the stop's goroutine declares the slot running after the exit has been
  recorded: the slot is running, without process, server or lock, and no goroutine is left that
  would correct it.
\<close>

theorem slot_runs_nothing:
  "\<exists>w. slot_reachable C w \<and> s_state (y_slot w) = StateRunning \<and> s_process (y_slot w) = None
     \<and> s_server (y_slot w) = None \<and> s_lock (y_slot w) = None \<and> all_done w"
proof (intro exI conjI)
  show "slot_reachable C run15" by (rule run15_reachable)
  show p: "s_state (y_slot run15) = StateRunning" "s_process (y_slot run15) = None" "all_done run15"
    using run15_sees by (simp_all add: sees_def all_done_def)
  show "s_server (y_slot run15) = None" "s_lock (y_slot run15) = None"
    using together_reachable [OF run15_reachable] p(2) by (simp_all add: together_def)
qed

definition stuck_stopping :: "sys \<Rightarrow> bool" where
  "stuck_stopping w \<longleftrightarrow> s_state (y_slot w) = StateStopping \<and> all_done w"

lemma stuck_stopping_step: "slot_step w w' \<Longrightarrow> stuck_stopping w \<Longrightarrow> stuck_stopping w'"
proof (induction rule: slot_step.induct)
  case (abort_call w a s')
  then show ?case by (auto simp: stuck_stopping_def all_done_def AbortStop_def split: option.splits if_splits)
qed (auto simp: stuck_stopping_def CanStartFrom_def CanStopFrom_def with_proc_def all_done_def [of "with_proc _ _ _"]
    dest: all_done_at, auto simp: all_done_def)

lemma stuck_stopping_forever: "slot_step\<^sup>*\<^sup>* w w' \<Longrightarrow> stuck_stopping w \<Longrightarrow> stuck_stopping w'"
  by (induction rule: rtranclp_induct) (auto intro: stuck_stopping_step)

text \<open>
  Stopping such a slot wedges it for good.  There is a reachable slot in state
  \<open>stopping\<close> from which no sequence of steps leads to any other state: it accepts neither a
  start nor a stop again, and aborting the stop changes nothing.
\<close>

theorem slot_can_wedge:
  "\<exists>w. slot_reachable C w \<and> s_state (y_slot w) = StateStopping
     \<and> (\<nexists>w'. slot_step\<^sup>*\<^sup>* w w' \<and> s_state (y_slot w') \<noteq> StateStopping)
     \<and> \<not> CanStartFrom StateStopping \<and> \<not> CanStopFrom StateStopping"
proof (intro exI conjI)
  have s: "stuck_stopping run19" using run19_sees by (simp add: sees_def stuck_stopping_def all_done_def)
  show "slot_reachable C run19" by (rule run19_reachable)
  show "s_state (y_slot run19) = StateStopping" using s by (simp add: stuck_stopping_def)
  show "\<nexists>w'. slot_step\<^sup>*\<^sup>* run19 w' \<and> s_state (y_slot w') \<noteq> StateStopping"
    using stuck_stopping_forever [OF _ s] by (auto simp: stuck_stopping_def)
  show "\<not> CanStartFrom StateStopping" "\<not> CanStopFrom StateStopping"
    by (simp_all add: CanStartFrom_def CanStopFrom_def)
qed

text \<open>
  A start after a start-up timeout can lose its server.  The timed-out process may still be
  alive when the next one is mounted; when it ends, its watcher clears the slot of the new server:
  a process is running, the slot is crashed, holds no lock and would start a third one.
\<close>

theorem slot_orphans_new_process:
  "\<exists>w pr. slot_reachable C w \<and> y_procs w 1 = Some pr \<and> running pr \<and> s_process (y_slot w) = None
     \<and> s_lock (y_slot w) = None \<and> s_state (y_slot w) = StateCrashed \<and> CanStartFrom (s_state (y_slot w))"
proof (intro exI conjI)
  show "slot_reachable C late12" by (rule late12_reachable)
  show p: "y_procs late12 1 = Some demo_process" "running demo_process" "s_process (y_slot late12) = None"
      "s_state (y_slot late12) = StateCrashed" "CanStartFrom (s_state (y_slot late12))"
    using late12_sees by (simp_all add: sees_def knows_def running_def demo_process_def CanStartFrom_def)
  show "s_lock (y_slot late12) = None"
    using together_reachable [OF late12_reachable] p(3) by (simp add: together_def)
qed

subsection \<open>What holds in every run\<close>

definition aborts_ok :: "sys \<Rightarrow> bool" where
  [inv_defs]: "aborts_ok w \<longleftrightarrow> (\<forall>a. s_stopAbort (y_slot w) = Some a \<longrightarrow> a < y_next w \<and> a \<notin> y_aborted w)
     \<and> (\<forall>a\<in>y_aborted w. a < y_next w)"

lemma aborts_ok_frame:
  "aborts_ok w \<Longrightarrow> s_stopAbort (y_slot w') = s_stopAbort (y_slot w) \<or> s_stopAbort (y_slot w') = None \<Longrightarrow>
     y_aborted w' = y_aborted w \<Longrightarrow> y_next w \<le> y_next w' \<Longrightarrow> aborts_ok w'"
  unfolding aborts_ok_def by (metis le_less_trans less_le_trans option.distinct(1))

lemma slot_frame [frame_simps]:
  "s_stopAbort (begin_mount now s) = s_stopAbort s" "s_stopAbort (failMount now code msg s) = s_stopAbort s"
  "s_stopAbort (install now c m s) = s_stopAbort s" "s_stopAbort (clear_mount s) = s_stopAbort s"
  "s_stopAbort (transition now to e s) = s_stopAbort s" "s_stopAbort (probe_result now st s) = s_stopAbort s"
  by (simp_all add: begin_mount_def failMount_def install_def clear_mount_def transition_def probe_result_def split: option.split)

lemma aborts_ok_step: "slot_step w w' \<Longrightarrow> aborts_ok w \<Longrightarrow> aborts_ok w'"
proof (induction rule: slot_step.induct)
  case (stop_record w i restart)
  then show ?case by (auto simp: sys_defs aborts_ok_def less_Suc_eq)
next
  case (abort_call w a s')
  then show ?case by (auto simp: aborts_ok_def AbortStop_def split: option.splits if_splits)
qed (erule aborts_ok_frame; simp add: sys_defs frame_simps revert_stop_def)+

lemma aborts_ok_boot: "aborts_ok (boot cfg)"
  by (simp add: aborts_ok_def boot_def NewSlot_def)

lemma aborts_ok_reachable: "slot_reachable cfg w \<Longrightarrow> aborts_ok w"
  by (erule reachable_invariant) (auto intro: aborts_ok_step aborts_ok_boot)

text \<open>
  Aborting a stop never closes a channel twice: in every interleaving, the channel that
  \<open>AbortStop\<close> closes has not been closed before.
\<close>

theorem abort_closes_once:
  assumes "slot_reachable cfg w" and "AbortStop (y_slot w) = Some (a, s')"
  shows "a \<notin> y_aborted w"
  using aborts_ok_reachable [OF assms(1)] assms(2)
  by (auto simp: aborts_ok_def AbortStop_def split: option.splits if_splits)

theorem abort_closes_once_witness: "1 \<notin> y_aborted run7"
proof -
  have "AbortStop (y_slot run7) = Some (1, (y_slot run7)\<lparr>s_stopAbort := None\<rparr>)"
    using run7_sees by (simp add: AbortStop_def sees_def)
  from abort_closes_once [OF run7_reachable this] show ?thesis .
qed

text \<open>
  The subscribers of a slot never learn that it is mounting or starting: those two states
  are set without an event, in every interleaving.
\<close>

theorem no_mounting_events:
  assumes "slot_reachable cfg w"
  shows "StateMounting \<notin> snd ` set (y_events w) \<and> StateStarting \<notin> snd ` set (y_events w)"
  using assms
proof (rule reachable_invariant)
  show "slot_step w w' \<Longrightarrow> StateMounting \<notin> snd ` set (y_events w) \<and> StateStarting \<notin> snd ` set (y_events w) \<Longrightarrow>
      StateMounting \<notin> snd ` set (y_events w') \<and> StateStarting \<notin> snd ` set (y_events w')" for w w'
    by (induction rule: slot_step.induct) (auto simp: sys_defs exit_transition_def split: if_splits)
qed (simp add: boot_def)

theorem no_mounting_events_witness: "StateStarting \<notin> snd ` set (y_events run2) \<and> s_state (y_slot run2) = StateStarting"
  using no_mounting_events [OF run2_reachable] by (simp add: run2_slot)

text \<open>A recorded process has a watcher on its way to it, at it, or about to clear the slot.\<close>

definition watched :: "sys \<Rightarrow> bool" where
  [inv_defs]: "watched w \<longleftrightarrow> (\<forall>p. s_process (y_slot w) = Some p \<longrightarrow> p \<in> dom (y_procs w) \<and>
     (TWatchStart \<in> set (y_threads w) \<or> TWatch p \<in> set (y_threads w) \<or> (\<exists>info. TWatchGot info \<in> set (y_threads w))))"

lemma in_go: "x \<in> set (y_threads w) \<Longrightarrow> at w i t \<Longrightarrow> x \<noteq> t \<Longrightarrow> x \<in> set (y_threads (go i t' ts w))"
  by (auto simp: go_def at_def in_set_conv_nth) (metis length_list_update nth_list_update_neq)

lemma at_on [simp]: "at (on_slot f w) = at w" "at (shift now to e w) = at w" "at (with_proc p pr w) = at w"
  by (simp_all add: fun_eq_iff at_def sys_defs)

lemma y_simps [simp]:
  "y_slot (go i t ts w) = y_slot w" "y_procs (go i t ts w) = y_procs w"
  "y_slot (with_proc p pr w) = y_slot w" "y_threads (with_proc p pr w) = y_threads w"
  "y_threads (on_slot f w) = y_threads w" "y_procs (on_slot f w) = y_procs w" "y_slot (on_slot f w) = f (y_slot w)"
  "y_threads (shift now to e w) = y_threads w" "y_procs (shift now to e w) = y_procs w"
  "y_slot (shift now to e w) = transition now to e (y_slot w)"
  by (simp_all add: sys_defs)

lemma s_process_frame [frame_simps]:
  "s_process (begin_mount now s) = s_process s" "s_process (failMount now code msg s) = None"
  "s_process (clear_mount s) = None" "s_process (transition now to e s) = s_process s"
  "s_process (probe_result now st s) = s_process s" "s_process (revert_stop s) = s_process s"
  by (simp_all add: begin_mount_def failMount_def clear_mount_def transition_def probe_result_def revert_stop_def split: option.split)

text \<open>A step that leaves the recorded process, and moves a goroutine that is no watcher.\<close>

lemma watched_go:
  assumes "watched w" and "at w i t" and "t \<noteq> TWatchStart" and "\<And>p. t \<noteq> TWatch p" and "\<And>info. t \<noteq> TWatchGot info"
    and "y_threads w0 = y_threads w" and "dom (y_procs w) \<subseteq> dom (y_procs w0)"
    and "s_process (y_slot w0) = s_process (y_slot w) \<or> s_process (y_slot w0) = None"
  shows "watched (go i t' ts w0)"
proof -
  have keep: "x \<in> set (y_threads (go i t' ts w0))" if "x \<in> set (y_threads w)" "x \<noteq> t" for x
    using in_go [OF that(1) assms(2) that(2), of t' ts] assms(6) by (simp add: go_def)
  show ?thesis
    using assms(1,3-5,7,8) keep unfolding watched_def y_simps(1,2) by (metis option.distinct(1) subsetD)
qed

lemma watched_keep:
  assumes "watched w" and "set (y_threads w) \<subseteq> set (y_threads w')" and "dom (y_procs w) \<subseteq> dom (y_procs w')"
    and "s_process (y_slot w') = s_process (y_slot w)"
  shows "watched w'"
  using assms unfolding watched_def by (metis subsetD)

lemma watched_step: "slot_step w w' \<Longrightarrow> watched w \<Longrightarrow> watched w'"
proof (induction rule: slot_step.induct)
  case (start_call w now sid)
  then show ?case by (auto intro: watched_keep simp: frame_simps)
next
  case (start_ok w i sid m pr)
  then show ?case by (auto simp: watched_def go_def with_proc_def install_def)
next
  case (watch_none w i)
  then show ?case by (simp add: watched_def)
next
  case (watch_some w i p)
  then have "TWatch p \<in> set (y_threads (go i (TWatch p) [] w))" by (simp add: go_def at_def set_update_memI)
  then show ?case using watch_some by (simp add: watched_def)
next
  case (watch_recv w i p pr info pr')
  then have "TWatchGot info \<in> set (y_threads (go i (TWatchGot info) [] w))" by (simp add: go_def at_def set_update_memI)
  then show ?case using watch_recv by (auto simp: watched_def go_def with_proc_def)
next
  case (watch_clear w i info)
  then show ?case by (simp add: watched_def frame_simps)
next
  case (process_exit w p pr now res)
  then show ?case by (auto simp: watched_def with_proc_def)
next
  case (stop_call w restart)
  then show ?case by (auto intro: watched_keep)
next
  case (abort_call w a s')
  then show ?case by (intro watched_keep [OF abort_call.prems]) (auto simp: AbortStop_def split: option.splits if_splits)
qed (erule watched_go, assumption, (simp add: frame_simps with_proc_def subset_insertI)+)+

lemma watched_boot: "watched (boot cfg)"
  by (simp add: watched_def boot_def NewSlot_def)

lemma watched_reachable: "slot_reachable cfg w \<Longrightarrow> watched w"
  by (erule reachable_invariant) (auto intro: watched_step watched_boot)

lemma at_go: "at w i t \<Longrightarrow> at (go i t' ts w) i t'"
  by (simp add: at_def go_def nth_append)

text \<open>A slot that its watcher has settled.\<close>

definition settled :: "sys \<Rightarrow> bool" where
  "settled w \<longleftrightarrow> s_process (y_slot w) = None \<and> s_state (y_slot w) \<in> {StateIdle, StateCrashed}"

lemma got_settles:
  assumes "at w i (TWatchGot info)"
  shows "\<exists>w'. slot_step\<^sup>*\<^sup>* w w' \<and> settled w'"
proof -
  let ?w1 = "go i (TWatchEnd (s_stopping (y_slot w)) info) []
       (on_slot clear_mount (w\<lparr>y_cancelled := y_cancelled w \<union> set_option (s_cancel (y_slot w))\<rparr>))"
  have "at (on_slot clear_mount (w\<lparr>y_cancelled := y_cancelled w \<union> set_option (s_cancel (y_slot w))\<rparr>)) i (TWatchGot info)"
    using assms by (simp add: at_def on_slot_def)
  then have a: "at ?w1 i (TWatchEnd (s_stopping (y_slot w)) info)" by (rule at_go)
  obtain to e where t: "exit_transition (\<lambda>_. []) (s_stopping (y_slot w)) info = (to, e)" by fastforce
  then have "to \<in> {StateIdle, StateCrashed}" by (auto simp: exit_transition_def split: if_splits)
  then have "settled (go i TDone [] (shift 0 to e ?w1))"
    by (simp add: settled_def frame_simps) (simp add: transition_def)
  moreover have "slot_step w ?w1" by (rule watch_clear [OF assms])
  moreover have "slot_step ?w1 (go i TDone [] (shift 0 to e ?w1))" by (rule watch_end [OF a t])
  ultimately show ?thesis by (meson converse_rtranclp_into_rtranclp rtranclp.rtrancl_refl)
qed

lemma watch_settles:
  assumes "at w i (TWatch p)" and "y_procs w p = Some pr" and "pr_chClosed pr"
  shows "\<exists>w'. slot_step\<^sup>*\<^sup>* w w' \<and> settled w'"
proof -
  obtain info pr' where r: "recv_exit pr = Some (info, pr')"
    using assms(3) by (cases "pr_exitCh pr") (auto simp: recv_exit_def)
  have "at (with_proc p pr' w) i (TWatch p)" using assms(1) by simp
  then have "at (go i (TWatchGot info) [] (with_proc p pr' w)) i (TWatchGot info)" by (rule at_go)
  from got_settles [OF this] watch_recv [OF assms(1,2) r] show ?thesis
    by (meson converse_rtranclp_into_rtranclp)
qed

lemma in_threads_at: "t \<in> set (y_threads w) \<Longrightarrow> \<exists>i. at w i t"
  by (auto simp: at_def in_set_conv_nth)



end
