(* ===== verification/ServerApi.thy ===== *)
theory ServerApi
  imports Router SlotMachine
begin

text \<open>
  \<open>internal/slot/manager.go\<close>, \<open>internal/api/handlers_slots.go\<close> and \<open>handlers_server.go\<close>: the handlers
  that start and stop slots and those that talk to a running server.  A handler returns the responses it
  writes, in order: the client sees the first, the status recorder of the middleware keeps the last.
  The state is the manager's slots and the RCON connections they refer to.
\<close>

subsection \<open>The manager\<close>

record manager =
  mg_slots :: "string \<rightharpoonup> slot"
  mg_order :: "string list"

definition NewManager :: "time \<Rightarrow> slot_cfg list \<Rightarrow> string \<Rightarrow> string \<Rightarrow> manager" where
  "NewManager now cfgs inst host =
     fold (\<lambda>sc m. m\<lparr>mg_slots := (mg_slots m)(sc_Name sc \<mapsto> NewSlot now sc inst host),
                   mg_order := mg_order m @ [sc_Name sc]\<rparr>)
       cfgs \<lparr>mg_slots = Map.empty, mg_order = []\<rparr>"

definition manager_List :: "manager \<Rightarrow> slot list" where
  "manager_List m = map (\<lambda>n. the (mg_slots m n)) (mg_order m)"

definition Snapshots :: "manager \<Rightarrow> snapshot list" where
  "Snapshots m = map (\<lambda>n. Snapshot (the (mg_slots m n))) (mg_order m)"

subsection \<open>Requests and replies\<close>

text \<open>A body: none (\<open>ContentLength\<close> is not positive), one that does not decode, or its value.\<close>

datatype 'b body = NoBody | BadBody | Body 'b

type_synonym reply = "response list"

definition reply_error :: "int \<Rightarrow> string \<Rightarrow> reply" where
  "reply_error status code = [Router.WriteError status code]"

definition reply_ok :: "int \<Rightarrow> reply" where
  "reply_ok status = [ok_response status]"

definition DecodeJSON :: "'b body \<Rightarrow> reply + 'b" where
  "DecodeJSON b = (case b of Body v \<Rightarrow> Inr v | _ \<Rightarrow> Inl (reply_error 400 ''bad_request''))"

text \<open>The pattern of the handlers whose body may be left out.\<close>

definition DecodeOptional :: "'b \<Rightarrow> 'b body \<Rightarrow> reply + 'b" where
  "DecodeOptional zero b = (case b of NoBody \<Rightarrow> Inr zero | _ \<Rightarrow> DecodeJSON b)"

definition on_wire :: "reply \<Rightarrow> response" where "on_wire r = hd r"
definition recorded :: "reply \<Rightarrow> response" where "recorded r = last r"

subsection \<open>Slots\<close>

datatype slot_error = ErrSlotBusy | ErrServerNotMounted | ErrServerNotRunning | ErrServerIncompatible
  | ErrNotStopping | ErrAlreadyHeld | OtherError

fun mapSlotError :: "slot_error \<Rightarrow> reply" where
  "mapSlotError ErrSlotBusy = reply_error 409 ''slot_busy''"
| "mapSlotError ErrServerNotMounted = reply_error 409 ''server_not_running''"
| "mapSlotError ErrServerNotRunning = reply_error 409 ''server_not_running''"
| "mapSlotError ErrServerIncompatible = reply_error 400 ''server_incompatible''"
| "mapSlotError ErrNotStopping = reply_error 409 ''not_stopping''"
| "mapSlotError ErrAlreadyHeld = reply_error 409 ''server_in_use''"
| "mapSlotError OtherError = reply_error 500 ''internal''"

text \<open>What \<open>errors.Is\<close> finds in the error \<open>Start\<close> returns.\<close>

fun start_sentinel :: "start_error \<Rightarrow> slot_error" where
  "start_sentinel (SlotBusy _) = ErrSlotBusy"
| "start_sentinel (MountFailed (Incompatible _)) = ErrServerIncompatible"
| "start_sentinel (MountFailed (LockError e)) = (if is_ErrAlreadyHeld e then ErrAlreadyHeld else OtherError)"
| "start_sentinel (MountFailed _) = OtherError"

definition set_slot :: "string \<Rightarrow> slot \<Rightarrow> manager \<Rightarrow> manager" where
  "set_slot name s m = m\<lparr>mg_slots := (mg_slots m)(name \<mapsto> s)\<rparr>"

definition slot_missing :: reply where "slot_missing = reply_error 404 ''slot_not_found''"

definition handleSlotGet :: "string \<Rightarrow> manager \<Rightarrow> reply" where
  "handleSlotGet name m = (case mg_slots m name of None \<Rightarrow> slot_missing | Some s \<Rightarrow> reply_ok 200)"

definition handleSlotStart ::
  "time \<Rightarrow> nat \<Rightarrow> start_env \<Rightarrow> string \<Rightarrow> start_opts body \<Rightarrow> manager \<times> host_fs \<Rightarrow> reply \<times> manager \<times> host_fs" where
  "handleSlotStart now ctx env name body w =
     (case w of (m, fs) \<Rightarrow>
        (case mg_slots m name of
           None \<Rightarrow> (slot_missing, m, fs)
         | Some s \<Rightarrow>
            (case DecodeJSON body of
               Inl r \<Rightarrow> (r, m, fs)
             | Inr opts \<Rightarrow>
                if so_ServerID opts = [] then (reply_error 400 ''validation_failed'', m, fs)
                else (case Start now ctx opts env s fs of
                        (Inl e, s', fs') \<Rightarrow> (mapSlotError (start_sentinel e), set_slot name s' m, fs')
                      | (Inr (), s', fs') \<Rightarrow> (reply_ok 202, set_slot name s' m, fs')))))"

record stop_req =
  sr_GracefulSeconds :: int
  sr_BroadcastEvery :: int
  sr_BroadcastTemplate :: string
  sr_KillGrace :: string

definition no_stop_req :: stop_req where
  "no_stop_req = \<lparr>sr_GracefulSeconds = 0, sr_BroadcastEvery = 0, sr_BroadcastTemplate = [], sr_KillGrace = []\<rparr>"

text \<open>\<open>parse\<close> is \<open>time.ParseDuration\<close>.\<close>

definition stopReqToOptions :: "(string \<Rightarrow> duration option) \<Rightarrow> stop_req \<Rightarrow> stop_opts" where
  "stopReqToOptions parse b =
     \<lparr>sp_GracefulSeconds = sr_GracefulSeconds b,
      sp_KillGrace = (if sr_KillGrace b = [] then 0 else case parse (sr_KillGrace b) of None \<Rightarrow> 0 | Some d \<Rightarrow> d)\<rparr>"

text \<open>
  The part of \<open>Stop\<close> before its goroutine, run without interruption; \<open>a\<close> names the abort channel it
  makes.  \<open>Restart\<close> needs a mounted server and stops it; its goroutine is in the step relation.
\<close>

definition stop_now :: "time \<Rightarrow> nat \<Rightarrow> stop_opts \<Rightarrow> slot \<Rightarrow> slot_error + slot \<times> stop_opts" where
  "stop_now now a opts s =
     (if \<not> CanStopFrom (s_state s) then Inl ErrSlotBusy
      else Inr ((transition now StateStopping None s)\<lparr>s_stopping := True, s_stopAbort := Some a\<rparr>, stop_defaults opts))"

definition restart_now :: "time \<Rightarrow> nat \<Rightarrow> stop_opts \<Rightarrow> slot \<Rightarrow> slot_error + slot \<times> stop_opts" where
  "restart_now now a opts s = (if s_mountedID s = [] then Inl ErrServerNotMounted else stop_now now a opts s)"

text \<open>The result carries the options the goroutine of the stop runs with.\<close>

definition slotMutate ::
  "(stop_req \<Rightarrow> slot \<Rightarrow> slot_error + slot \<times> stop_opts) \<Rightarrow> string \<Rightarrow> stop_req body \<Rightarrow> manager \<Rightarrow>
   reply \<times> stop_opts option \<times> manager" where
  "slotMutate f name body m =
     (case mg_slots m name of
        None \<Rightarrow> (slot_missing, None, m)
      | Some s \<Rightarrow>
         (case DecodeOptional no_stop_req body of
            Inl r \<Rightarrow> (r, None, m)
          | Inr b \<Rightarrow>
             (case f b s of
                Inl e \<Rightarrow> (mapSlotError e, None, m)
              | Inr (s', opts) \<Rightarrow> (reply_ok 202, Some opts, set_slot name s' m))))"

definition handleSlotStop ::
  "(string \<Rightarrow> duration option) \<Rightarrow> time \<Rightarrow> nat \<Rightarrow> string \<Rightarrow> stop_req body \<Rightarrow> manager \<Rightarrow>
   reply \<times> stop_opts option \<times> manager" where
  "handleSlotStop parse now a = slotMutate (\<lambda>b. stop_now now a (stopReqToOptions parse b))"

definition handleSlotRestart ::
  "(string \<Rightarrow> duration option) \<Rightarrow> time \<Rightarrow> nat \<Rightarrow> string \<Rightarrow> stop_req body \<Rightarrow> manager \<Rightarrow>
   reply \<times> stop_opts option \<times> manager" where
  "handleSlotRestart parse now a = slotMutate (\<lambda>b. restart_now now a (stopReqToOptions parse b))"

definition handleSlotAbortStop :: "string \<Rightarrow> manager \<Rightarrow> reply \<times> nat option \<times> manager" where
  "handleSlotAbortStop name m =
     (case mg_slots m name of
        None \<Rightarrow> (slot_missing, None, m)
      | Some s \<Rightarrow>
         (case AbortStop s of
            None \<Rightarrow> (mapSlotError ErrNotStopping, None, m)
          | Some (a, s') \<Rightarrow> (reply_ok 200, Some a, set_slot name s' m)))"

subsection \<open>Commands\<close>

text \<open>
  The slots, the RCON connections, and the commands that goroutines will send later: a moment, a slot
  and a command.  \<open>werr k\<close> is the error of the \<open>k\<close>-th write to the connection in a handler.
\<close>

record fleet =
  fl_mgr :: manager
  fl_clients :: "nat \<Rightarrow> client"
  fl_later :: "(time \<times> string \<times> string) list"

type_synonym write_errors = "nat \<Rightarrow> go_error option"

definition requireRunning :: "string \<Rightarrow> fleet \<Rightarrow> reply + slot" where
  "requireRunning name w =
     (case mg_slots (fl_mgr w) name of
        None \<Rightarrow> Inl slot_missing
      | Some s \<Rightarrow> if s_state s \<noteq> StateRunning then Inl (reply_error 409 ''server_not_running'') else Inr s)"

definition runCmd :: "go_error option \<Rightarrow> slot \<Rightarrow> string \<Rightarrow> fleet \<Rightarrow> (command_error + string) \<times> fleet" where
  "runCmd werr s cmd w =
     (case Command werr cmd s (fl_clients w) of (r, clients) \<Rightarrow> (r, w\<lparr>fl_clients := clients\<rparr>))"

text \<open>
  No error of the connection is \<open>context.DeadlineExceeded\<close>: a command that runs out of time fails
  with the error of the socket's own deadline, so the branch for 504 is never taken.
\<close>

fun mapRconError :: "command_error \<Rightarrow> reply" where
  "mapRconError ServerNotRunning = reply_error 409 ''server_not_running''"
| "mapRconError _ = reply_error 502 ''rcon_unreachable''"

definition on_running :: "string \<Rightarrow> (slot \<Rightarrow> reply \<times> fleet) \<Rightarrow> fleet \<Rightarrow> reply \<times> fleet" where
  "on_running name f w = (case requireRunning name w of Inl r \<Rightarrow> (r, w) | Inr s \<Rightarrow> f s)"

definition after_cmd ::
  "go_error option \<Rightarrow> slot \<Rightarrow> string \<Rightarrow> (string \<Rightarrow> fleet \<Rightarrow> reply \<times> fleet) \<Rightarrow> fleet \<Rightarrow> reply \<times> fleet" where
  "after_cmd werr s cmd k w =
     (case runCmd werr s cmd w of (Inl e, w') \<Rightarrow> (mapRconError e, w') | (Inr resp, w') \<Rightarrow> k resp w')"

definition one_cmd :: "write_errors \<Rightarrow> string \<Rightarrow> string \<Rightarrow> fleet \<Rightarrow> reply \<times> fleet" where
  "one_cmd werr name cmd w = on_running name (\<lambda>s. after_cmd (werr 0) s cmd (\<lambda>_ w'. (reply_ok 200, w')) w) w"

definition text_cmd :: "write_errors \<Rightarrow> string \<Rightarrow> string body \<Rightarrow> string \<Rightarrow> fleet \<Rightarrow> reply \<times> fleet" where
  "text_cmd werr name body lead w =
     on_running name
       (\<lambda>s. case DecodeJSON body of
              Inl r \<Rightarrow> (r, w)
            | Inr text \<Rightarrow>
                if text = [] then (reply_error 400 ''validation_failed'', w)
                else after_cmd (werr 0) s (lead @ text) (\<lambda>_ w'. (reply_ok 200, w')) w) w"

definition handleServerCommand :: "write_errors \<Rightarrow> string \<Rightarrow> string body \<Rightarrow> fleet \<Rightarrow> reply \<times> fleet" where
  "handleServerCommand werr name body = text_cmd werr name body []"

definition handleServerSay :: "write_errors \<Rightarrow> string \<Rightarrow> string body \<Rightarrow> fleet \<Rightarrow> reply \<times> fleet" where
  "handleServerSay werr name body = text_cmd werr name body ''say ''"

definition listed_players :: "string \<Rightarrow> string list" where
  "listed_players resp =
     (case Index_byte resp CHR '':'' of
        None \<Rightarrow> []
      | Some i \<Rightarrow>
         (let names = TrimSpace (drop (i + 1) resp)
          in if names = [] then [] else filter (\<lambda>n. n \<noteq> []) (map TrimSpace (Split names CHR '',''))))"

text \<open>The players reply: online and maximum from the last status probe, the names from \<open>list\<close>.\<close>

definition handleServerPlayers ::
  "write_errors \<Rightarrow> string \<Rightarrow> fleet \<Rightarrow> (reply \<times> (int \<times> int \<times> string list) option) \<times> fleet" where
  "handleServerPlayers werr name w =
     (case requireRunning name w of
        Inl r \<Rightarrow> ((r, None), w)
      | Inr s \<Rightarrow>
         (let (online, most) =
            (case (s_server s, s_slp s) of (Some _, Some i) \<Rightarrow> (si_PlayersOnline i, si_PlayersMax i) | _ \<Rightarrow> (0, 0))
          in case runCmd (werr 0) s ''list'' w of
               (Inl _, w') \<Rightarrow> ((reply_ok 200, Some (online, most, [])), w')
             | (Inr resp, w') \<Rightarrow> ((reply_ok 200, Some (online, most, listed_players resp)), w')))"

definition with_reason :: "string \<Rightarrow> string \<Rightarrow> string" where
  "with_reason cmd reason = (if reason \<noteq> [] then cmd @ '' '' @ reason else cmd)"

definition handleServerKick :: "write_errors \<Rightarrow> string \<Rightarrow> string \<Rightarrow> string body \<Rightarrow> fleet \<Rightarrow> reply \<times> fleet" where
  "handleServerKick werr name player body w =
     on_running name
       (\<lambda>s. case DecodeOptional [] body of
              Inl r \<Rightarrow> (r, w)
            | Inr reason \<Rightarrow>
                after_cmd (werr 0) s (with_reason (''kick '' @ player) reason)
                  (\<lambda>resp w'. if Contains (ToLower resp) ''no player'' then (reply_error 404 ''player_not_online'', w')
                             else (reply_ok 200, w')) w) w"

record ban_req =
  br_Reason :: string
  br_Duration :: string
  br_BanIP :: bool

definition handleServerBan ::
  "(string \<Rightarrow> duration option) \<Rightarrow> time \<Rightarrow> write_errors \<Rightarrow> string \<Rightarrow> string \<Rightarrow> ban_req body \<Rightarrow> fleet \<Rightarrow> reply \<times> fleet" where
  "handleServerBan parse now werr name player body w =
     on_running name
       (\<lambda>s. case DecodeOptional \<lparr>br_Reason = [], br_Duration = [], br_BanIP = False\<rparr> body of
              Inl r \<Rightarrow> (r, w)
            | Inr b \<Rightarrow>
                after_cmd (werr 0) s (with_reason (''ban '' @ player) (br_Reason b))
                  (\<lambda>_ w1.
                     let w2 = (if br_BanIP b then snd (runCmd (werr 1) s (''ban-ip '' @ player) w1) else w1);
                         later = (if br_Duration b = [] then []
                                  else case parse (br_Duration b) of
                                         None \<Rightarrow> []
                                       | Some d \<Rightarrow> if 0 < d then [(now + d, name, ''pardon '' @ player)] else [])
                     in (reply_ok 200, w2\<lparr>fl_later := fl_later w2 @ later\<rparr>)) w) w"

definition handleServerUnban :: "write_errors \<Rightarrow> string \<Rightarrow> string \<Rightarrow> fleet \<Rightarrow> reply \<times> fleet" where
  "handleServerUnban werr name player w =
     on_running name
       (\<lambda>s. after_cmd (werr 0) s (''pardon '' @ player)
              (\<lambda>_ w1. (reply_ok 200, snd (runCmd (werr 1) s (''pardon-ip '' @ player) w1))) w) w"

text \<open>The handler ignores what \<open>DecodeJSON\<close> says, which by then has written its error.\<close>

definition handleServerOp :: "write_errors \<Rightarrow> string \<Rightarrow> string \<Rightarrow> int body \<Rightarrow> fleet \<Rightarrow> reply \<times> fleet" where
  "handleServerOp werr name player body w =
     on_running name
       (\<lambda>s. let written = (case DecodeOptional 0 body of Inl r \<Rightarrow> r | Inr _ \<Rightarrow> [])
            in case after_cmd (werr 0) s (''op '' @ player) (\<lambda>_ w'. (reply_ok 200, w')) w of
                 (r, w') \<Rightarrow> (written @ r, w')) w"

definition handleServerDeop :: "write_errors \<Rightarrow> string \<Rightarrow> string \<Rightarrow> fleet \<Rightarrow> reply \<times> fleet" where
  "handleServerDeop werr name player = one_cmd werr name (''deop '' @ player)"

definition handleWhitelistAdd :: "write_errors \<Rightarrow> string \<Rightarrow> string \<Rightarrow> fleet \<Rightarrow> reply \<times> fleet" where
  "handleWhitelistAdd werr name player = one_cmd werr name (''whitelist add '' @ player)"

definition handleWhitelistRemove :: "write_errors \<Rightarrow> string \<Rightarrow> string \<Rightarrow> fleet \<Rightarrow> reply \<times> fleet" where
  "handleWhitelistRemove werr name player = one_cmd werr name (''whitelist remove '' @ player)"

definition handleWhitelistReload :: "write_errors \<Rightarrow> string \<Rightarrow> fleet \<Rightarrow> reply \<times> fleet" where
  "handleWhitelistReload werr name = one_cmd werr name ''whitelist reload''"

subsection \<open>Starting a server that does not exist\<close>

lemma Start_unknown:
  assumes "CanStartFrom (s_state s)" and "find_server env (so_ServerID opts) = None"
  shows "Start now ctx opts env s fs =
    (Inl (MountFailed (ServerNotFound (so_ServerID opts))),
     failMount now ''server_not_found'' (se_message env (ServerNotFound (so_ServerID opts))) (begin_mount now s), fs)"
  using assms by (simp add: Start_def do_mount_def choose_server_def mount_code_def)

text \<open>
  A start request for a server that neither the catalog nor a fresh scan has changes no file, but is
  answered as an internal error and not as the documented \<open>404 server_not_found\<close>; and a slot that was
  idle is in the error state afterwards.
\<close>

theorem unknown_server_start:
  assumes "mg_slots m name = Some s" and "CanStartFrom (s_state s)" and "i \<noteq> []" and "find_server env i = None"
  shows "case handleSlotStart now ctx env name (Body \<lparr>so_ServerID = i, so_Force = force\<rparr>) (m, fs) of
    (r, m', fs') \<Rightarrow> on_wire r = Router.WriteError 500 ''internal'' \<and> fs' = fs
      \<and> (\<exists>s'. mg_slots m' name = Some s' \<and> s_state s' = StateError \<and> map_option er_Code (s_lastErr s') = Some ''server_not_found'')
      \<and> (\<forall>n. n \<noteq> name \<longrightarrow> mg_slots m' n = mg_slots m n)"
  using assms Start_unknown [OF assms(2), of env "\<lparr>so_ServerID = i, so_Force = force\<rparr>"]
  by (simp add: handleSlotStart_def DecodeJSON_def on_wire_def reply_error_def set_slot_def failMount_def)

definition demo_manager :: manager where
  "demo_manager = NewManager 0 [demo_slot ''a'' 25565, demo_slot ''b'' 25566] ''i'' ''h''"

lemma demo_manager_slots:
  "mg_slots demo_manager ''a'' = Some (NewSlot 0 (demo_slot ''a'' 25565) ''i'' ''h'')"
  by (simp add: demo_manager_def NewManager_def demo_slot_def)

theorem unknown_server_start_witness:
  "on_wire (fst (handleSlotStart 1 0 demo_env ''a'' (Body \<lparr>so_ServerID = ''nope'', so_Force = False\<rparr>) (demo_manager, free_fs Map.empty)))
     = Router.WriteError 500 ''internal''"
proof -
  have "CanStartFrom (s_state (NewSlot 0 (demo_slot ''a'' 25565) ''i'' ''h''))"
    by (simp add: NewSlot_def CanStartFrom_def)
  moreover have "find_server demo_env ''nope'' = None"
    by (simp add: find_server_def FindByID_def demo_env_def paper_server_def)
  ultimately show ?thesis
    using unknown_server_start [OF demo_manager_slots, where i = "''nope''" and env = demo_env and now = 1 and ctx = 0 and force = False and fs = "free_fs Map.empty"]
    by (auto split: prod.splits)
qed

subsection \<open>Commands that are answered\<close>

text \<open>The slot runs, and its connection will deliver \<open>resp\<close> as the answer to the next command.\<close>

definition will_answer :: "fleet \<Rightarrow> string \<Rightarrow> slot \<Rightarrow> nat \<Rightarrow> string \<Rightarrow> bool" where
  "will_answer w name s c resp \<longleftrightarrow>
     mg_slots (fl_mgr w) name = Some s \<and> s_state s = StateRunning \<and> s_rcon s = Some c
     \<and> \<not> cl_closed (fl_clients w c) \<and> length resp \<le> 4086 \<and> nul \<notin> set resp
     \<and> cl_in (fl_clients w c) = projr (writePacket (fst (nextID (fl_clients w c))) typeResponse resp)"

lemma Cmd_sends:
  assumes "\<not> cl_closed c" and "length cmd \<le> maxPayload"
  shows "cl_out (snd (Cmd None cmd c)) = cl_out c @ [projr (writePacket (fst (nextID c)) typeExecCmd cmd)]"
proof -
  obtain rid c1 where n: "nextID c = (rid, c1)" by fastforce
  then have out: "cl_out c1 = cl_out c" using nextID_frame(3) [of c] by simp
  obtain p where p: "writePacket rid typeExecCmd cmd = Inr p"
    using Inr_writePacket [of cmd rid typeExecCmd] assms(2) by (auto simp: maxPayload_def)
  then show ?thesis
    using assms n out by (auto simp: Cmd_def send_packet_def Let_def split: sum.split prod.split)
qed

lemma answered:
  assumes w: "will_answer w name s c resp" and "length cmd \<le> maxPayload"
  shows "\<exists>w'. runCmd None s cmd w = (Inr resp, w') \<and> fl_mgr w' = fl_mgr w \<and> fl_later w' = fl_later w
    \<and> cl_out (fl_clients w' c) = cl_out (fl_clients w c)
        @ [projr (writePacket (fst (nextID (fl_clients w c))) typeExecCmd cmd)]
    \<and> (\<forall>d. d \<noteq> c \<longrightarrow> fl_clients w' d = fl_clients w d)"
proof -
  let ?c = "fl_clients w c"
  have v: "s_state s = StateRunning" "s_rcon s = Some c" "\<not> cl_closed ?c" "length resp \<le> 4086" "nul \<notin> set resp"
    using w by (simp_all add: will_answer_def)
  obtain p where p: "writePacket (fst (nextID ?c)) typeResponse resp = Inr p"
    using Inr_writePacket v(4) by blast
  then have i: "cl_in ?c = p @ []" using w by (simp add: will_answer_def)
  have r: "fst (Cmd None cmd ?c) = Inr resp"
    using Cmd_ok [OF v(3) assms(2) p v(4,5) i] by simp
  obtain c' where C: "Cmd None cmd ?c = (Inr resp, c')" using r by (cases "Cmd None cmd ?c") auto
  then have "cl_out c' = cl_out ?c @ [projr (writePacket (fst (nextID ?c)) typeExecCmd cmd)]"
    using Cmd_sends [OF v(3) assms(2)] by simp
  then show ?thesis using C by (simp add: runCmd_def Command_def v(1,2))
qed

lemma will_answer_running: "will_answer w name s c resp \<Longrightarrow> requireRunning name w = Inr s"
  by (simp add: will_answer_def requireRunning_def)

text \<open>
  A kick sends exactly one packet, \<open>kick\<close> with the player and the reason, to the slot's own server and
  to no other; the answer is \<open>404\<close> exactly when the server says, in whatever case, that there is no
  such player.
\<close>

theorem kick_outcome:
  assumes "will_answer w name s c resp" and "length (with_reason (''kick '' @ player) reason) \<le> maxPayload"
  shows "case handleServerKick (\<lambda>_. None) name player (Body reason) w of
    (r, w') \<Rightarrow>
      r = (if Contains (ToLower resp) ''no player'' then reply_error 404 ''player_not_online'' else reply_ok 200)
      \<and> cl_out (fl_clients w' c) = cl_out (fl_clients w c)
          @ [projr (writePacket (fst (nextID (fl_clients w c))) typeExecCmd (with_reason (''kick '' @ player) reason))]
      \<and> (\<forall>d. d \<noteq> c \<longrightarrow> fl_clients w' d = fl_clients w d) \<and> fl_mgr w' = fl_mgr w"
proof -
  obtain w' where w': "runCmd None s (with_reason (''kick '' @ player) reason) w = (Inr resp, w')"
    "fl_mgr w' = fl_mgr w"
    "cl_out (fl_clients w' c) = cl_out (fl_clients w c)
        @ [projr (writePacket (fst (nextID (fl_clients w c))) typeExecCmd (with_reason (''kick '' @ player) reason))]"
    "\<forall>d. d \<noteq> c \<longrightarrow> fl_clients w' d = fl_clients w d"
    using answered [OF assms] by blast
  then show ?thesis
    by (simp add: handleServerKick_def on_running_def will_answer_running [OF assms(1)] DecodeOptional_def DecodeJSON_def
        after_cmd_def)
qed

text \<open>
  An op request whose body does not decode is answered \<open>400 bad_request\<close> on the wire, but the command
  is sent all the same, and the status that the audit log and the access log record is 200.
\<close>

theorem op_runs_after_rejection:
  assumes "will_answer w name s c resp" and "length (''op '' @ player) \<le> maxPayload"
  shows "case handleServerOp (\<lambda>_. None) name player BadBody w of
    (r, w') \<Rightarrow> on_wire r = Router.WriteError 400 ''bad_request'' \<and> recorded r = ok_response 200
      \<and> cl_out (fl_clients w' c) = cl_out (fl_clients w c)
          @ [projr (writePacket (fst (nextID (fl_clients w c))) typeExecCmd (''op '' @ player))]"
proof -
  obtain w' where w': "runCmd None s (''op '' @ player) w = (Inr resp, w')"
    "cl_out (fl_clients w' c) = cl_out (fl_clients w c)
        @ [projr (writePacket (fst (nextID (fl_clients w c))) typeExecCmd (''op '' @ player))]"
    using answered [OF assms] by blast
  then show ?thesis
    by (simp add: handleServerOp_def on_running_def will_answer_running [OF assms(1)] DecodeOptional_def DecodeJSON_def
        after_cmd_def on_wire_def recorded_def reply_error_def reply_ok_def)
qed

text \<open>
  A timed ban that also bans the player's address only schedules \<open>pardon\<close>: of the two commands an
  unban sends, the one that pardons the address is never scheduled, so the address stays banned.
\<close>

theorem timed_ban_keeps_address:
  assumes "will_answer w name s c resp" and "length (with_reason (''ban '' @ player) reason) \<le> maxPayload"
    and "parse dur = Some d" and "0 < d" and "dur \<noteq> []"
  shows "case handleServerBan parse now (\<lambda>_. None) name player
      (Body \<lparr>br_Reason = reason, br_Duration = dur, br_BanIP = ip\<rparr>) w of
    (r, w') \<Rightarrow> r = reply_ok 200 \<and> fl_later w' = fl_later w @ [(now + d, name, ''pardon '' @ player)]"
proof -
  obtain w' where w': "runCmd None s (with_reason (''ban '' @ player) reason) w = (Inr resp, w')"
    "fl_later w' = fl_later w"
    using answered [OF assms(1,2)] by blast
  moreover have "fl_later (snd (runCmd e s cmd u)) = fl_later u" for e cmd u
    by (simp add: runCmd_def split: prod.split)
  ultimately show ?thesis
    using assms(3-5)
    by (simp add: handleServerBan_def on_running_def will_answer_running [OF assms(1)] DecodeOptional_def DecodeJSON_def
        after_cmd_def Let_def)
qed

definition demo_fleet :: fleet where
  "demo_fleet =
     \<lparr>fl_mgr = set_slot ''a'' ((NewSlot 0 (demo_slot ''a'' 25565) ''i'' ''h'')\<lparr>s_state := StateRunning, s_rcon := Some 3\<rparr>) demo_manager,
      fl_clients = (\<lambda>_. \<lparr>cl_id = 0, cl_closed = False, cl_in = projr (writePacket 1 typeResponse ''No player was found''),
        cl_out = []\<rparr>), fl_later = []\<rparr>"

definition demo_running :: slot where
  "demo_running = (NewSlot 0 (demo_slot ''a'' 25565) ''i'' ''h'')\<lparr>s_state := StateRunning, s_rcon := Some 3\<rparr>"

lemma demo_answers: "will_answer demo_fleet ''a'' demo_running 3 ''No player was found''"
proof -
  have n: "fst (nextID (fl_clients demo_fleet 3)) = 1" by (simp add: demo_fleet_def nextID_def)
  show ?thesis unfolding will_answer_def n by (simp add: demo_fleet_def demo_running_def set_slot_def)
qed

theorem kick_outcome_witness:
  "fst (handleServerKick (\<lambda>_. None) ''a'' ''Steve'' (Body ''spam'') demo_fleet) = reply_error 404 ''player_not_online''"
proof -
  have l: "length (with_reason (''kick '' @ ''Steve'') ''spam'') \<le> maxPayload" by (simp add: with_reason_def maxPayload_def)
  have "Contains (ToLower ''No player was found'') ''no player''" by code_simp
  then show ?thesis using kick_outcome [OF demo_answers l] by (auto split: prod.splits)
qed

theorem op_runs_after_rejection_witness:
  "on_wire (fst (handleServerOp (\<lambda>_. None) ''a'' ''Steve'' BadBody demo_fleet)) = Router.WriteError 400 ''bad_request''"
proof -
  have l: "length (''op '' @ ''Steve'') \<le> maxPayload" by (simp add: maxPayload_def)
  show ?thesis using op_runs_after_rejection [OF demo_answers l] by (auto split: prod.splits)
qed

theorem timed_ban_keeps_address_witness:
  "fl_later (snd (handleServerBan (\<lambda>_. Some 5) 7 (\<lambda>_. None) ''a'' ''Steve''
     (Body \<lparr>br_Reason = [], br_Duration = ''5ns'', br_BanIP = True\<rparr>) demo_fleet)) = [(12, ''a'', ''pardon Steve'')]"
proof -
  have l: "length (with_reason (''ban '' @ ''Steve'') []) \<le> maxPayload" by (simp add: with_reason_def maxPayload_def)
  have "fl_later demo_fleet = []" by (simp add: demo_fleet_def)
  then show ?thesis
    using timed_ban_keeps_address [OF demo_answers l, of "\<lambda>_. Some 5" "''5ns''" 5 7 True] by (auto split: prod.splits)
qed

subsection \<open>The list of players\<close>

definition plain_name :: "string \<Rightarrow> bool" where
  "plain_name n \<longleftrightarrow> n \<noteq> [] \<and> (\<forall>c\<in>set n. \<not> is_space c \<and> c \<noteq> CHR '','')"

lemma TrimSpace_id: "s \<noteq> [] \<Longrightarrow> \<not> is_space (hd s) \<Longrightarrow> \<not> is_space (last s) \<Longrightarrow> TrimSpace s = s"
proof -
  assume s: "s \<noteq> []" "\<not> is_space (hd s)" "\<not> is_space (last s)"
  then have "dropWhile is_space s = s" by (cases s) simp_all
  moreover have "dropWhile is_space (rev s) = rev s" using s by (cases "rev s") (auto simp flip: hd_rev)
  ultimately show ?thesis by (simp add: TrimSpace_def)
qed

lemma TrimSpace_space: "TrimSpace (CHR '' '' # s) = TrimSpace s"
  by (simp add: TrimSpace_def is_space_def)

lemma plain_name_ends: "plain_name n \<Longrightarrow> \<not> is_space (hd n) \<and> \<not> is_space (last n) \<and> n \<noteq> [] \<and> CHR '','' \<notin> set n"
  by (auto simp: plain_name_def)

lemma Split_comma_Join:
  "\<forall>n\<in>set (n # ns). plain_name n \<Longrightarrow>
     Split (Join (n # ns) '', '') CHR '','' = n # map (\<lambda>x. CHR '' '' # x) ns"
proof (induction ns arbitrary: n)
  case (Cons m ns)
  have c: "CHR '','' \<notin> set n" using Cons.prems plain_name_ends by auto
  obtain w ws where w: "Split (Join (m # ns) '', '') CHR '','' = w # ws" by (cases "Split (Join (m # ns) '', '') CHR '',''") simp_all
  have "Split (n @ CHR '','' # CHR '' '' # Join (m # ns) '', '') CHR '','' = n # Split (CHR '' '' # Join (m # ns) '', '') CHR '',''"
    by (simp only: Split_append_sep Split_no_sep [OF c] append_Cons append_Nil)
  then show ?case using Cons.IH [of m] Cons.prems w by simp
qed (simp add: Split_no_sep plain_name_ends)

lemma Join_ends:
  "\<forall>n\<in>set (n # ns). plain_name n \<Longrightarrow>
     Join (n # ns) '', '' \<noteq> [] \<and> \<not> is_space (hd (Join (n # ns) '', '')) \<and> \<not> is_space (last (Join (n # ns) '', ''))"
proof (induction ns arbitrary: n)
  case (Cons m ns)
  then have "Join (m # ns) '', '' \<noteq> []" "\<not> is_space (last (Join (m # ns) '', ''))" by auto
  moreover have "n \<noteq> []" "\<not> is_space (hd n)" using Cons.prems plain_name_ends by auto
  ultimately show ?case by simp
qed (simp add: plain_name_ends)

text \<open>
  The names in the answer to \<open>list\<close> are read back: when the server prints a text without a colon,
  a colon, and the names separated by commas and spaces, the reply lists exactly those names, also
  when there are none.
\<close>

theorem players_are_listed:
  assumes "CHR '':'' \<notin> set lead" and "\<forall>n\<in>set names. plain_name n"
  shows "listed_players (lead @ '': '' @ Join names '', '') = names"
proof -
  have i: "Index_byte (lead @ CHR '':'' # r) CHR '':'' = Some (length lead)" for r
    using assms(1) by (induction lead) auto
  show ?thesis
  proof (cases names)
    case Nil
    then show ?thesis by (simp add: listed_players_def i TrimSpace_def is_space_def)
  next
    case (Cons n ns)
    have t: "TrimSpace (Join (n # ns) '', '') = Join (n # ns) '', ''"
      using Join_ends [of n ns] assms(2) Cons by (intro TrimSpace_id) auto
    have each: "map TrimSpace (n # map (\<lambda>x. CHR '' '' # x) ns) = n # ns"
      using assms(2) Cons plain_name_ends by (simp add: TrimSpace_space TrimSpace_id map_idI)
    have "filter (\<lambda>n. n \<noteq> []) (n # ns) = n # ns"
      using assms(2) Cons by (auto simp: plain_name_def intro!: filter_True)
    then show ?thesis
      using Split_comma_Join [of n ns] assms(2) Cons Join_ends [of n ns] each
      by (simp only: listed_players_def append_Cons append_Nil i option.case drop_append)
        (simp add: TrimSpace_space t)
  qed
qed

theorem players_are_listed_witness:
  "listed_players ''There are 2 of a max of 20 players online: Steve, Alex'' = [''Steve'', ''Alex'']"
  using players_are_listed [of "''There are 2 of a max of 20 players online''" "[''Steve'', ''Alex'']"]
  by (simp add: plain_name_def is_space_def)

end
