(* ===== verification/Json.thy ===== *)
theory Json
  imports Prelude Complex_Main
begin

text \<open>
  Values \<open>encoding/json\<close> decodes into \<open>any\<close>.  A number is the rational a \<open>float64\<close> stands for; an
  object is an association list in the order in which the map is iterated.
\<close>

datatype json =
    JNull
  | JBool bool
  | JNum rat
  | JStr string
  | JArr "json list"
  | JObj "(string \<times> json) list"

type_synonym json_map = "(string \<times> json) list"

text \<open>Type assertions with the comma-ok form; a missing key is \<open>nil\<close> and fails every assertion.\<close>

definition get_string :: "json_map \<Rightarrow> string \<Rightarrow> string option" where
  "get_string m k = (case map_of m k of Some (JStr s) \<Rightarrow> Some s | _ \<Rightarrow> None)"

definition get_map :: "json_map \<Rightarrow> string \<Rightarrow> json_map option" where
  "get_map m k = (case map_of m k of Some (JObj o') \<Rightarrow> Some o' | _ \<Rightarrow> None)"

definition get_list :: "json_map \<Rightarrow> string \<Rightarrow> json list" where
  "get_list m k = (case map_of m k of Some (JArr xs) \<Rightarrow> xs | _ \<Rightarrow> [])"

definition get_num :: "json_map \<Rightarrow> string \<Rightarrow> rat option" where
  "get_num m k = (case map_of m k of Some (JNum q) \<Rightarrow> Some q | _ \<Rightarrow> None)"

text \<open>Go's conversion of a \<open>float64\<close> to \<open>int\<close>, for numbers in the range of \<open>int\<close>.\<close>

definition to_int :: "rat \<Rightarrow> int" where
  "to_int q = (if 0 \<le> q then \<lfloor>q\<rfloor> else \<lceil>q\<rceil>)"

lemma to_int_of_int [simp]: "to_int (of_int n) = n"
  by (simp add: to_int_def)

definition or_empty :: "string option \<Rightarrow> string" where
  "or_empty s = (case s of None \<Rightarrow> [] | Some v \<Rightarrow> v)"

end
