(* ===== verification/PropertiesApi.thy ===== *)
theory PropertiesApi
  imports ServerApi Json
begin

text \<open>
  \<open>internal/api/handlers_properties.go\<close>: reading and patching \<open>server.properties\<close> over HTTP, on the
  file model of \<open>ServerProps\<close>.  \<open>format\<close> is \<open>strconv.FormatFloat\<close> for numbers that are no \<open>int\<close>.
\<close>

definition reservedKeys :: "string list" where
  "reservedKeys = [''server-port'', ''query.port'', ''enable-rcon'', ''rcon.port'', ''rcon.password'', ''broadcast-rcon-to-ops'']"

definition requiresRestart :: "string list" where
  "requiresRestart =
     [''view-distance'', ''simulation-distance'', ''max-players'', ''gamemode'', ''online-mode'', ''motd'', ''level-name'',
      ''level-seed'', ''level-type'', ''pvp'', ''hardcore'', ''allow-flight'', ''resource-pack'', ''resource-pack-sha1'']"

definition coerceValue :: "string \<Rightarrow> json" where
  "coerceValue v =
     (if v = ''true'' then JBool True
      else if v = ''false'' then JBool False
      else case Atoi v of Some n \<Rightarrow> JNum (of_int n) | None \<Rightarrow> JStr v)"

definition coerceTypes :: "(string \<rightharpoonup> string) \<Rightarrow> (string \<rightharpoonup> json)" where
  "coerceTypes m = (\<lambda>k. map_option coerceValue (m k))"

fun stringifyAny :: "(rat \<Rightarrow> string) \<Rightarrow> json \<Rightarrow> string" where
  "stringifyAny format (JStr s) = s"
| "stringifyAny format (JBool b) = (if b then ''true'' else ''false'')"
| "stringifyAny format (JNum q) = (if q = of_int (to_int q) \<and> in_int64 (to_int q) then Itoa (to_int q) else format q)"
| "stringifyAny format _ = []"

text \<open>The mounted server of the slot, or the reply; the handlers share it with the lists and backups.\<close>

definition requireMounted :: "string \<Rightarrow> manager \<Rightarrow> reply + slot \<times> server" where
  "requireMounted name m =
     (case mg_slots m name of
        None \<Rightarrow> Inl slot_missing
      | Some s \<Rightarrow> (case MountedServer s of None \<Rightarrow> Inl (reply_error 409 ''server_not_running'') | Some srv \<Rightarrow> Inr (s, srv)))"

definition handleServerPropertiesGet :: "string \<Rightarrow> manager \<Rightarrow> string dir \<Rightarrow> reply \<times> (string \<rightharpoonup> json) option" where
  "handleServerPropertiesGet name m d =
     (case requireMounted name m of
        Inl r \<Rightarrow> (r, None)
      | Inr (_, srv) \<Rightarrow>
         (case ReadProperties (PropertiesPath (srv_Path srv)) d of
            Inl _ \<Rightarrow> (reply_error 500 ''internal'', None)
          | Inr props \<Rightarrow> (reply_ok 200, Some (coerceTypes props))))"

record patch_resp =
  pr_Applied :: "string list"
  pr_RequiresRestart :: "string list"
  pr_Rejected :: "string list"

definition accepted :: "json_map \<Rightarrow> json_map" where
  "accepted vals = filter (\<lambda>(k, _). k \<notin> set reservedKeys) vals"

definition patch_of :: "(rat \<Rightarrow> string) \<Rightarrow> json_map \<Rightarrow> (string \<times> string) list" where
  "patch_of format vals = map (\<lambda>(k, v). (k, stringifyAny format v)) (accepted vals)"

definition patch_response :: "json_map \<Rightarrow> patch_resp" where
  "patch_response vals =
     \<lparr>pr_Applied = map fst (accepted vals),
      pr_RequiresRestart = filter (\<lambda>k. k \<in> set requiresRestart) (map fst (accepted vals)),
      pr_Rejected = map fst (filter (\<lambda>(k, _). k \<in> set reservedKeys) vals)\<rparr>"

definition handleServerPropertiesPatch ::
  "(rat \<Rightarrow> string) \<Rightarrow> write_fault \<Rightarrow> string \<Rightarrow> string \<Rightarrow> json_map body \<Rightarrow> manager \<Rightarrow> string dir \<Rightarrow>
   (reply \<times> patch_resp option) \<times> string dir" where
  "handleServerPropertiesPatch format f tmp name body m d =
     (case requireMounted name m of
        Inl r \<Rightarrow> ((r, None), d)
      | Inr (_, srv) \<Rightarrow>
         (case DecodeJSON body of
            Inl r \<Rightarrow> ((r, None), d)
          | Inr vals \<Rightarrow>
              if vals = [] then ((reply_error 400 ''validation_failed'', None), d)
              else (let patch = patch_of format vals
                    in case (if patch = [] then (None, d) else PatchProperties f tmp (srv_Path srv) patch d) of
                         (Some _, d') \<Rightarrow> ((reply_error 500 ''internal'', None), d')
                       | (None, d') \<Rightarrow> ((reply_ok 200, Some (patch_response vals)), d'))))"

subsection \<open>Typed values\<close>

lemma Atoi_words: "Atoi ''true'' = None" "Atoi ''false'' = None"
  by code_simp+



subsection \<open>Patching keeps the managed keys\<close>

lemma patch_of_reserved: "k \<in> set reservedKeys \<Longrightarrow> map_of (patch_of format vals) k = None"
  by (auto simp: patch_of_def accepted_def map_of_eq_None_iff)

lemma handlePatch_ok:
  assumes "mg_slots m name = Some s" and "MountedServer s = Some srv" and "patch_of format vals \<noteq> []"
    and "d (PropertiesPath (srv_Path srv)) = Some (Holds body)"
    and "patch_body (patch_of format vals) body = Some body'"
    and "d tmp = None" and "tmp \<noteq> PropertiesPath (srv_Path srv)"
  shows "handleServerPropertiesPatch format NoFault tmp name (Body vals) m d =
    ((reply_ok 200, Some (patch_response vals)), d(PropertiesPath (srv_Path srv) \<mapsto> Holds body'))"
  using assms
  by (auto simp: handleServerPropertiesPatch_def requireMounted_def DecodeJSON_def PatchProperties_def patch_of_def
      accepted_def Let_def)


subsection \<open>A key with a newline\<close>

definition smuggled :: "string \<Rightarrow> string" where
  "smuggled k = ''x'' @ nl # k"

lemma set_Trim: "set (TrimRight s cs) \<subseteq> set s" "set (TrimLeft s cs) \<subseteq> set s"
  by (auto simp: TrimRight_def TrimLeft_def dest: set_dropWhileD)

lemma smuggled_new: "nl \<notin> set l \<Longrightarrow> patch_line [(smuggled k, v)] l = (l, None)"
proof -
  assume l: "nl \<notin> set l"
  have "map_of [(smuggled k, v)] key = None" if "set key \<subseteq> set l" for key
    using that l by (auto simp: smuggled_def)
  moreover have "set (TrimRight (take i (TrimLeft l blanks)) blanks) \<subseteq> set l" for i
    using set_Trim set_take_subset [of i "TrimLeft l blanks"] by blast
  ultimately show ?thesis by (auto simp: patch_line_def Let_def split: option.split)
qed

lemma patched_smuggled:
  "\<forall>l\<in>set ls. nl \<notin> set l \<Longrightarrow> patched_lines [(smuggled k, v)] ls = ls @ [''x'' @ nl # k @ ''='' @ v]"
proof -
  assume "\<forall>l\<in>set ls. nl \<notin> set l"
  then have m: "map (patch_line [(smuggled k, v)]) ls = map (\<lambda>l. (l, None)) ls"
    by (intro map_cong refl) (simp add: smuggled_new)
  have e: "map fst (map (\<lambda>l. (l, None)) ls) = ls" "Some (smuggled k) \<notin> set (map snd (map (\<lambda>l. (l, None)) ls))"
    by (induction ls) auto
  show ?thesis
    unfolding patched_lines_def Let_def m e(1) appended_lines_def using e(2) by (simp add: smuggled_def)
qed

lemma Join_smuggled:
  "Join (ls @ [a @ nl # b]) [nl] = Join (ls @ [a, b]) [nl]"
  by (induction ls rule: induct_list012) simp_all

text \<open>
  The check of the reserved keys is by name only.  A key that is a line break followed by a reserved
  key passes it and is reported as applied; in the file it becomes a line of its own, and the file then
  reads with the reserved key set by the client: for instance the RCON password.
\<close>

theorem newline_smuggles_reserved_key:
  assumes "mg_slots m name = Some s" and "MountedServer s = Some srv"
    and "k \<in> set reservedKeys" and "good_val v" and "length v < 1000"
    and "d (PropertiesPath (srv_Path srv)) = Some (Holds body)"
    and "scan_lines default_scan_max body = Lines ls" and "\<forall>l\<in>set ls. cr \<notin> set l"
    and "parse_properties body = Some props"
    and "d tmp = None" and "tmp \<noteq> PropertiesPath (srv_Path srv)"
  shows "\<exists>body' resp.
    handleServerPropertiesPatch format NoFault tmp name (Body [(smuggled k, JStr v)]) m d
      = ((reply_ok 200, Some resp), d(PropertiesPath (srv_Path srv) \<mapsto> Holds body'))
    \<and> parse_properties body' = Some (props(k \<mapsto> v)) \<and> pr_Rejected resp = []"
proof -
  have good: "good_key k" "length k < 30" "nl \<notin> set k" "cr \<notin> set k"
    using assms(3) by (auto simp: reservedKeys_def good_key_def)
  have ns: "smuggled k \<notin> set reservedKeys" by (simp add: smuggled_def reservedKeys_def)
  then have p: "patch_of format [(smuggled k, JStr v)] = [(smuggled k, v)]"
    by (simp add: patch_of_def accepted_def)
  note ls = scan_lines_LinesD [OF assms(7)]
  have len: "length l < default_scan_max" if l: "l \<in> set ls" for l
  proof -
    obtain r where r: "r \<in> set (raw_lines body)" "l = drop_cr r" using l ls(1) by auto
    then have "length l \<le> length r" by (simp add: drop_cr_def)
    then show ?thesis using ls(2) [OF r(1)] by simp
  qed
  have no_nl: "\<forall>l\<in>set ls. nl \<notin> set l" using scan_lines_no_nl [OF assms(7)] by blast
  let ?new = "ls @ [''x'', k @ ''='' @ v]"
  let ?body = "Join ?new [nl] @ [nl]"
  have "scan_lines big_scan_max body = Lines ls"
    unfolding ls(1) using ls(2) by (intro scan_lines_Lines ballI) fastforce
  then have b: "patch_body [(smuggled k, v)] body = Some ?body"
    using patched_smuggled [OF no_nl, of k v] Join_smuggled [of ls "''x''" "k @ ''='' @ v"]
    by (simp add: patch_body_def)
  have fine: "nl \<notin> set l \<and> cr \<notin> set l \<and> length l < default_scan_max" if "l \<in> set ?new" for l
    using that no_nl assms(4,5,8) good len by (auto simp: good_val_def)
  then have "raw_lines ?body = ?new" by (intro raw_lines_Join_nl) auto
  moreover have "map drop_cr ?new = ?new" using fine by (intro map_idI drop_cr_id) blast
  ultimately have sc: "scan_lines default_scan_max ?body = Lines ?new"
    using fine scan_lines_Lines [of ?body default_scan_max] by (simp del: raw_lines.simps)
  have "read_line ''x'' = None" by code_simp
  moreover have "read_line (k @ ''='' @ v) = Some (k, v)" using read_line_good [OF good(1) assms(4), of "CHR ''=''"] by simp
  moreover have "props = map_of (rev (entries ls))"
    using assms(7,9) by (simp add: parse_properties_def fold_add_line)
  ultimately have "parse_properties ?body = Some (props(k \<mapsto> v))"
    unfolding parse_properties_def sc scan_result.case by (simp add: fold_add_line add_line_def)
  moreover have "pr_Rejected (patch_response [(smuggled k, JStr v)]) = []"
    using ns by (simp add: patch_response_def)
  moreover have "handleServerPropertiesPatch format NoFault tmp name (Body [(smuggled k, JStr v)]) m d
      = ((reply_ok 200, Some (patch_response [(smuggled k, JStr v)])), d(PropertiesPath (srv_Path srv) \<mapsto> Holds ?body))"
    by (rule handlePatch_ok [OF assms(1,2) _ assms(6) _ assms(10,11)]) (simp_all add: p b)
  ultimately show ?thesis by blast
qed

text \<open>Mounting manages one more key than the handler reserves.\<close>

lemma managed_but_not_reserved:
  "set (map fst (mcsm_patch port rconPort pass)) - set reservedKeys = {''enable-query''}"
  by (auto simp: mcsm_patch_def reservedKeys_def)

subsection \<open>A mounted server\<close>

definition mounted_manager :: manager where
  "mounted_manager = set_slot ''a'' ((NewSlot 0 (demo_slot ''a'' 25565) ''i'' ''h'')\<lparr>s_server := Some paper_server\<rparr>) demo_manager"

abbreviation mounted_slot :: slot where
  "mounted_slot \<equiv> (NewSlot 0 (demo_slot ''a'' 25565) ''i'' ''h'')\<lparr>s_server := Some paper_server\<rparr>"

lemma mounted_demo: "mg_slots mounted_manager ''a'' = Some mounted_slot" "MountedServer mounted_slot = Some paper_server"
  by (simp_all add: mounted_manager_def set_slot_def MountedServer_def)

lemma demo_props_file:
  "scan_lines default_scan_max (''a=1'' @ [nl]) = Lines [''a=1'']"
  "parse_properties (''a=1'' @ [nl]) = Some [''a'' \<mapsto> ''1'']"
proof -
  have r: "raw_lines (''a=1'' @ [nl]) = [''a=1'']" by code_simp
  have "scan_lines default_scan_max (''a=1'' @ [nl]) = Lines (map drop_cr [''a=1''])"
    unfolding r [symmetric] by (rule scan_lines_Lines) (simp only: r, simp)
  then show sc: "scan_lines default_scan_max (''a=1'' @ [nl]) = Lines [''a=1'']" by (simp add: drop_cr_def)
  have "read_line ''a=1'' = Some (''a'', ''1'')" by code_simp
  then show "parse_properties (''a=1'' @ [nl]) = Some [''a'' \<mapsto> ''1'']"
    unfolding parse_properties_def sc scan_result.case by (simp add: add_line_def)
qed


theorem newline_smuggles_reserved_key_witness:
  "\<exists>body'. snd (handleServerPropertiesPatch (\<lambda>_. []) NoFault ''t'' ''a''
      (Body [(smuggled ''rcon.password'', JStr ''pw'')]) mounted_manager
      [PropertiesPath (srv_Path paper_server) \<mapsto> Holds (''a=1'' @ [nl])]) (PropertiesPath (srv_Path paper_server)) = Some (Holds body')
    \<and> parse_properties body' = Some [''a'' \<mapsto> ''1'', ''rcon.password'' \<mapsto> ''pw'']"
proof -
  have k: "''rcon.password'' \<in> set reservedKeys" by (simp add: reservedKeys_def)
  have v: "good_val ''pw''" "length ''pw'' < 1000" by (simp_all add: good_val_def)
  have t: "''t'' \<noteq> PropertiesPath (srv_Path paper_server)" by (simp add: paper_server_def demo_props_path)
  obtain body' resp where
    "handleServerPropertiesPatch (\<lambda>_. []) NoFault ''t'' ''a'' (Body [(smuggled ''rcon.password'', JStr ''pw'')]) mounted_manager
        [PropertiesPath (srv_Path paper_server) \<mapsto> Holds (''a=1'' @ [nl])]
      = ((reply_ok 200, Some resp), [PropertiesPath (srv_Path paper_server) \<mapsto> Holds (''a=1'' @ [nl]),
           PropertiesPath (srv_Path paper_server) \<mapsto> Holds body'])"
    "parse_properties body' = Some ([''a'' \<mapsto> ''1''](''rcon.password'' \<mapsto> ''pw''))"
    using newline_smuggles_reserved_key [OF mounted_demo k v, where d = "[PropertiesPath (srv_Path paper_server) \<mapsto> Holds (''a=1'' @ [nl])]"
        and tmp = "''t''" and ls = "[''a=1'']" and format = "\<lambda>_. []", OF _ demo_props_file(1) _ demo_props_file(2)] t
    by auto
  then show ?thesis by simp
qed

end
