(* ===== verification/Peers.thy ===== *)
theory Peers
  imports Config Json "HOL-Library.Multiset"
begin

text \<open>
  \<open>internal/peers\<close>: the HTTP client of one peer and the pool that pings all of them.  The network is
  an argument: what a request to an URL with a token answers, as a status and a body or an error.
  Decoding JSON into a Go type is an argument as well.  The pool's map of statuses is an association
  list; a ping is its result and the readings of the clock.
\<close>

subsection \<open>Clients\<close>

record peer_client =
  pcl_name :: string
  pcl_url :: string
  pcl_token :: string
  pcl_timeout :: duration

definition NewClient :: "string \<Rightarrow> string \<Rightarrow> string \<Rightarrow> duration \<Rightarrow> peer_client" where
  "NewClient name url token timeout =
     \<lparr>pcl_name = name, pcl_url = TrimRight url ''/'', pcl_token = token,
      pcl_timeout = (if timeout \<le> 0 then 5 * second else timeout)\<rparr>"

type_synonym network = "string \<Rightarrow> string \<Rightarrow> go_error + int \<times> string"

datatype peer_error =
    Transport go_error
  | PeerAnswered string string          \<comment> \<open>code and message of the error envelope\<close>
  | PeerStatus int
  | PeerParse
  | EmptyInstanceName

text \<open>
  \<open>get\<close>: the status, 0 where no answer came, and the decoded body.  \<open>envelope\<close> decodes an error
  body; the body is read up to 4 MB.
\<close>

definition peer_get ::
  "network \<Rightarrow> (string \<Rightarrow> (string \<times> string) option) \<Rightarrow> (string \<Rightarrow> 'a option) \<Rightarrow> peer_client \<Rightarrow> string \<Rightarrow>
   int \<times> (peer_error + 'a)" where
  "peer_get net envelope decode c path =
     (case net (pcl_url c @ path) (''Bearer '' @ pcl_token c) of
        Inl e \<Rightarrow> (0, Inl (Transport e))
      | Inr (status, raw) \<Rightarrow>
          (let body = take (4 * 2 ^ 20) raw
           in if 400 \<le> status then
                (status, Inl (case envelope body of
                   Some (code, msg) \<Rightarrow> if code \<noteq> [] then PeerAnswered code msg else PeerStatus status
                 | None \<Rightarrow> PeerStatus status))
              else (case decode body of
                      None \<Rightarrow> (status, Inl PeerParse)
                    | Some r \<Rightarrow> (status, Inr r))))"

record ping_result =
  pg_Name :: string
  pg_Version :: string

definition Ping ::
  "network \<Rightarrow> (string \<Rightarrow> (string \<times> string) option) \<Rightarrow> (string \<Rightarrow> ping_result option) \<Rightarrow> peer_client \<Rightarrow>
   peer_error + ping_result" where
  "Ping net envelope decode c =
     (case snd (peer_get net envelope decode c ''/api/v1/instance'') of
        Inl e \<Rightarrow> Inl e
      | Inr r \<Rightarrow> if pg_Name r = [] then Inl EmptyInstanceName else Inr r)"

definition peer_Discovery ::
  "network \<Rightarrow> (string \<Rightarrow> (string \<times> string) option) \<Rightarrow> (string \<Rightarrow> json_map option) \<Rightarrow> peer_client \<Rightarrow>
   peer_error + json_map" where
  "peer_Discovery net envelope decode c = snd (peer_get net envelope decode c ''/api/v1/discovery'')"

definition peer_Slots ::
  "network \<Rightarrow> (string \<Rightarrow> (string \<times> string) option) \<Rightarrow> (string \<Rightarrow> json_map option) \<Rightarrow> peer_client \<Rightarrow>
   peer_error + json_map" where
  "peer_Slots net envelope decode c = snd (peer_get net envelope decode c ''/api/v1/slots'')"

subsection \<open>The pool\<close>

record peer_status =
  ps_Name :: string
  ps_URL :: string
  ps_Reachable :: bool
  ps_LastSeen :: "time option"
  ps_LastAttempt :: time
  ps_RTTMS :: int
  ps_RemoteVersion :: string
  ps_RemoteName :: string
  ps_LastError :: string

record pool =
  pl_clients :: "peer_client list"
  pl_status :: "(string \<times> peer_status) list"

definition new_status :: "peer_client \<Rightarrow> peer_status" where
  "new_status c = \<lparr>ps_Name = pcl_name c, ps_URL = pcl_url c, ps_Reachable = False, ps_LastSeen = None,
     ps_LastAttempt = 0, ps_RTTMS = 0, ps_RemoteVersion = [], ps_RemoteName = [], ps_LastError = []\<rparr>"

definition NewPool :: "duration \<Rightarrow> peer_cfg list \<Rightarrow> pool" where
  "NewPool timeout cfgs =
     fold (\<lambda>pc p. let c = NewClient (pc_Name pc) (pc_URL pc) (pc_Token pc) timeout
                  in p\<lparr>pl_clients := pl_clients p @ [c], pl_status := AList.update (pc_Name pc) (new_status c) (pl_status p)\<rparr>)
       cfgs \<lparr>pl_clients = [], pl_status = []\<rparr>"

definition pool_Get :: "string \<Rightarrow> pool \<Rightarrow> peer_client option" where
  "pool_Get name p = List.find (\<lambda>c. pcl_name c = name) (pl_clients p)"

text \<open>\<open>Status\<close>: the records sorted by name, as \<open>sort.Slice\<close> leaves them when no name is repeated.\<close>

definition pool_Status :: "pool \<Rightarrow> peer_status list" where
  "pool_Status p = sort_key ps_Name (map snd (pl_status p))"

text \<open>
  A ping: when it started and when its answer was recorded (the two readings of the clock under the
  mutex are the same here), and its result.  \<open>err_text\<close> renders an error.
\<close>

record ping =
  pi_Client :: string
  pi_Start :: time
  pi_End :: time
  pi_Result :: "peer_error + ping_result"

definition recorded_ping :: "(peer_error \<Rightarrow> string) \<Rightarrow> ping \<Rightarrow> peer_status \<Rightarrow> peer_status" where
  "recorded_ping err_text g st =
     (case pi_Result g of
        Inl e \<Rightarrow> st\<lparr>ps_LastAttempt := pi_End g, ps_Reachable := False, ps_LastError := err_text e, ps_RTTMS := 0\<rparr>
      | Inr r \<Rightarrow> st\<lparr>ps_LastAttempt := pi_End g, ps_Reachable := True, ps_LastError := [],
                    ps_LastSeen := Some (pi_End g), ps_RTTMS := go_div (pi_End g - pi_Start g) millisecond,
                    ps_RemoteName := pg_Name r, ps_RemoteVersion := pg_Version r\<rparr>)"

definition pingOne :: "(peer_error \<Rightarrow> string) \<Rightarrow> ping \<Rightarrow> pool \<Rightarrow> pool" where
  "pingOne err_text g p =
     (case map_of (pl_status p) (pi_Client g) of
        None \<Rightarrow> p
      | Some st \<Rightarrow> p\<lparr>pl_status := AList.update (pi_Client g) (recorded_ping err_text g st) (pl_status p)\<rparr>)"

text \<open>What the observer is told: the name, whether the peer answered and the round trip.\<close>

definition observed :: "ping \<Rightarrow> pool \<Rightarrow> (string \<times> bool \<times> int) option" where
  "observed g p =
     (case map_of (pl_status p) (pi_Client g) of
        None \<Rightarrow> None
      | Some _ \<Rightarrow> Some (pi_Client g,
          (case pi_Result g of Inl _ \<Rightarrow> (False, 0)
           | Inr _ \<Rightarrow> (True, go_div (pi_End g - pi_Start g) millisecond))))"

text \<open>The goroutines of a round record their pings in the order in which they get the mutex.\<close>

definition PingAll :: "(peer_error \<Rightarrow> string) \<Rightarrow> ping list \<Rightarrow> pool \<Rightarrow> pool" where
  "PingAll err_text pings p = fold (pingOne err_text) pings p"

subsection \<open>Rounds of pings\<close>

definition add_peer :: "duration \<Rightarrow> peer_cfg \<Rightarrow> pool \<Rightarrow> pool" where
  "add_peer timeout pc p =
     (let c = NewClient (pc_Name pc) (pc_URL pc) (pc_Token pc) timeout
      in p\<lparr>pl_clients := pl_clients p @ [c], pl_status := AList.update (pc_Name pc) (new_status c) (pl_status p)\<rparr>)"

lemma NewPool_snoc: "NewPool timeout (cfgs @ [pc]) = add_peer timeout pc (NewPool timeout cfgs)"
  by (simp only: NewPool_def add_peer_def fold_append comp_def fold_simps id_apply)

definition pool_ok :: "string list \<Rightarrow> pool \<Rightarrow> bool" where
  [inv_defs]: "pool_ok names p \<longleftrightarrow> map fst (pl_status p) = names \<and> (\<forall>(n, st) \<in> set (pl_status p). ps_Name st = n)"

lemma NewPool_ok: "distinct (map pc_Name cfgs) \<Longrightarrow> pool_ok (map pc_Name cfgs) (NewPool timeout cfgs)"
proof (induction cfgs rule: rev_induct)
  case Nil
  then show ?case by (simp add: NewPool_def pool_ok_def)
next
  case (snoc pc cfgs)
  let ?p = "NewPool timeout cfgs"
  have ok: "pool_ok (map pc_Name cfgs) ?p" using snoc by simp
  then have "fst ` set (pl_status ?p) = pc_Name ` set cfgs" by (metis pool_ok_def set_map)
  then have "pc_Name pc \<notin> fst ` set (pl_status ?p)" using snoc.prems by auto
  then show ?case using ok
    by (auto simp: NewPool_snoc add_peer_def pool_ok_def Let_def update_fresh new_status_def NewClient_def)
qed

lemma recorded_ping_name [simp]: "ps_Name (recorded_ping f g st) = ps_Name st"
  by (simp add: recorded_ping_def split: sum.split)

lemma pingOne_ok:
  assumes ok: "pool_ok names p"
  shows "pool_ok names (pingOne f g p)"
proof (cases "map_of (pl_status p) (pi_Client g)")
  case (Some st)
  have m: "(pi_Client g, st) \<in> set (pl_status p)" by (rule map_of_SomeD) (rule Some)
  then have k: "pi_Client g \<in> fst ` set (pl_status p)" by force
  have "\<forall>(n, st) \<in> set (AList.update (pi_Client g) (recorded_ping f g st) (pl_status p)). ps_Name st = n"
  proof
    fix x assume "x \<in> set (AList.update (pi_Client g) (recorded_ping f g st) (pl_status p))"
    then have "x = (pi_Client g, recorded_ping f g st) \<or> x \<in> set (pl_status p)"
      using set_update_snd [of "pi_Client g" "recorded_ping f g st" "pl_status p"] by blast
    then show "case x of (n, st) \<Rightarrow> ps_Name st = n" using ok m by (auto simp: pool_ok_def)
  qed
  then show ?thesis using ok k by (simp add: pool_ok_def pingOne_def Some update_same_keys)
qed (simp add: pingOne_def ok)

lemma PingAll_ok: "pool_ok names p \<Longrightarrow> pool_ok names (PingAll f gs p)"
  unfolding PingAll_def by (induction gs arbitrary: p) (simp_all add: pingOne_ok)

lemma pingOne_view:
  "map_of (pl_status (pingOne f g p)) n =
     (if n = pi_Client g then map_option (recorded_ping f g) (map_of (pl_status p) n) else map_of (pl_status p) n)"
  by (auto simp: pingOne_def update_conv split: option.splits)

lemma PingAll_view_other:
  "n \<notin> pi_Client ` set gs \<Longrightarrow> map_of (pl_status (PingAll f gs p)) n = map_of (pl_status p) n"
  unfolding PingAll_def by (induction gs arbitrary: p) (auto simp: pingOne_view)

lemma pingOne_commute:
  assumes "pi_Client g \<noteq> pi_Client h"
  shows "pingOne f g (pingOne f h p) = pingOne f h (pingOne f g p)"
proof -
  have in_keys: "k \<in> fst ` set (pl_status p)" if "map_of (pl_status p) k = Some st" for k st
    using map_of_SomeD [OF that] by force
  show ?thesis using assms
    by (auto simp: pingOne_def update_conv update_commutes [OF _ in_keys in_keys] split: option.splits)
qed

lemma PingAll_permute:
  assumes "distinct (map pi_Client gs)" and "mset gs = mset hs"
  shows "PingAll f gs p = PingAll f hs p"
proof -
  have "pingOne f x \<circ> pingOne f y = pingOne f y \<circ> pingOne f x" if "x \<in> set gs" "y \<in> set gs" for x y
    using that assms(1) pingOne_commute [of x y f] by (cases "x = y") (auto simp: fun_eq_iff distinct_map inj_on_def)
  then show ?thesis unfolding PingAll_def using assms(2) by (metis fold_multiset_equiv)
qed

lemma pool_ok_names: "pool_ok names p \<Longrightarrow> map (ps_Name \<circ> snd) (pl_status p) = names"
  unfolding pool_ok_def by (auto simp: list_eq_iff_nth_eq all_set_conv_all_nth case_prod_beta)

lemma pool_Status_names: "map ps_Name (pool_Status p) = sort (map (ps_Name \<circ> snd) (pl_status p))"
  unfolding pool_Status_def
  by (rule properties_for_sort [symmetric]) (simp_all add: image_mset.compositionality comp_def)

text \<open>
  A round of pings ends in the same statuses whatever the order in which the goroutines record their
  answers; the status list then has every configured peer once, sorted by name, and the entry of a
  pinged peer shows its own attempt and whether it answered.
\<close>

theorem ping_round:
  assumes "distinct (map pc_Name cfgs)" and "distinct (map pi_Client gs)" and "mset gs = mset hs"
    and p: "p = PingAll f earlier (NewPool timeout cfgs)"
  shows "PingAll f gs p = PingAll f hs p
    \<and> map ps_Name (pool_Status (PingAll f gs p)) = sort (map pc_Name cfgs)
    \<and> (\<forall>g\<in>set gs. pi_Client g \<in> pc_Name ` set cfgs \<longrightarrow>
      (\<exists>st\<in>set (pool_Status (PingAll f gs p)). ps_Name st = pi_Client g \<and> ps_LastAttempt st = pi_End g
         \<and> (ps_Reachable st \<longleftrightarrow> \<not> isl (pi_Result g))))"
proof -
  let ?q = "PingAll f gs p"
  have ok: "pool_ok (map pc_Name cfgs) p" unfolding p by (intro PingAll_ok NewPool_ok assms)
  then have okq: "pool_ok (map pc_Name cfgs) ?q" by (rule PingAll_ok)
  have 1: "PingAll f gs p = PingAll f hs p" by (rule PingAll_permute) fact+
  have "map (ps_Name \<circ> snd) (pl_status ?q) = map pc_Name cfgs" by (rule pool_ok_names [OF okq])
  then have 2: "map ps_Name (pool_Status ?q) = sort (map pc_Name cfgs)" by (simp add: pool_Status_names)
  have 3: "\<forall>g\<in>set gs. pi_Client g \<in> pc_Name ` set cfgs \<longrightarrow>
      (\<exists>st\<in>set (pool_Status ?q). ps_Name st = pi_Client g \<and> ps_LastAttempt st = pi_End g
         \<and> (ps_Reachable st \<longleftrightarrow> \<not> isl (pi_Result g)))"
  proof (intro ballI impI)
    fix g assume g: "g \<in> set gs" "pi_Client g \<in> pc_Name ` set cfgs"
    then obtain a b where gs: "gs = a @ g # b" by (meson split_list)
    have a: "pi_Client g \<notin> pi_Client ` set a" "pi_Client g \<notin> pi_Client ` set b"
      using assms(2) by (auto simp: gs)
    have "pi_Client g \<in> fst ` set (pl_status p)" using ok g(2) by (metis pool_ok_def set_map)
    then obtain st where st: "map_of (pl_status p) (pi_Client g) = Some st"
      by (metis map_of_eq_None_iff not_Some_eq)
    have "?q = PingAll f b (pingOne f g (PingAll f a p))" by (simp add: PingAll_def gs)
    then have v: "map_of (pl_status ?q) (pi_Client g) = Some (recorded_ping f g st)"
      by (simp add: PingAll_view_other [OF a(2)] pingOne_view PingAll_view_other [OF a(1)] st)
    from map_of_SomeD [OF this] have m: "(pi_Client g, recorded_ping f g st) \<in> set (pl_status ?q)" .
    moreover have "ps_Name (recorded_ping f g st) = pi_Client g" using m okq unfolding pool_ok_def by fastforce
    moreover have "recorded_ping f g st \<in> set (pool_Status ?q)" using m by (force simp: pool_Status_def)
    ultimately show "\<exists>st\<in>set (pool_Status ?q). ps_Name st = pi_Client g \<and> ps_LastAttempt st = pi_End g
         \<and> (ps_Reachable st \<longleftrightarrow> \<not> isl (pi_Result g))"
      by (intro bexI [of _ "recorded_ping f g st"]) (auto simp: recorded_ping_def split: sum.splits)
  qed
  from 1 2 3 show ?thesis by blast
qed

definition demo_peers :: "peer_cfg list" where
  "demo_peers =
     [\<lparr>pc_Name = ''b'', pc_URL = ''http://b/'', pc_Token = ''t''\<rparr>, \<lparr>pc_Name = ''a'', pc_URL = ''http://a'', pc_Token = ''t''\<rparr>]"

definition demo_pings :: "ping list" where
  "demo_pings =
     [\<lparr>pi_Client = ''a'', pi_Start = 0, pi_End = 3000000, pi_Result = Inr \<lparr>pg_Name = ''a'', pg_Version = ''2''\<rparr>\<rparr>,
      \<lparr>pi_Client = ''b'', pi_Start = 0, pi_End = 5, pi_Result = Inl (Transport ''refused'')\<rparr>]"

theorem ping_round_witness:
  "PingAll (\<lambda>_. ''e'') demo_pings (NewPool 0 demo_peers) = PingAll (\<lambda>_. ''e'') (rev demo_pings) (NewPool 0 demo_peers)
   \<and> map ps_Name (pool_Status (PingAll (\<lambda>_. ''e'') demo_pings (NewPool 0 demo_peers))) = [''a'', ''b'']"
proof -
  have d: "distinct (map pc_Name demo_peers)" "distinct (map pi_Client demo_pings)" "mset demo_pings = mset (rev demo_pings)"
    by (simp_all add: demo_peers_def demo_pings_def)
  have "NewPool 0 demo_peers = PingAll (\<lambda>_. ''e'') [] (NewPool 0 demo_peers)" by (simp add: PingAll_def)
  note r = ping_round [OF d this, THEN conjunct1] ping_round [OF d this, THEN conjunct2, THEN conjunct1]
  show ?thesis unfolding r(2) using r(1) by (simp add: demo_peers_def)
qed

end
