(* ===== verification/AuditLog.thy ===== *)
theory AuditLog
  imports History GoStrings
begin

text \<open>
  \<open>internal/audit/audit.go\<close>: the log of mutating operations, an append-only file of JSON lines
  per month and a ring of the most recent entries in memory.

  The JSON codec of an entry is a parameter (\<open>enc\<close>, \<open>dec\<close>); what the code relies on is that
  decoding undoes encoding and that an encoded entry is one line.  The directory is the list of
  its files in the order \<open>ReadDir\<close> gives.  \<open>Append\<close> has two steps, since the file is written
  outside the lock: assigning the identifier and recording in the ring, and writing the line.
\<close>

record actor =
  act_Kind :: string
  act_Name :: string

record entry =
  ae_ID :: u64
  ae_At :: time
  ae_Actor :: actor
  ae_Kind :: string
  ae_Subject :: "(string \<times> string) list"
  ae_Result :: string
  ae_Status :: int
  ae_TraceID :: string

record logger =
  lg_retention :: duration
  lg_nextID :: u64
  lg_ring :: "entry list"
  lg_ringCap :: nat

record audit_file =
  af_Name :: string
  af_IsDir :: bool
  af_body :: string
  af_ModTime :: time
  af_unreadable :: bool

type_synonym entry_enc = "entry \<Rightarrow> string"
type_synonym entry_dec = "string \<Rightarrow> entry option"

definition RingCap :: nat where "RingCap = 1000"

subsection \<open>Reading lines from the end\<close>

definition eol :: "char \<Rightarrow> bool" where
  "eol c \<longleftrightarrow> c = nl \<or> c = cr"

definition trim_eol :: "string \<Rightarrow> string" where
  "trim_eol b = rev (dropWhile eol (rev b))"

definition last_line :: "string \<Rightarrow> string" where
  "last_line b = rev (takeWhile (\<lambda>c. c \<noteq> nl) (rev b))"

definition before_last_line :: "string \<Rightarrow> string" where
  "before_last_line b = rev (dropWhile (\<lambda>c. c \<noteq> nl) (rev b))"

fun splitLinesLast :: "string \<Rightarrow> nat \<Rightarrow> string list" where
  "splitLinesLast b 0 = []"
| "splitLinesLast b (Suc n) =
     (let t = trim_eol b
      in if t = [] then [] else splitLinesLast (before_last_line t) n @ [last_line t])"

definition file_max_id :: "entry_dec \<Rightarrow> u64 \<Rightarrow> audit_file \<Rightarrow> u64" where
  "file_max_id dec maxID f =
     (if af_IsDir f \<or> \<not> HasPrefix (af_Name f) ''audit-'' \<or> af_unreadable f then maxID
      else let line = last_line (trim_eol (af_body f))
           in if line = [] then maxID
              else (case dec line of Some e \<Rightarrow> if maxID < ae_ID e then ae_ID e else maxID | None \<Rightarrow> maxID))"

definition scanMaxID :: "entry_dec \<Rightarrow> audit_file list \<Rightarrow> u64" where
  "scanMaxID dec files = foldl (file_max_id dec) 0 files"

definition find_file :: "string \<Rightarrow> audit_file list \<Rightarrow> audit_file option" where
  "find_file name files = List.find (\<lambda>f. af_Name f = name \<and> \<not> af_IsDir f) files"

definition backfillRing :: "entry_dec \<Rightarrow> string \<Rightarrow> nat \<Rightarrow> audit_file list \<Rightarrow> entry list" where
  "backfillRing dec current cap files =
     (case find_file current files of
        None \<Rightarrow> []
      | Some f \<Rightarrow> if af_unreadable f then []
                  else List.map_filter dec (splitLinesLast (af_body f) cap))"

definition NewLogger :: "entry_dec \<Rightarrow> string \<Rightarrow> duration \<Rightarrow> audit_file list \<Rightarrow> logger" where
  "NewLogger dec current retention files =
     \<lparr>lg_retention = retention, lg_nextID = scanMaxID dec files + 1,
      lg_ring = backfillRing dec current RingCap files, lg_ringCap = RingCap\<rparr>"

definition currentFile :: "string \<Rightarrow> string" where
  "currentFile yyyymm = ''audit-'' @ yyyymm @ ''.jsonl''"

subsection \<open>Appending\<close>

definition appendRingLocked :: "entry \<Rightarrow> logger \<Rightarrow> logger" where
  "appendRingLocked e lg = lg\<lparr>lg_ring := shift_append (lg_ringCap lg) (lg_ring lg) e\<rparr>"

definition record_entry :: "time \<Rightarrow> entry \<Rightarrow> logger \<Rightarrow> entry \<times> logger" where
  "record_entry now e lg =
     (let e1 = e\<lparr>ae_ID := lg_nextID lg\<rparr>;
          e2 = (if is_zero (ae_At e1) then e1\<lparr>ae_At := now\<rparr> else e1)
      in (e2, appendRingLocked e2 (lg\<lparr>lg_nextID := lg_nextID lg + 1\<rparr>)))"

text \<open>\<open>written\<close> is how many bytes of the line reach the file: all of them, unless the write fails.\<close>

fun write_line :: "string \<Rightarrow> time \<Rightarrow> string \<Rightarrow> audit_file list \<Rightarrow> audit_file list" where
  "write_line name now body [] =
     [\<lparr>af_Name = name, af_IsDir = False, af_body = body, af_ModTime = now, af_unreadable = False\<rparr>]"
| "write_line name now body (f # fs) =
     (if af_Name f = name then f\<lparr>af_body := af_body f @ body, af_ModTime := now\<rparr> # fs
      else f # write_line name now body fs)"

definition writeFile :: "entry_enc \<Rightarrow> string \<Rightarrow> time \<Rightarrow> nat option \<Rightarrow> entry \<Rightarrow> audit_file list \<Rightarrow> audit_file list" where
  "writeFile enc current now written e files =
     (let line = enc e @ [nl]
      in write_line current now (case written of None \<Rightarrow> line | Some k \<Rightarrow> take k line) files)"

definition Append ::
  "entry_enc \<Rightarrow> string \<Rightarrow> time \<Rightarrow> nat option \<Rightarrow> entry \<Rightarrow> logger \<times> audit_file list \<Rightarrow> u64 \<times> logger \<times> audit_file list" where
  "Append enc current now written e s =
     (case s of (lg, files) \<Rightarrow>
        (case record_entry now e lg of
           (e', lg') \<Rightarrow> (ae_ID e', lg', writeFile enc current now written e' files)))"

subsection \<open>Querying\<close>

record query =
  q_Since :: time
  q_Until :: time
  q_Actor :: string
  q_Kind :: string
  q_Limit :: int
  q_Cursor :: string

definition matches :: "entry \<Rightarrow> query \<Rightarrow> bool" where
  "matches e q \<longleftrightarrow>
     (if \<not> is_zero (q_Since q) \<and> ae_At e < q_Since q then False
      else if \<not> is_zero (q_Until q) \<and> q_Until q < ae_At e then False
      else if q_Actor q \<noteq> [] \<and> act_Name (ae_Actor e) \<noteq> q_Actor q then False
      else if q_Kind q \<noteq> [] \<and> ae_Kind e \<noteq> q_Kind q then False
      else True)"

definition page_limit :: "query \<Rightarrow> nat" where
  "page_limit q = nat (let l = (if q_Limit q \<le> 0 then 200 else q_Limit q) in if 1000 < l then 1000 else l)"

definition parse_cursor :: "string \<Rightarrow> u64" where
  "parse_cursor c = (if c = [] then 0 else case ParseUint64 c of Some v \<Rightarrow> of_nat v | None \<Rightarrow> 0)"

fun list_loop :: "query \<Rightarrow> u64 \<Rightarrow> entry list \<Rightarrow> entry list \<Rightarrow> entry list" where
  "list_loop q cursor out [] = out"
| "list_loop q cursor out (e # es) =
     (if 0 < cursor \<and> cursor \<le> ae_ID e then list_loop q cursor out es
      else if \<not> matches e q then list_loop q cursor out es
      else let out' = out @ [e]
           in if length out' = page_limit q then out' else list_loop q cursor out' es)"

definition audit_List :: "query \<Rightarrow> logger \<Rightarrow> entry list \<times> string" where
  "audit_List q lg =
     (let out = list_loop q (parse_cursor (q_Cursor q)) [] (rev (lg_ring lg))
      in (out, if out = [] then [] else nat_digits (unat (ae_ID (last out)))))"

subsection \<open>Deleting old files\<close>

definition gc :: "time \<Rightarrow> logger \<Rightarrow> (string \<Rightarrow> bool) \<Rightarrow> audit_file list \<Rightarrow> audit_file list" where
  "gc now lg undeletable files =
     (if lg_retention lg \<le> 0 then files
      else let cutoff = now - lg_retention lg
           in filter (\<lambda>f. af_IsDir f \<or> \<not> af_ModTime f < cutoff \<or> undeletable (af_Name f)) files)"

subsection \<open>The ring is a bounded history\<close>

definition ring_ok :: "logger \<Rightarrow> bool" where
  "ring_ok lg \<longleftrightarrow> 0 < lg_ringCap lg \<and> length (lg_ring lg) \<le> lg_ringCap lg"

interpretation ring: recent_history lg_ringCap lg_ring appendRingLocked ring_ok
  by unfold_locales
    (auto simp: ring_ok_def appendRingLocked_def shift_append_last_n length_shift_append)

lemma splitLinesLast_length: "length (splitLinesLast b n) \<le> n"
  by (induction b n rule: splitLinesLast.induct) (auto simp: Let_def)

lemma map_filter_length: "length (List.map_filter f xs) \<le> length xs"
  by (induction xs) (auto simp: List.map_filter_simps split: option.splits)

lemma NewLogger_ring_ok: "ring_ok (NewLogger dec current retention files)"
proof -
  have "length (List.map_filter dec (splitLinesLast b n)) \<le> n" for b n
    by (rule order_trans [OF map_filter_length splitLinesLast_length])
  then have "length (backfillRing dec current RingCap files) \<le> RingCap"
    by (simp add: backfillRing_def split: option.split)
  then show ?thesis by (simp add: ring_ok_def NewLogger_def RingCap_def)
qed

subsection \<open>Lines\<close>

lemma trim_eol_line:
  assumes "l \<noteq> []" "\<forall>c\<in>set l. \<not> eol c"
  shows "trim_eol (b @ l @ [nl]) = b @ l"
proof -
  obtain c l' where "rev l = c # l'" using assms(1) by (cases "rev l") auto
  moreover then have "c \<in> set l" by (metis list.set_intros(1) set_rev)
  ultimately show ?thesis using assms(2) by (simp add: trim_eol_def eol_def)
qed

definition line_file :: "string list \<Rightarrow> string" where
  "line_file ls = concat (map (\<lambda>l. l @ [nl]) ls)"

definition one_line :: "string \<Rightarrow> bool" where
  "one_line l \<longleftrightarrow> l \<noteq> [] \<and> (\<forall>c\<in>set l. \<not> eol c)"

lemma line_file_snoc: "line_file (ls @ [l]) = line_file ls @ l @ [nl]"
  by (simp add: line_file_def)

lemma last_line_line_file:
  assumes "one_line l"
  shows "last_line (line_file ls @ l) = l" "before_last_line (line_file ls @ l) = line_file ls"
proof -
  have l: "c \<noteq> nl" if "c \<in> set (rev l)" for c using assms that by (auto simp: one_line_def eol_def)
  have e: "takeWhile (\<lambda>c. c \<noteq> nl) (rev (line_file ls)) = []
         \<and> dropWhile (\<lambda>c. c \<noteq> nl) (rev (line_file ls)) = rev (line_file ls)"
    by (cases ls rule: rev_cases) (simp_all add: line_file_snoc line_file_def)
  have t: "takeWhile (\<lambda>c. c \<noteq> nl) (rev l @ rev (line_file ls)) = rev l"
    using takeWhile_append2 [of "rev l" "\<lambda>c. c \<noteq> nl" "rev (line_file ls)"] l e by simp
  have d: "dropWhile (\<lambda>c. c \<noteq> nl) (rev l @ rev (line_file ls)) = rev (line_file ls)"
    using dropWhile_append2 [of "rev l" "\<lambda>c. c \<noteq> nl" "rev (line_file ls)"] l e by simp
  show "last_line (line_file ls @ l) = l" using t by (simp add: last_line_def)
  show "before_last_line (line_file ls @ l) = line_file ls" using d by (simp add: before_last_line_def)
qed

lemma trim_line_file: "one_line l \<Longrightarrow> trim_eol (line_file (ls @ [l])) = line_file ls @ l"
  by (simp add: line_file_snoc trim_eol_line one_line_def)

lemma splitLinesLast_lines:
  "\<forall>l\<in>set ls. one_line l \<Longrightarrow> splitLinesLast (line_file ls) n = last_n n ls"
proof (induction n arbitrary: ls)
  case (Suc n)
  show ?case
  proof (cases ls rule: rev_cases)
    case Nil
    then show ?thesis by (simp add: line_file_def trim_eol_def)
  next
    case (snoc ls' l)
    then have l: "one_line l" "\<forall>l\<in>set ls'. one_line l" using Suc.prems by auto
    then have "line_file ls' @ l \<noteq> []" by (simp add: one_line_def)
    then show ?thesis
      using Suc.IH [OF l(2)] l(1) snoc by (simp add: trim_line_file last_line_line_file Let_def last_n_snoc)
  qed
qed simp

subsection \<open>Identifiers\<close>

definition increasing :: "entry list \<Rightarrow> bool" where
  "increasing es \<longleftrightarrow> sorted_wrt (\<lambda>a b. ae_ID a < ae_ID b) es \<and> list_all (\<lambda>e. 0 < ae_ID e) es"

text \<open>
  A sequence of complete appends, one after the other, each at its own time: the entries as
  recorded, and the log in memory and on disk afterwards.
\<close>

fun append_all ::
  "entry_enc \<Rightarrow> string \<Rightarrow> (time \<times> entry) list \<Rightarrow> logger \<times> audit_file list \<Rightarrow> entry list \<times> logger \<times> audit_file list" where
  "append_all enc current [] s = ([], s)"
| "append_all enc current ((now, e) # es) s =
     (case append_all enc current es (snd (Append enc current now None e s)) of
        (rs, s') \<Rightarrow> (fst (record_entry now e (fst s)) # rs, s'))"

lemma record_entry_simps [simp]:
  "ae_ID (fst (record_entry now e lg)) = lg_nextID lg"
  "snd (record_entry now e lg) = appendRingLocked (fst (record_entry now e lg)) (lg\<lparr>lg_nextID := lg_nextID lg + 1\<rparr>)"
  by (simp_all add: record_entry_def Let_def)

lemma Append_simps [simp]:
  "Append enc current now w e (lg, files) =
     (lg_nextID lg, snd (record_entry now e lg), writeFile enc current now w (fst (record_entry now e lg)) files)"
proof -
  obtain e' lg' where r: "record_entry now e lg = (e', lg')" by (cases "record_entry now e lg")
  then have "ae_ID e' = lg_nextID lg" using record_entry_simps(1) [of now e lg] by simp
  then show ?thesis by (simp add: Append_def r)
qed

lemma appendRingLocked_simps [simp]:
  "lg_nextID (appendRingLocked e lg) = lg_nextID lg" "lg_retention (appendRingLocked e lg) = lg_retention lg"
  "lg_ringCap (appendRingLocked e lg) = lg_ringCap lg"
  by (simp_all add: appendRingLocked_def)

lemma ring_ok_nextID [simp]: "ring_ok (lg\<lparr>lg_nextID := n\<rparr>) = ring_ok lg"
  by (simp add: ring_ok_def)

lemma append_all_log:
  assumes "append_all enc current es s = (rs, lg', files')" and "ring_ok (fst s)"
  shows "lg_ring lg' = last_n (lg_ringCap (fst s)) (lg_ring (fst s) @ rs) \<and> length rs = length es
       \<and> (\<forall>i<length rs. ae_ID (rs ! i) = lg_nextID (fst s) + of_nat i)
       \<and> lg_nextID lg' = lg_nextID (fst s) + of_nat (length es)
       \<and> lg_retention lg' = lg_retention (fst s) \<and> lg_ringCap lg' = lg_ringCap (fst s)"
  using assms
proof (induction es arbitrary: s rs)
  case Nil
  then show ?case by (simp add: ring_ok_def)
next
  case (Cons ne es)
  obtain now e where ne: "ne = (now, e)" by (cases ne)
  obtain lg files where s: "s = (lg, files)" by (cases s)
  let ?r = "fst (record_entry now e lg)"
  let ?s = "snd (Append enc current now None e s)"
  obtain rs1 where rs: "rs = ?r # rs1" "append_all enc current es ?s = (rs1, lg', files')"
    using Cons.prems(1) by (auto simp: ne s split: prod.splits)
  have ok: "ring_ok (fst ?s)" using Cons.prems(2) by (simp add: s ring.ok_push)
  have r: "lg_ring (fst ?s) = last_n (lg_ringCap lg) (lg_ring lg @ [?r])"
    using ring.view_push [of "lg\<lparr>lg_nextID := lg_nextID lg + 1\<rparr>"] Cons.prems(2) by (simp add: s)
  note I = Cons.IH [OF rs(2) ok]
  have "ae_ID (rs ! i) = lg_nextID lg + of_nat i" if "i < length rs" for i
    using I that rs(1) by (cases i) (auto simp: s)
  then show ?case using I r rs(1) by (simp add: s ne)
qed

lemma consecutive_increasing:
  assumes "\<And>i. i < length rs \<Longrightarrow> ae_ID (rs ! i) = n + of_nat i" and "unat n + length rs < 2 ^ 64" and "0 < n"
  shows "increasing rs" and "\<And>e. e \<in> set rs \<Longrightarrow> n \<le> ae_ID e"
proof -
  have u: "unat (ae_ID (rs ! i)) = unat n + i" if "i < length rs" for i
  proof -
    have i: "unat (of_nat i :: u64) = i"
      using that assms(2) by (intro of_nat_inverse [OF refl]) simp
    have "unat n + unat (of_nat i :: u64) < 2 ^ LENGTH(64)" using i that assms(2) by simp
    then have "unat (n + of_nat i) = unat n + unat (of_nat i :: u64)" by (rule iffD1 [OF unat_add_lem])
    then show ?thesis using assms(1) [OF that] i by simp
  qed
  show "increasing rs"
    unfolding increasing_def sorted_wrt_iff_nth_less list_all_length
    using u assms(3) by (auto simp: word_less_nat_alt)
  show "n \<le> ae_ID e" if "e \<in> set rs" for e
    using that u by (auto simp: in_set_conv_nth word_le_nat_alt)
qed

subsection \<open>Pagination\<close>

text \<open>Asking for page after page, passing each cursor back, until a page is empty.\<close>

fun pages :: "nat \<Rightarrow> query \<Rightarrow> logger \<Rightarrow> entry list list" where
  "pages 0 q lg = []"
| "pages (Suc k) q lg =
     (case audit_List q lg of
        (es, c) \<Rightarrow> if es = [] then [] else es # pages k (q\<lparr>q_Cursor := c\<rparr>) lg)"

definition visible :: "query \<Rightarrow> u64 \<Rightarrow> entry \<Rightarrow> bool" where
  "visible q cursor e \<longleftrightarrow> \<not> (0 < cursor \<and> cursor \<le> ae_ID e) \<and> matches e q"

lemma page_limit_bounds: "0 < page_limit q \<and> page_limit q \<le> 1000"
  by (auto simp: page_limit_def Let_def)

lemma list_loop_take:
  "length out < page_limit q \<Longrightarrow>
     list_loop q cursor out es = take (page_limit q) (out @ filter (visible q cursor) es)"
proof (induction q cursor out es rule: list_loop.induct)
  case (2 q cursor out e es)
  show ?case
  proof (cases "visible q cursor e \<and> Suc (length out) = page_limit q")
    case True
    then have "page_limit q - length out = Suc 0" by linarith
    then show ?thesis using True by (auto simp: visible_def)
  next
    case False
    then show ?thesis using 2 by (auto simp: Let_def visible_def)
  qed
qed simp

lemma parse_cursor_digits: "parse_cursor (nat_digits (unat (i :: u64))) = i"
proof -
  have "int (unat i) < 2 ^ 64" using unsigned_less [of i] by simp
  then show ?thesis
    using nat_digits_all [of "unat i"]
    by (simp add: parse_cursor_def ParseUint64_def unsigned_of_nat nat_int)
qed

lemma audit_List_page:
  "fst (audit_List q lg) = take (page_limit q) (filter (visible q (parse_cursor (q_Cursor q))) (rev (lg_ring lg)))"
  using page_limit_bounds [of q] by (simp add: audit_List_def Let_def list_loop_take)

lemma filter_older:
  assumes "sorted_wrt (\<lambda>a b. ae_ID b < ae_ID a) (ps @ ys)" and "ps \<noteq> []"
    and "list_all (\<lambda>e. 0 < ae_ID e) (ps @ ys)"
  shows "filter (\<lambda>e. \<not> (0 < ae_ID (last ps) \<and> ae_ID (last ps) \<le> ae_ID e)) (ps @ ys) = ys"
proof -
  obtain qs p where ps: "ps = qs @ [p]" using assms(2) by (metis rev_exhaust)
  have "ae_ID p \<le> ae_ID e" if "e \<in> set ps" for e
    using that assms(1) ps by (auto simp: sorted_wrt_append intro: order.strict_implies_order)
  moreover have "ae_ID e < ae_ID p" if "e \<in> set ys" for e
    using that assms(1) ps by (auto simp: sorted_wrt_append)
  moreover have "0 < ae_ID p" using assms(3) ps by simp
  ultimately have "filter (\<lambda>e. \<not> (0 < ae_ID p \<and> ae_ID p \<le> ae_ID e)) ps = []"
    "filter (\<lambda>e. \<not> (0 < ae_ID p \<and> ae_ID p \<le> ae_ID e)) ys = ys"
    unfolding filter_empty_conv filter_id_conv by (blast, metis leD)
  moreover have "last ps = p" using ps by simp
  ultimately show ?thesis by (simp only: filter_append append_Nil)
qed

lemma increasing_rev: "increasing es \<Longrightarrow> sorted_wrt (\<lambda>a b. ae_ID b < ae_ID a) (rev es)"
  by (simp add: increasing_def sorted_wrt_rev)

lemma page_step:
  assumes inc: "increasing (lg_ring lg)"
    and xs: "filter (\<lambda>e. matches e q) (rev (lg_ring lg)) = ps @ ys"
    and c: "ps = [] \<and> parse_cursor (q_Cursor q) = 0 \<or> ps \<noteq> [] \<and> parse_cursor (q_Cursor q) = ae_ID (last ps)"
  shows "fst (audit_List q lg) = take (page_limit q) ys"
proof -
  let ?c = "parse_cursor (q_Cursor q)"
  have s: "sorted_wrt (\<lambda>a b. ae_ID b < ae_ID a) (ps @ ys)"
    unfolding xs [symmetric] by (intro sorted_wrt_filter increasing_rev inc)
  have p: "list_all (\<lambda>e. 0 < ae_ID e) (ps @ ys)"
    unfolding xs [symmetric] using inc by (auto simp: increasing_def list_all_iff)
  have "filter (visible q ?c) (rev (lg_ring lg))
      = filter (\<lambda>e. \<not> (0 < ?c \<and> ?c \<le> ae_ID e)) (filter (\<lambda>e. matches e q) (rev (lg_ring lg)))"
    unfolding filter_filter by (rule filter_cong) (auto simp: visible_def)
  also have "\<dots> = ys"
    using c filter_older [OF s _ p] unfolding xs by auto
  finally show ?thesis by (simp add: audit_List_page)
qed

lemma pages_rest:
  assumes inc: "increasing (lg_ring lg)"
  shows "filter (\<lambda>e. matches e q) (rev (lg_ring lg)) = ps @ ys \<Longrightarrow>
     ps = [] \<and> parse_cursor (q_Cursor q) = 0 \<or> ps \<noteq> [] \<and> parse_cursor (q_Cursor q) = ae_ID (last ps) \<Longrightarrow>
     length ys \<le> k \<Longrightarrow> concat (pages k q lg) = ys \<and> list_all (\<lambda>p. length p \<le> page_limit q) (pages k q lg)"
proof (induction k arbitrary: q ps ys)
  case 0
  then show ?case by simp
next
  case (Suc k)
  let ?es = "take (page_limit q) ys"
  have es: "fst (audit_List q lg) = ?es" using page_step [OF inc Suc.prems(1,2)] .
  obtain c where L: "audit_List q lg = (?es, c)"
    and c: "c = (if ?es = [] then [] else nat_digits (unat (ae_ID (last ?es))))"
    using es by (auto simp: audit_List_def Let_def)
  show ?case
  proof (cases "ys = []")
    case True
    then show ?thesis by (simp add: L)
  next
    case False
    then have ne: "?es \<noteq> []" using page_limit_bounds [of q] by simp
    let ?q = "q\<lparr>q_Cursor := c\<rparr>"
    have m: "matches e ?q = matches e q" "page_limit ?q = page_limit q" for e
      by (simp_all add: matches_def page_limit_def)
    have "filter (\<lambda>e. matches e ?q) (rev (lg_ring lg)) = (ps @ ?es) @ drop (page_limit q) ys"
      using Suc.prems(1) by (simp add: m)
    moreover have "parse_cursor (q_Cursor ?q) = ae_ID (last (ps @ ?es))"
      using ne c by (simp add: parse_cursor_digits)
    moreover have "length (drop (page_limit q) ys) \<le> k"
      using Suc.prems(3) page_limit_bounds [of q] False by (cases ys) auto
    ultimately have "concat (pages k ?q lg) = drop (page_limit q) ys
        \<and> list_all (\<lambda>p. length p \<le> page_limit q) (pages k ?q lg)"
      using Suc.IH [of ?q "ps @ ?es" "drop (page_limit q) ys"] ne m by simp
    then show ?thesis using ne by (simp add: L)
  qed
qed

text \<open>
  C31: when the ring holds entries in the order of their identifiers, asking for page after page and
  passing each cursor back visits every matching entry of the ring exactly once, newest first, in
  pages of at most the limit.
\<close>

theorem pages_cover_the_ring:
  assumes "increasing (lg_ring lg)" and "q_Cursor q = []" and "length (lg_ring lg) \<le> k"
  shows "concat (pages k q lg) = filter (\<lambda>e. matches e q) (rev (lg_ring lg))
       \<and> list_all (\<lambda>p. length p \<le> page_limit q) (pages k q lg)"
proof -
  have "length (filter (\<lambda>e. matches e q) (rev (lg_ring lg))) \<le> k"
    using assms(3) length_filter_le [of "\<lambda>e. matches e q" "rev (lg_ring lg)"] by simp
  then show ?thesis
    using pages_rest [OF assms(1), of q "[]"] assms(2) by (simp add: parse_cursor_def)
qed

definition demo_entry :: "u64 \<Rightarrow> string \<Rightarrow> entry" where
  "demo_entry i k = \<lparr>ae_ID = i, ae_At = 9, ae_Actor = \<lparr>act_Kind = ''token'', act_Name = ''ops''\<rparr>, ae_Kind = k,
     ae_Subject = [], ae_Result = ''ok'', ae_Status = 200, ae_TraceID = []\<rparr>"

definition demo_query :: query where
  "demo_query = \<lparr>q_Since = 0, q_Until = 0, q_Actor = [], q_Kind = ''slot.start'', q_Limit = 1, q_Cursor = []\<rparr>"

definition demo_logger :: logger where
  "demo_logger = \<lparr>lg_retention = 0, lg_nextID = 4,
     lg_ring = [demo_entry 1 ''slot.start'', demo_entry 2 ''slot.stop'', demo_entry 3 ''slot.start''], lg_ringCap = 1000\<rparr>"

theorem pages_cover_the_ring_witness:
  "increasing (lg_ring demo_logger)
   \<and> concat (pages 3 demo_query demo_logger) = [demo_entry 3 ''slot.start'', demo_entry 1 ''slot.start'']"
proof -
  have i: "increasing (lg_ring demo_logger)" by (simp add: demo_logger_def demo_entry_def increasing_def)
  have "concat (pages 3 demo_query demo_logger)
      = filter (\<lambda>e. matches e demo_query) (rev (lg_ring demo_logger))"
    using pages_cover_the_ring [OF i, of demo_query 3] by (simp add: demo_query_def demo_logger_def)
  also have "\<dots> = [demo_entry 3 ''slot.start'', demo_entry 1 ''slot.start'']"
    by (simp add: demo_logger_def demo_entry_def demo_query_def matches_def is_zero_def)
  finally show ?thesis using i by blast
qed

subsection \<open>Restarting\<close>

text \<open>The codec does what is relied on for an entry.\<close>

definition encodes :: "entry_enc \<Rightarrow> entry_dec \<Rightarrow> entry \<Rightarrow> bool" where
  "encodes enc dec e \<longleftrightarrow> one_line (enc e) \<and> dec (enc e) = Some e"

text \<open>The files after a month's entries have been written in order to a new file.\<close>

definition month_files :: "entry_enc \<Rightarrow> string \<Rightarrow> entry list \<Rightarrow> time \<Rightarrow> audit_file list \<Rightarrow> audit_file list" where
  "month_files enc current rs t files =
     (if rs = [] then files
      else files @ [\<lparr>af_Name = current, af_IsDir = False, af_body = line_file (map enc rs), af_ModTime = t,
                     af_unreadable = False\<rparr>])"

lemma write_line_new:
  "current \<notin> af_Name ` set files \<Longrightarrow> write_line current now b files
     = files @ [\<lparr>af_Name = current, af_IsDir = False, af_body = b, af_ModTime = now, af_unreadable = False\<rparr>]"
  by (induction files) auto

lemma write_line_old:
  "current \<notin> af_Name ` set files \<Longrightarrow> af_Name f = current \<Longrightarrow>
     write_line current now b (files @ [f]) = files @ [f\<lparr>af_body := af_body f @ b, af_ModTime := now\<rparr>]"
  by (induction files) auto

lemma writeFile_month:
  assumes "current \<notin> af_Name ` set files"
  shows "writeFile enc current now None e (month_files enc current rs t files)
       = month_files enc current (rs @ [e]) now files"
  using assms
  by (cases "rs = []")
    (simp_all add: writeFile_def month_files_def write_line_new write_line_old line_file_def)

lemma append_all_files:
  assumes "current \<notin> af_Name ` set files"
    and "append_all enc current es (lg, month_files enc current rs0 t files) = (rs, lg', files')"
  shows "\<exists>t'. files' = month_files enc current (rs0 @ rs) t' files"
  using assms(2)
proof (induction es arbitrary: lg rs0 t rs)
  case Nil
  then show ?case by auto
next
  case (Cons ne es)
  obtain now e where ne: "ne = (now, e)" by (cases ne)
  let ?r = "fst (record_entry now e lg)"
  obtain rs1 where rs: "rs = ?r # rs1"
    "append_all enc current es (snd (record_entry now e lg), month_files enc current (rs0 @ [?r]) now files)
       = (rs1, lg', files')"
    using Cons.prems by (auto simp: ne writeFile_month [OF assms(1)] simp del: record_entry_simps split: prod.splits)
  show ?case using Cons.IH [OF rs(2)] rs(1) by simp
qed

lemma file_max_id_ge: "m \<le> file_max_id dec m f"
  by (auto simp: file_max_id_def Let_def split: option.splits)

lemma scanMaxID_month:
  assumes "rs \<noteq> []" and "list_all (encodes enc dec) rs" and "scanMaxID dec files < ae_ID (last rs)"
    and "HasPrefix current ''audit-''"
  shows "scanMaxID dec (month_files enc current rs t files) = ae_ID (last rs)"
proof -
  obtain rs' r where rs: "rs = rs' @ [r]" using assms(1) by (metis rev_exhaust)
  then have r: "one_line (enc r)" "dec (enc r) = Some r" using assms(2) by (auto simp: encodes_def)
  have "last_line (trim_eol (line_file (map enc rs))) = enc r"
    using r(1) by (simp add: rs trim_line_file last_line_line_file)
  then show ?thesis
    using assms(3,4) r rs by (simp add: month_files_def scanMaxID_def file_max_id_def one_line_def)
qed

lemma map_filter_encodes: "list_all (encodes enc dec) rs \<Longrightarrow> List.map_filter dec (map enc rs) = rs"
  by (induction rs) (auto simp: List.map_filter_simps encodes_def)

lemma map_last_n: "map f (last_n n xs) = last_n n (map f xs)"
  by (simp add: last_n_def drop_map)

lemma find_file_none: "current \<notin> af_Name ` set files \<Longrightarrow> find_file current files = None"
  by (auto simp: find_file_def find_None_iff)

lemma find_file_month:
  assumes "current \<notin> af_Name ` set files"
  shows "find_file current (files @ [f]) = (if af_Name f = current \<and> \<not> af_IsDir f then Some f else None)"
  using assms by (induction files) (auto simp: find_file_def)

lemma backfillRing_month:
  assumes "current \<notin> af_Name ` set files" and "list_all (encodes enc dec) rs"
  shows "backfillRing dec current cap (month_files enc current rs t files) = last_n cap rs"
proof (cases "rs = []")
  case True
  then show ?thesis using assms(1) by (simp add: backfillRing_def month_files_def find_file_none last_n_def)
next
  case False
  have "\<forall>l\<in>set (map enc rs). one_line l" using assms(2) by (auto simp: list_all_iff encodes_def)
  from splitLinesLast_lines [OF this, of cap]
  have "splitLinesLast (line_file (map enc rs)) cap = map enc (last_n cap rs)" by (simp add: map_last_n)
  moreover have "list_all (encodes enc dec) (last_n cap rs)"
    using assms(2) set_last_n [of cap rs] by (auto simp: list_all_iff)
  ultimately show ?thesis
    using False assms(1) by (simp add: backfillRing_def month_files_def find_file_month map_filter_encodes)
qed


text \<open>A codec for entries that differ only in their identifier.\<close>

definition demo_enc :: entry_enc where
  "demo_enc e = nat_digits (unat (ae_ID e))"

definition demo_dec :: entry_dec where
  "demo_dec s = map_option (\<lambda>n. demo_entry (of_nat n) ''slot.start'') (ParseUint64 s)"

lemma demo_codec: "encodes demo_enc demo_dec (demo_entry i ''slot.start'')"
proof -
  have "int (unat i) < 2 ^ 64" using unsigned_less [of i] by simp
  then have "ParseUint64 (nat_digits (unat i)) = Some (unat i)"
    using nat_digits_all [of "unat i"] by (simp add: ParseUint64_def unsigned_of_nat nat_int)
  moreover have "\<not> eol c" if "c \<in> set (nat_digits (unat i))" for c
    using nat_digits_chars [OF that] by (auto simp: eol_def is_digit_def)
  ultimately show ?thesis
    by (simp add: encodes_def one_line_def demo_enc_def demo_dec_def demo_entry_def)
qed

lemma NewLogger_nextID: "lg_nextID (NewLogger dec current ret files) = scanMaxID dec files + 1"
  by (simp add: NewLogger_def)

lemma record_demo: "fst (record_entry now (demo_entry i k) lg) = demo_entry (lg_nextID lg) k"
  by (simp add: record_entry_def Let_def is_zero_def demo_entry_def)


text \<open>
  The line of an entry is written outside the lock.  When the lines of two concurrent appends land
  in the file in the other order, a restart reads the smaller identifier from the last line and
  hands the larger one out a second time.
\<close>

theorem restart_repeats_an_id:
  assumes "encodes enc dec (fst (record_entry t1 e1 (NewLogger dec (currentFile ym) ret [])))"
  shows "let lg0 = NewLogger dec (currentFile ym) ret [];
             (a, lg1) = record_entry t1 e1 lg0;
             (b, lg2) = record_entry t2 e2 lg1;
             files = writeFile enc (currentFile ym) t2 None a (writeFile enc (currentFile ym) t1 None b [])
         in ae_ID b = 2 \<and> lg_nextID (NewLogger dec (currentFile ym) ret files) = ae_ID b"
proof -
  let ?lg0 = "NewLogger dec (currentFile ym) ret []"
  let ?a = "fst (record_entry t1 e1 ?lg0)"
  let ?lg1 = "snd (record_entry t1 e1 ?lg0)"
  let ?b = "fst (record_entry t2 e2 ?lg1)"
  have n0: "lg_nextID ?lg0 = 1" by (simp add: NewLogger_def scanMaxID_def)
  then have ids: "ae_ID ?a = 1" "ae_ID ?b = 2" by simp_all
  have files: "writeFile enc (currentFile ym) t2 None ?a (writeFile enc (currentFile ym) t1 None ?b [])
      = [\<lparr>af_Name = currentFile ym, af_IsDir = False, af_body = (enc ?b @ [nl]) @ enc ?a @ [nl], af_ModTime = t2,
          af_unreadable = False\<rparr>]"
    by (simp add: writeFile_def)
  have l: "trim_eol ((enc ?b @ [nl]) @ enc ?a @ [nl]) = (enc ?b @ [nl]) @ enc ?a"
    using assms by (intro trim_eol_line) (auto simp: encodes_def one_line_def)
  have "last_line ((enc ?b @ [nl]) @ enc ?a) = enc ?a"
    using assms by (simp add: last_line_def takeWhile_append encodes_def one_line_def eol_def)
  then have "scanMaxID dec [\<lparr>af_Name = currentFile ym, af_IsDir = False, af_body = (enc ?b @ [nl]) @ enc ?a @ [nl],
      af_ModTime = t2, af_unreadable = False\<rparr>] = 1"
    using assms ids l
    by (simp add: scanMaxID_def file_max_id_def currentFile_def encodes_def one_line_def del: append_assoc)
  then show ?thesis
    using ids by (simp only: split_beta Let_def files NewLogger_nextID) simp
qed

theorem restart_repeats_an_id_witness:
  "let lg0 = NewLogger demo_dec (currentFile ''2026-01'') 0 [];
       (a, lg1) = record_entry 5 (demo_entry 0 ''slot.start'') lg0;
       (b, lg2) = record_entry 6 (demo_entry 0 ''slot.start'') lg1;
       files = writeFile demo_enc (currentFile ''2026-01'') 6 None a
                 (writeFile demo_enc (currentFile ''2026-01'') 5 None b [])
   in ae_ID b = 2 \<and> lg_nextID (NewLogger demo_dec (currentFile ''2026-01'') 0 files) = ae_ID b"
  by (rule restart_repeats_an_id) (simp add: record_demo demo_codec)

end
