(* ===== verification/ReadApi.thy ===== *)
theory ReadApi
  imports PropertiesApi Peers LogTail AuditLog
begin

text \<open>
  The handlers that only read: \<open>internal/api/handlers_logs.go\<close>, \<open>handlers_audit.go\<close>,
  \<open>handlers_lists.go\<close> and \<open>handlers_peers.go\<close>.  A query parameter that is absent is the empty string;
  \<open>parse_time\<close> is \<open>time.Parse(RFC3339Nano, _)\<close> and \<open>decode\<close> the JSON decoder.
\<close>

subsection \<open>Logs\<close>

definition defaultTail :: int where "defaultTail = 200"
definition maxTail :: int where "maxTail = 5000"

text \<open>The capacity of a process's ring buffer when the specification leaves it out, as \<open>Slot.Start\<close> does.\<close>

definition defaultLogCap :: int where "defaultLogCap = 2000"

definition slot_Logs :: "int \<Rightarrow> slot \<Rightarrow> (nat \<rightharpoonup> process) \<Rightarrow> log_line list" where
  "slot_Logs n s procs =
     (case s_process s of None \<Rightarrow> [] | Some p \<Rightarrow> (case procs p of None \<Rightarrow> [] | Some pr \<Rightarrow> Logs n pr))"

record log_query =
  lq_tail :: string
  lq_since :: string
  lq_levels :: "string list"

definition keep_entry :: "time \<Rightarrow> string list \<Rightarrow> log_entry \<Rightarrow> bool" where
  "keep_entry since levels e \<longleftrightarrow>
     (if \<not> is_zero since \<and> \<not> since < le_TS e then False
      else if levels \<noteq> [] \<and> le_Level e \<noteq> [] \<and> ToLower (le_Level e) \<notin> set levels
      then \<exists>want\<in>set levels. EqualFold want (le_Level e)
      else True)"

definition query_tail :: "string \<Rightarrow> reply + int" where
  "query_tail s =
     (if s = [] then Inr defaultTail
      else case Atoi s of
             None \<Rightarrow> Inl (reply_error 400 ''validation_failed'')
           | Some n \<Rightarrow> if n < 1 then Inl (reply_error 400 ''validation_failed'') else Inr (if maxTail < n then maxTail else n))"

definition query_time :: "(string \<Rightarrow> time option) \<Rightarrow> string \<Rightarrow> reply + time" where
  "query_time parse_time s =
     (if s = [] then Inr 0 else case parse_time s of None \<Rightarrow> Inl (reply_error 400 ''validation_failed'') | Some t \<Rightarrow> Inr t)"

definition handleServerLogs ::
  "(string \<Rightarrow> time option) \<Rightarrow> duration \<Rightarrow> string \<Rightarrow> log_query \<Rightarrow> manager \<Rightarrow> (nat \<rightharpoonup> process) \<Rightarrow>
   reply \<times> (log_entry list \<times> bool) option" where
  "handleServerLogs parse_time zone name q m procs =
     (case mg_slots m name of
        None \<Rightarrow> (slot_missing, None)
      | Some s \<Rightarrow>
          if lq_tail q \<noteq> [] \<and> lq_since q \<noteq> [] then (reply_error 400 ''validation_failed'', None)
          else
         (case query_tail (lq_tail q) of Inl r \<Rightarrow> (r, None) | Inr tail \<Rightarrow>
         (case query_time parse_time (lq_since q) of Inl r \<Rightarrow> (r, None) | Inr since \<Rightarrow>
           (let requested = (if \<not> is_zero since then maxTail else tail);
                raw = slot_Logs requested s procs
            in (reply_ok 200,
                Some (filter (keep_entry since (lq_levels q)) (map (\<lambda>l. Parse zone (ll_text l) (ll_at l)) raw),
                      s_state s \<noteq> StateIdle \<and> maxTail \<le> int (length raw)))))))"

subsection \<open>The audit log\<close>

record audit_query =
  aq_actor :: string
  aq_kind :: string
  aq_cursor :: string
  aq_since :: string
  aq_until :: string
  aq_limit :: string

definition handleAudit :: "(string \<Rightarrow> time option) \<Rightarrow> audit_query \<Rightarrow> logger option \<Rightarrow> reply \<times> (entry list \<times> string) option" where
  "handleAudit parse_time q lg =
     (case lg of
        None \<Rightarrow> (reply_error 503 ''internal'', None)
      | Some lg \<Rightarrow>
         (case query_time parse_time (aq_since q) of Inl r \<Rightarrow> (r, None) | Inr since \<Rightarrow>
         (case query_time parse_time (aq_until q) of Inl r \<Rightarrow> (r, None) | Inr until \<Rightarrow>
         (case (if aq_limit q = [] then Some 0 else case Atoi (aq_limit q) of None \<Rightarrow> None | Some n \<Rightarrow> if n < 1 then None else Some n) of
            None \<Rightarrow> (reply_error 400 ''validation_failed'', None)
          | Some limit \<Rightarrow>
              (reply_ok 200,
               Some (audit_List \<lparr>q_Since = since, q_Until = until, q_Actor = aq_actor q, q_Kind = aq_kind q,
                                 q_Limit = limit, q_Cursor = aq_cursor q\<rparr> lg))))))"

subsection \<open>The lists of the mounted server\<close>

text \<open>What \<open>os.ReadFile\<close> does: no such file, another error, or the bytes.\<close>

datatype file_read = FileMissing | FileFails go_error | FileBytes string

text \<open>\<open>None\<close> is a read or decode error; a missing file leaves the list empty.\<close>

definition readJSONFile :: "(string \<Rightarrow> 'a list option) \<Rightarrow> file_read \<Rightarrow> 'a list option" where
  "readJSONFile decode f = (case f of FileMissing \<Rightarrow> Some [] | FileFails _ \<Rightarrow> None | FileBytes b \<Rightarrow> decode b)"

definition list_reply :: "(string \<Rightarrow> 'a list option) \<Rightarrow> (string \<Rightarrow> file_read) \<Rightarrow> string \<Rightarrow> string \<Rightarrow> manager \<Rightarrow> reply \<times> (server \<times> 'a list) option" where
  "list_reply decode files file name m =
     (case requireMounted name m of
        Inl r \<Rightarrow> (r, None)
      | Inr (_, srv) \<Rightarrow>
          (case readJSONFile decode (files (path_Join [srv_Path srv, file])) of
             None \<Rightarrow> (reply_error 500 ''internal'', None)
           | Some es \<Rightarrow> (reply_ok 200, Some (srv, es))))"

record whitelist_entry =
  we_UUID :: string
  we_Name :: string

definition readPropsAt :: "string \<Rightarrow> string dir \<Rightarrow> (string \<rightharpoonup> string)" where
  "readPropsAt dir d = (case ReadProperties (PropertiesPath dir) d of Inl _ \<Rightarrow> Map.empty | Inr props \<Rightarrow> props)"

definition handleWhitelistGet ::
  "(string \<Rightarrow> whitelist_entry list option) \<Rightarrow> (string \<Rightarrow> file_read) \<Rightarrow> string dir \<Rightarrow> string \<Rightarrow> manager \<Rightarrow>
   reply \<times> (bool \<times> whitelist_entry list) option" where
  "handleWhitelistGet decode files d name m =
     (case list_reply decode files ''whitelist.json'' name m of
        (r, None) \<Rightarrow> (r, None)
      | (r, Some (srv, es)) \<Rightarrow> (r, Some (readPropsAt (srv_Path srv) d ''white-list'' = Some ''true'', es)))"

record banned_player =
  bp_UUID :: string
  bp_Name :: string
  bp_Created :: string
  bp_Source :: string
  bp_Expires :: string
  bp_Reason :: string

record banned_ip =
  bi_IP :: string
  bi_Created :: string
  bi_Source :: string
  bi_Expires :: string
  bi_Reason :: string

definition handleBanlistGet ::
  "(string \<Rightarrow> banned_player list option) \<Rightarrow> (string \<Rightarrow> file_read) \<Rightarrow> string \<Rightarrow> manager \<Rightarrow> reply \<times> banned_player list option" where
  "handleBanlistGet decode files name m =
     (case list_reply decode files ''banned-players.json'' name m of (r, x) \<Rightarrow> (r, map_option snd x))"

definition handleBanlistIPsGet ::
  "(string \<Rightarrow> banned_ip list option) \<Rightarrow> (string \<Rightarrow> file_read) \<Rightarrow> string \<Rightarrow> manager \<Rightarrow> reply \<times> banned_ip list option" where
  "handleBanlistIPsGet decode files name m =
     (case list_reply decode files ''banned-ips.json'' name m of (r, x) \<Rightarrow> (r, map_option snd x))"

subsection \<open>Peers\<close>

definition handlePeersList :: "pool option \<Rightarrow> reply \<times> peer_status list" where
  "handlePeersList p = (reply_ok 200, case p of None \<Rightarrow> [] | Some pl \<Rightarrow> pool_Status pl)"

definition handlePeersRefresh :: "(peer_error \<Rightarrow> string) \<Rightarrow> ping list \<Rightarrow> pool option \<Rightarrow> (reply \<times> peer_status list) \<times> pool option" where
  "handlePeersRefresh err_text pings p =
     (case p of
        None \<Rightarrow> ((reply_ok 200, []), None)
      | Some pl \<Rightarrow> (let pl' = PingAll err_text pings pl in ((reply_ok 200, pool_Status pl'), Some pl')))"

subsection \<open>What the log reply holds\<close>

text \<open>Levels are compared without regard to case; a line without a level is always kept.\<close>

lemma lower_char_idem: "lower_char (lower_char c) = lower_char c"
proof (cases "65 \<le> (of_char c :: nat) \<and> (of_char c :: nat) \<le> 90")
  case True
  then have "(of_char c :: nat) + 32 < 256" by simp
  then have "of_char (char_of ((of_char c :: nat) + 32) :: char) = (of_char c :: nat) + 32" by simp
  then show ?thesis using True by (simp add: lower_char_def)
qed (auto simp: lower_char_def)

lemma ToLower_idem: "ToLower (ToLower s) = ToLower s"
  by (simp add: ToLower_def lower_char_idem)

lemma keep_entry_levels:
  "keep_entry 0 levels e \<longleftrightarrow> levels = [] \<or> le_Level e = [] \<or> (\<exists>want\<in>set levels. EqualFold want (le_Level e))"
  using ToLower_idem by (auto simp: keep_entry_def EqualFold_def is_zero_def)

lemma Tail_captured:
  "rb_Tail n (fold rb_push ls (newRingBuffer c)) = last_n (nat n) (last_n (nat (max 1 c)) ls)"
  by (simp add: rb_Tail_last_n RingBuffer.ring.ok_fold rb_ok_new RingBuffer.ring.view_fold rb_view_new rb_cap_new)

text \<open>
  The log reply for a mounted process, from its first captured line: with \<open>tail=n\<close> it holds, parsed and
  in order, the last \<open>min n 2000\<close> lines the process has written, less those whose level is
  none of the wanted ones (in whatever case; lines without a level are kept).  Its
  \<open>truncated\<close> flag is never set, because the buffer holds fewer lines than the flag asks for.
\<close>

theorem logs_are_latest_output:
  assumes "mg_slots m name = Some s" and "s_process s = Some p" and "procs p = Some pr"
    and "pr_logs pr = fold rb_push ls (newRingBuffer defaultLogCap)" and "Atoi t = Some n" and "1 \<le> n"
  shows "handleServerLogs parse_time zone name \<lparr>lq_tail = t, lq_since = [], lq_levels = levels\<rparr> m procs
    = (reply_ok 200,
       Some (filter (\<lambda>e. levels = [] \<or> le_Level e = [] \<or> (\<exists>want\<in>set levels. EqualFold want (le_Level e)))
               (map (\<lambda>l. Parse zone (ll_text l) (ll_at l)) (last_n (nat (min n 2000)) ls)), False))"
proof -
  have t: "t \<noteq> []" using assms(5) by (auto simp: Atoi_def)
  define k where "k = (if maxTail < n then maxTail else n)"
  have q: "query_tail t = Inr k" using t assms(5,6) by (simp add: query_tail_def k_def)
  have "slot_Logs k s procs = last_n (nat k) (last_n 2000 ls)"
    by (simp add: slot_Logs_def assms(2,3,4) Logs_def Tail_captured defaultLogCap_def)
  also have "\<dots> = last_n (nat (min n 2000)) ls"
    by (simp add: last_n_last_n k_def maxTail_def min_def nat_le_iff)
  finally have raw: "slot_Logs k s procs = last_n (nat (min n 2000)) ls" .
  have "int (length (last_n (nat (min n 2000)) ls)) < maxTail"
    by (simp add: maxTail_def)
  moreover have "keep_entry 0 levels = (\<lambda>e. levels = [] \<or> le_Level e = [] \<or> (\<exists>want\<in>set levels. EqualFold want (le_Level e)))"
    by (rule ext) (rule keep_entry_levels)
  ultimately show ?thesis
    using assms(1) t q raw by (simp add: handleServerLogs_def query_time_def is_zero_def Let_def)
qed

theorem logs_are_latest_output_witness:
  "handleServerLogs (\<lambda>_. None) 0 ''a'' \<lparr>lq_tail = ''1'', lq_since = [], lq_levels = []\<rparr>
      \<lparr>mg_slots = [''a'' \<mapsto> y_slot run2], mg_order = [''a'']\<rparr>
      [0 \<mapsto> demo_process\<lparr>pr_logs := fold rb_push [\<lparr>ll_at = 1, ll_stream = [], ll_text = ''x''\<rparr>, \<lparr>ll_at = 2, ll_stream = [], ll_text = ''y''\<rparr>]
          (newRingBuffer defaultLogCap)\<rparr>]
     = (reply_ok 200, Some ([Parse 0 ''y'' 2], False))"
proof -
  have "Atoi ''1'' = Some 1" by code_simp
  then show ?thesis
    using logs_are_latest_output [where t = "''1''" and n = 1 and name = "''a''" and p = 0 and s = "y_slot run2" and levels = "[]"
        and ls = "[\<lparr>ll_at = 1, ll_stream = [], ll_text = ''x''\<rparr>, \<lparr>ll_at = 2, ll_stream = [], ll_text = ''y''\<rparr>]"]
    by (simp add: run2_slot last_n_def)
qed

end
