(* ===== verification/Host.thy ===== *)
theory Host
  imports ServerApi History Complex_Main
begin

text \<open>
  Host measurements: \<open>internal/system/resources_linux.go\<close>, \<open>temperature.go\<close> and the handlers of
  \<open>internal/api/handlers_system.go\<close>.  Counters are 64-bit words, as in the source; a percentage is the
  exact quotient, where the source rounds to a \<open>float64\<close>.  The lines of a file are what the scanner
  yields, \<open>None\<close> when it cannot be opened.
\<close>

subsection \<open>Resources\<close>

record memory =
  me_TotalBytes :: u64
  me_UsedBytes :: u64
  me_UsedP :: rat

text \<open>\<open>n, _ := strconv.ParseUint(s, 10, 64)\<close>: an error leaves zero, one of range the largest value.\<close>

definition parse_counter :: "string \<Rightarrow> u64" where
  "parse_counter s =
     (if s = [] \<or> \<not> list_all is_digit s then 0
      else if 2 ^ 64 \<le> digits_val s then - 1 else word_of_int (digits_val s))"

definition parseKB :: "string \<Rightarrow> u64" where
  "parseKB line = (let parts = Fields line in if length parts < 2 then 0 else parse_counter (parts ! 1) * 1024)"

fun meminfo_loop :: "string list \<Rightarrow> u64 \<Rightarrow> u64 \<Rightarrow> u64 \<times> u64" where
  "meminfo_loop [] tot avail = (tot, avail)"
| "meminfo_loop (line # ls) tot avail =
     (let tot' = (if HasPrefix line ''MemTotal:'' then parseKB line else tot);
          avail' = (if HasPrefix line ''MemTotal:'' then avail
                    else if HasPrefix line ''MemAvailable:'' then parseKB line else avail)
      in if tot' \<noteq> 0 \<and> avail' \<noteq> 0 then (tot', avail') else meminfo_loop ls tot' avail')"

definition percent :: "u64 \<Rightarrow> u64 \<Rightarrow> rat" where
  "percent used tot = of_nat (unat used) * 100 / of_nat (unat tot)"

definition readMeminfo :: "string list option \<Rightarrow> memory option" where
  "readMeminfo lines =
     map_option (\<lambda>ls. case meminfo_loop ls 0 0 of (tot, avail) \<Rightarrow>
        \<lparr>me_TotalBytes = tot, me_UsedBytes = tot - avail,
         me_UsedP = (if 0 < tot then percent (tot - avail) tot else 0)\<rparr>) lines"

definition readLoadavg :: "(string \<Rightarrow> rat) \<Rightarrow> string option \<Rightarrow> (rat \<times> rat \<times> rat) option" where
  "readLoadavg parse_float body =
     map_option (\<lambda>b. let parts = Fields b
        in if length parts < 3 then (0, 0, 0)
           else (parse_float (parts ! 0), parse_float (parts ! 1), parse_float (parts ! 2))) body"

record cpuTimes =
  ct_user :: u64
  ct_nice :: u64
  ct_system :: u64
  ct_idle :: u64
  ct_iowait :: u64
  ct_irq :: u64
  ct_softirq :: u64
  ct_steal :: u64

definition readCPUTimes :: "string list option \<Rightarrow> cpuTimes option" where
  "readCPUTimes lines =
     map_option (\<lambda>ls. let fields = (case ls of [] \<Rightarrow> [] | l # _ \<Rightarrow> Fields l);
                          fld = (\<lambda>i. if length fields < 9 then 0 else parse_counter (fields ! i))
        in \<lparr>ct_user = fld 1, ct_nice = fld 2, ct_system = fld 3, ct_idle = fld 4, ct_iowait = fld 5,
            ct_irq = fld 6, ct_softirq = fld 7, ct_steal = fld 8\<rparr>) lines"

definition cpu_total :: "cpuTimes \<Rightarrow> u64" where
  "cpu_total a = ct_user a + ct_nice a + ct_system a + ct_idle a + ct_iowait a + ct_irq a + ct_softirq a + ct_steal a"

definition cpu_idle :: "cpuTimes \<Rightarrow> u64" where
  "cpu_idle a = ct_idle a + ct_iowait a"

text \<open>Two readings, 200 ms apart.\<close>

definition cpu_usage :: "cpuTimes \<Rightarrow> cpuTimes \<Rightarrow> rat" where
  "cpu_usage a b =
     (let totalDelta = cpu_total b - cpu_total a; idleDelta = cpu_idle b - cpu_idle a
      in if totalDelta = 0 then 0 else percent (totalDelta - idleDelta) totalDelta)"

definition readCPUUsage :: "string list option \<Rightarrow> string list option \<Rightarrow> rat option" where
  "readCPUUsage first second' =
     (case readCPUTimes first of None \<Rightarrow> None | Some a \<Rightarrow>
     (case readCPUTimes second' of None \<Rightarrow> None | Some b \<Rightarrow> Some (cpu_usage a b)))"

record disk =
  dk_Mount :: string
  dk_TotalBytes :: u64
  dk_UsedBytes :: u64
  dk_UsedP :: rat

text \<open>\<open>statfs\<close> gives the block size, the blocks and the blocks available to the caller.\<close>

definition statfsAt :: "(string \<Rightarrow> (u64 \<times> u64 \<times> u64) option) \<Rightarrow> string \<Rightarrow> disk option" where
  "statfsAt statfs path =
     (let p = (if path = [] then ''/'' else path)
      in case statfs p of
           None \<Rightarrow> None
         | Some (bs, blocks, bavail) \<Rightarrow>
             (let tot = blocks * bs; used = tot - bavail * bs
              in Some \<lparr>dk_Mount = p, dk_TotalBytes = tot, dk_UsedBytes = used,
                       dk_UsedP = (if 0 < tot then percent used tot else 0)\<rparr>))"

record resources =
  rc_Cores :: nat
  rc_UsedP :: rat
  rc_Mem :: memory
  rc_Load :: "rat \<times> rat \<times> rat"
  rc_Disk :: "disk list"

text \<open>What the host shows: the files, the two readings of \<open>/proc/stat\<close> and \<open>statfs\<close>.\<close>

record host_view =
  hv_cores :: nat
  hv_meminfo :: "string list option"
  hv_loadavg :: "string option"
  hv_stat1 :: "string list option"
  hv_stat2 :: "string list option"
  hv_statfs :: "string \<Rightarrow> (u64 \<times> u64 \<times> u64) option"

definition SampleResources :: "(string \<Rightarrow> rat) \<Rightarrow> host_view \<Rightarrow> string \<Rightarrow> resources" where
  "SampleResources parse_float v dataDir =
     \<lparr>rc_Cores = hv_cores v,
      rc_UsedP = (case readCPUUsage (hv_stat1 v) (hv_stat2 v) of None \<Rightarrow> 0 | Some u \<Rightarrow> u),
      rc_Mem = (case readMeminfo (hv_meminfo v) of
                  None \<Rightarrow> \<lparr>me_TotalBytes = 0, me_UsedBytes = 0, me_UsedP = 0\<rparr> | Some m \<Rightarrow> m),
      rc_Load = (case readLoadavg parse_float (hv_loadavg v) of None \<Rightarrow> (0, 0, 0) | Some l \<Rightarrow> l),
      rc_Disk = (case statfsAt (hv_statfs v) dataDir of None \<Rightarrow> [] | Some d \<Rightarrow> [d])\<rparr>"

definition handleSystemResources :: "(string \<Rightarrow> rat) \<Rightarrow> host_view \<Rightarrow> string \<Rightarrow> reply \<times> resources" where
  "handleSystemResources parse_float v dataDir = (reply_ok 200, SampleResources parse_float v dataDir)"

subsection \<open>Temperature\<close>

record 'f sample =
  sm_At :: time
  sm_Celsius :: 'f

record 'f temperature =
  tm_sensor :: string
  tm_interval :: duration
  tm_historyN :: nat
  tm_last :: "'f sample option"
  tm_history :: "'f sample list"

definition tm_append :: "'f sample \<Rightarrow> 'f temperature \<Rightarrow> 'f temperature" where
  "tm_append s t = t\<lparr>tm_last := Some s, tm_history := shift_append (tm_historyN t) (tm_history t) s\<rparr>"

text \<open>
  One reading: the contents of the sensor file, \<open>None\<close> when it cannot be read.  \<open>milli n\<close> is
  \<open>n / 1000\<close> and \<open>parse_float\<close> the parser of floats.  The flag says whether it succeeded.
\<close>

definition tm_sample ::
  "(int \<Rightarrow> 'f) \<Rightarrow> (string \<Rightarrow> 'f option) \<Rightarrow> string option \<Rightarrow> time \<Rightarrow> 'f temperature \<Rightarrow> bool \<times> 'f temperature" where
  "tm_sample milli parse_float contents now t =
     (case contents of
        None \<Rightarrow> (False, t)
      | Some c \<Rightarrow>
          (let s = TrimSpace c
           in case (case Atoi s of Some n \<Rightarrow> Some (milli n) | None \<Rightarrow> parse_float s) of
                None \<Rightarrow> (False, t)
              | Some v \<Rightarrow> (True, tm_append \<lparr>sm_At = now, sm_Celsius = v\<rparr> t)))"

definition NewTemperature ::
  "(int \<Rightarrow> 'f) \<Rightarrow> (string \<Rightarrow> 'f option) \<Rightarrow> string option \<Rightarrow> time \<Rightarrow> string \<Rightarrow> duration \<Rightarrow> int \<Rightarrow> bool \<times> 'f temperature option" where
  "NewTemperature milli parse_float contents now sensor interval historyN =
     (if sensor = [] then (False, None)
      else let t = \<lparr>tm_sensor = sensor, tm_interval = (if interval \<le> 0 then 30 * second else interval),
                    tm_historyN = (if historyN \<le> 0 then 60 else nat historyN), tm_last = None, tm_history = []\<rparr>
           in case tm_sample milli parse_float contents now t of (done', t') \<Rightarrow> (done', Some t'))"

definition handleSystemTemperature :: "'f temperature option \<Rightarrow> reply \<times> (string \<times> 'f sample option \<times> 'f sample list) option" where
  "handleSystemTemperature t =
     (case t of
        None \<Rightarrow> (reply_error 503 ''internal'', None)
      | Some t \<Rightarrow> (reply_ok 200, Some (tm_sensor t, tm_last t, tm_history t)))"

definition tm_ok :: "'f temperature \<Rightarrow> bool" where
  [inv_defs]: "tm_ok t \<longleftrightarrow> 0 < tm_historyN t \<and> length (tm_history t) \<le> tm_historyN t"

interpretation temps: recent_history tm_historyN tm_history tm_append tm_ok
  by unfold_locales (auto simp: tm_append_def tm_ok_def shift_append_last_n length_shift_append)

text \<open>The history of a sampler is its most recent successful readings, never more than it was made for.\<close>

lemma temperature_history:
  "tm_ok t \<Longrightarrow> tm_history (fold tm_append ss t) = last_n (tm_historyN t) (tm_history t @ ss)
     \<and> length (tm_history (fold tm_append ss t)) \<le> tm_historyN t"
  using temps.view_fold temps.fold_bound by blast

subsection \<open>Percentages\<close>

lemma quotient_bounds:
  assumes "m \<le> n" and "0 < n"
  shows "0 \<le> of_nat m * 100 / (of_nat n :: rat) \<and> of_nat m * 100 / (of_nat n :: rat) \<le> 100"
  using assms by (simp add: divide_le_eq)

lemma percent_bounds: "used \<le> tot \<Longrightarrow> 0 < tot \<Longrightarrow> 0 \<le> percent used tot \<and> percent used tot \<le> 100"
  unfolding percent_def word_le_nat_alt word_less_nat_alt unat_0 by (rule quotient_bounds)

lemma quotient_share:
  assumes "n \<noteq> 0" and "d \<le> n"
  shows "of_nat (n - d) * 100 / (of_nat n :: rat) * of_nat n = 100 * (of_nat n - of_nat d)"
  using assms by (simp add: of_nat_diff)

definition cpu_counters :: "cpuTimes \<Rightarrow> nat list" where
  "cpu_counters a = map unat [ct_user a, ct_nice a, ct_system a, ct_idle a, ct_iowait a, ct_irq a, ct_softirq a, ct_steal a]"

lemma unat_sum_words:
  assumes "sum_list (map unat ws) < 2 ^ 64"
  shows "unat (sum_list (ws :: u64 list)) = sum_list (map unat ws)"
  using assms
proof (induction ws)
  case (Cons w ws)
  then show ?case by (simp add: unat_word_ariths)
qed simp

lemma cpu_total_unat:
  assumes "sum_list (cpu_counters a) < 2 ^ 64"
  shows "unat (cpu_total a) = sum_list (cpu_counters a)" and "unat (cpu_idle a) = unat (ct_idle a) + unat (ct_iowait a)"
proof -
  have "cpu_total a = sum_list [ct_user a, ct_nice a, ct_system a, ct_idle a, ct_iowait a, ct_irq a, ct_softirq a, ct_steal a]"
    by (simp add: cpu_total_def add.assoc)
  then show "unat (cpu_total a) = sum_list (cpu_counters a)"
    using unat_sum_words [of "[ct_user a, ct_nice a, ct_system a, ct_idle a, ct_iowait a, ct_irq a, ct_softirq a, ct_steal a]"] assms
    by (simp add: cpu_counters_def)
  have "unat (ct_idle a) + unat (ct_iowait a) < 2 ^ 64" using assms by (simp add: cpu_counters_def)
  then show "unat (cpu_idle a) = unat (ct_idle a) + unat (ct_iowait a)"
    by (simp add: cpu_idle_def unat_word_ariths)
qed

text \<open>
  C36: the CPU usage is a percentage as long as no counter goes back between the two readings and their
  sum fits 64 bits; and it is 100 times the share of the time that was not idle.
\<close>

theorem cpu_usage_is_a_percentage:
  assumes "list_all2 (\<le>) (cpu_counters a) (cpu_counters b)" and "sum_list (cpu_counters b) < 2 ^ 64"
  shows "0 \<le> cpu_usage a b \<and> cpu_usage a b \<le> 100
    \<and> cpu_usage a b * of_nat (sum_list (cpu_counters b) - sum_list (cpu_counters a))
        = 100 * (of_nat (sum_list (cpu_counters b) - sum_list (cpu_counters a))
                 - of_nat (unat (ct_idle b) + unat (ct_iowait b) - (unat (ct_idle a) + unat (ct_iowait a))))"
proof -
  let ?s = "\<lambda>c. sum_list (cpu_counters c)" and ?i = "\<lambda>c. unat (ct_idle c) + unat (ct_iowait c)"
  have le: "?s a \<le> ?s b" "?i a \<le> ?i b" "?i b - ?i a \<le> ?s b - ?s a"
    using assms(1) by (auto simp: cpu_counters_def)
  have a: "unat (cpu_total a) = ?s a" "unat (cpu_idle a) = ?i a" and b: "unat (cpu_total b) = ?s b" "unat (cpu_idle b) = ?i b"
    using cpu_total_unat [of a] cpu_total_unat [of b] assms(2) le(1) by simp_all
  let ?t = "cpu_total b - cpu_total a" and ?d = "cpu_idle b - cpu_idle a"
  have t: "unat ?t = ?s b - ?s a" and d: "unat ?d = ?i b - ?i a"
    using a b le by (simp_all add: unat_sub word_le_nat_alt)
  have dt: "?d \<le> ?t" using t d le(3) by (simp add: word_le_nat_alt)
  then have busy: "unat (?t - ?d) = unat ?t - unat ?d" "?t - ?d \<le> ?t"
    by (simp_all add: unat_sub word_le_nat_alt)
  show ?thesis
  proof (cases "?t = 0")
    case True
    then have "?s b - ?s a = 0" using t by simp
    then show ?thesis using True le(3) by (simp add: cpu_usage_def)
  next
    case False
    then have pos: "0 < ?t" by (simp only: word_gt_0)
    have u: "cpu_usage a b = percent (?t - ?d) ?t" using False by (simp add: cpu_usage_def Let_def)
    have "unat ?t \<noteq> 0" "unat ?d \<le> unat ?t" using pos dt by (simp_all add: word_le_nat_alt word_less_nat_alt)
    then have "percent (?t - ?d) ?t * of_nat (unat ?t) = 100 * (of_nat (unat ?t) - of_nat (unat ?d))"
      unfolding percent_def busy(1) by (rule quotient_share)
    then show ?thesis
      using percent_bounds [OF busy(2) pos] unfolding u by (simp only: t d)
  qed
qed

definition two_counters :: "u64 \<Rightarrow> u64 \<Rightarrow> cpuTimes" where
  "two_counters u i = \<lparr>ct_user = u, ct_nice = 0, ct_system = 0, ct_idle = i, ct_iowait = 0, ct_irq = 0, ct_softirq = 0, ct_steal = 0\<rparr>"

theorem cpu_usage_is_a_percentage_witness: "cpu_usage (two_counters 10 20) (two_counters 40 90) = 30"
proof -
  have c: "cpu_counters (two_counters 10 20) = [10, 0, 0, 20, 0, 0, 0, 0]" "cpu_counters (two_counters 40 90) = [40, 0, 0, 90, 0, 0, 0, 0]"
    by (simp_all add: cpu_counters_def two_counters_def)
  have "cpu_usage (two_counters 10 20) (two_counters 40 90) * 100 = 100 * (100 - 70)"
    using cpu_usage_is_a_percentage [of "two_counters 10 20" "two_counters 40 90"] by (simp add: c) (simp add: two_counters_def)
  then show ?thesis by simp
qed

end
