(* ===== verification/Loops.thy ===== *)
theory Loops
  imports Discovery Peers Host AuditLog
begin

text \<open>
  The loops the daemon runs in the background, each a goroutine with a ticker: \<open>Store.Run\<close>
  (\<open>internal/discovery/store.go\<close>), \<open>Pool.Run\<close> (\<open>internal/peers/pool.go\<close>), \<open>Temperature.Run\<close>
  (\<open>internal/system/temperature.go\<close>) and \<open>Logger.RunJanitor\<close> (\<open>internal/audit/audit.go\<close>).  A loop is a
  function of what its \<open>select\<close> statement takes, one after the other; the contract of a round is a
  locale, and what a loop keeps and shows is proved once in it.
\<close>

subsection \<open>Tickers\<close>

datatype 'e tick =
    Tick 'e      \<comment> \<open>the ticker fires; with what the round meets\<close>
  | CtxDone

datatype loop_end = StillWaits | LoopReturns | LoopPanics

fun ticker_loop :: "('e \<Rightarrow> 's \<Rightarrow> 's) \<Rightarrow> 'e tick list \<Rightarrow> 's \<Rightarrow> 's \<times> loop_end" where
  "ticker_loop turn [] s = (s, StillWaits)"
| "ticker_loop turn (CtxDone # evs) s = (s, LoopReturns)"
| "ticker_loop turn (Tick e # evs) s = ticker_loop turn evs (turn e s)"

text \<open>\<open>time.NewTicker\<close> panics when the interval is not positive; in a goroutine that ends the process.\<close>

definition ticker_panics :: "duration \<Rightarrow> bool" where
  "ticker_panics d \<longleftrightarrow> d \<le> 0"

definition with_ticker :: "duration \<Rightarrow> ('e \<Rightarrow> 's \<Rightarrow> 's) \<Rightarrow> 'e tick list \<Rightarrow> 's \<Rightarrow> 's \<times> loop_end" where
  "with_ticker d turn evs s = (if ticker_panics d then (s, LoopPanics) else ticker_loop turn evs s)"

subsection \<open>The loops of the daemon\<close>

definition store_round :: "host_fs \<times> time \<Rightarrow> store \<Rightarrow> store" where
  "store_round e s = snd (store_Refresh (fst e) (snd e) s)"

definition store_Run :: "duration \<Rightarrow> host_fs \<times> time \<Rightarrow> (host_fs \<times> time) tick list \<Rightarrow> store \<Rightarrow> store \<times> loop_end" where
  "store_Run interval first evs s = with_ticker interval store_round evs (store_round first s)"

definition pool_Run ::
    "(peer_error \<Rightarrow> string) \<Rightarrow> duration \<Rightarrow> ping list \<Rightarrow> ping list tick list \<Rightarrow> pool \<Rightarrow> pool \<times> loop_end" where
  "pool_Run err_text interval first evs p =
     (if pl_clients p = [] then (p, LoopReturns)
      else with_ticker interval (PingAll err_text) evs (PingAll err_text first p))"

text \<open>A round of the sampler: the contents of the sensor and the time.\<close>

definition temp_round ::
    "(int \<Rightarrow> 'f) \<Rightarrow> (string \<Rightarrow> 'f option) \<Rightarrow> string option \<times> time \<Rightarrow> 'f temperature \<Rightarrow> 'f temperature" where
  "temp_round milli parse_float e t = snd (tm_sample milli parse_float (fst e) (snd e) t)"

definition temp_Run ::
    "(int \<Rightarrow> 'f) \<Rightarrow> (string \<Rightarrow> 'f option) \<Rightarrow> (string option \<times> time) tick list \<Rightarrow> 'f temperature \<Rightarrow>
     'f temperature \<times> loop_end" where
  "temp_Run milli parse_float evs t = with_ticker (tm_interval t) (temp_round milli parse_float) evs t"

text \<open>
  A round of the janitor: the time, the files that cannot be deleted, and what was written since the
  round before.
\<close>

definition janitor_round ::
    "logger \<Rightarrow> time \<times> (string \<Rightarrow> bool) \<times> (audit_file list \<Rightarrow> audit_file list) \<Rightarrow> audit_file list \<Rightarrow> audit_file list" where
  "janitor_round lg e files = (case e of (now, undeletable, written) \<Rightarrow> gc now lg undeletable (written files))"

definition RunJanitor ::
    "logger \<Rightarrow> time \<times> (string \<Rightarrow> bool) \<times> (audit_file list \<Rightarrow> audit_file list) \<Rightarrow>
     (time \<times> (string \<Rightarrow> bool) \<times> (audit_file list \<Rightarrow> audit_file list)) tick list \<Rightarrow> audit_file list \<Rightarrow>
     audit_file list \<times> loop_end" where
  "RunJanitor lg first evs files = with_ticker (24 * 3600 * second) (janitor_round lg) evs (janitor_round lg first files)"

subsection \<open>The contract of a round\<close>

text \<open>The rounds a loop makes: the ticks before its context ends.\<close>

fun rounds :: "'e tick list \<Rightarrow> 'e list" where
  "rounds [] = []"
| "rounds (CtxDone # evs) = []"
| "rounds (Tick e # evs) = e # rounds evs"

lemma ticker_loop_fold: "fst (ticker_loop turn evs s) = fold turn (rounds evs) s"
  by (induction turn evs s rule: ticker_loop.induct) simp_all

lemma ticker_loop_end: "snd (ticker_loop turn evs s) = (if CtxDone \<in> set evs then LoopReturns else StillWaits)"
  by (induction turn evs s rule: ticker_loop.induct) simp_all

lemma with_ticker_simps [simp]:
  "0 < d \<Longrightarrow> fst (with_ticker d turn evs s) = fold turn (rounds evs) s"
  "0 < d \<Longrightarrow> snd (with_ticker d turn evs s) = (if CtxDone \<in> set evs then LoopReturns else StillWaits)"
  "d \<le> 0 \<Longrightarrow> with_ticker d turn evs s = (s, LoopPanics)"
  by (simp_all add: with_ticker_def ticker_panics_def ticker_loop_fold ticker_loop_end)

lemma last_turn:
  "fold turn (rounds evs) (turn first s) = turn (last (first # rounds evs)) (fold turn (butlast (first # rounds evs)) s)"
proof -
  have "fold turn (rounds evs) (turn first s) = fold turn (butlast (first # rounds evs) @ [last (first # rounds evs)]) s"
    by (subst append_butlast_last_id) simp_all
  then show ?thesis by simp
qed

locale periodic =
  fixes turn :: "'e \<Rightarrow> 's \<Rightarrow> 's"
    and ok :: "'s \<Rightarrow> bool"
  assumes ok_round: "ok s \<Longrightarrow> ok (turn e s)"
begin

lemma ok_rounds: "ok s \<Longrightarrow> ok (fold turn es s)"
  by (induction es arbitrary: s) (simp_all add: ok_round)

lemma loop_keeps: "ok s \<Longrightarrow> ok (fst (with_ticker d turn evs s))"
  by (cases "0 < d") (simp_all add: ok_rounds)

text \<open>A loop that is cancelled returns, and nothing it would have received later changes its state.\<close>

lemma cancelled_loop_returns:
  "0 < d \<Longrightarrow> with_ticker d turn (evs @ CtxDone # later) s = with_ticker d turn (evs @ [CtxDone]) s
     \<and> snd (with_ticker d turn (evs @ CtxDone # later) s) = LoopReturns"
proof -
  have "rounds (evs @ CtxDone # later) = rounds (evs @ [CtxDone])"
    by (induction evs rule: rounds.induct) simp_all
  then show "0 < d \<Longrightarrow> ?thesis" by (simp add: prod_eq_iff)
qed

end

text \<open>A loop whose rounds replace what it shows: what is shown depends on a fixed part of the state only.\<close>

locale refreshing = periodic turn ok
  for turn :: "'e \<Rightarrow> 's \<Rightarrow> 's" and ok :: "'s \<Rightarrow> bool" +
  fixes fixed :: "'s \<Rightarrow> 'c"
    and shown :: "'s \<Rightarrow> 'v"
    and result :: "'c \<Rightarrow> 'e \<Rightarrow> 'v"
  assumes fixed_round: "fixed (turn e s) = fixed s"
    and shown_round: "shown (turn e s) = result (fixed s) e"
begin

lemma fixed_rounds: "fixed (fold turn es s) = fixed s"
  by (induction es arbitrary: s) (simp_all add: fixed_round)

lemma loop_shows: "0 < d \<Longrightarrow> shown (fst (with_ticker d turn evs (turn first s))) = result (fixed s) (last (first # rounds evs))"
  by (simp only: with_ticker_simps(1) last_turn shown_round fixed_rounds)

end

subsection \<open>Each loop keeps the contract\<close>

interpretation scans: refreshing store_round "\<lambda>_. True" "\<lambda>s. (st_roots s, st_instance s, st_thr s)" st_cur
    "\<lambda>(roots, inst, thr) (fs, now). Scan fs now roots inst thr"
  by unfold_locales (auto simp: store_round_def store_Refresh_def Let_def split: prod.split)

interpretation pings: periodic "PingAll f" "pool_ok names" for f names
  by unfold_locales (rule PingAll_ok)

lemma temp_round_ok: "tm_ok t \<Longrightarrow> tm_ok (temp_round milli pf e t)"
  by (auto simp: temp_round_def tm_sample_def Let_def intro: temps.ok_push split: option.split)

interpretation samples: periodic "temp_round milli pf" tm_ok for milli pf
  by unfold_locales (rule temp_round_ok)

text \<open>
  While the loop of the store runs, the catalog is the result of the last scan that was made, from the
  first one on; so it lists a server under each identifier at most once, and it is never the empty
  catalog the store was made with.
\<close>

theorem catalog_is_the_last_scan:
  assumes "0 < interval" and "store_Run interval first evs (NewStore roots inst) = (s, e)"
  shows "st_cur s = (case last (first # rounds evs) of (fs, now) \<Rightarrow> Scan fs now roots inst DefaultStaleAfter)
    \<and> e = (if CtxDone \<in> set evs then LoopReturns else StillWaits)"
  using scans.loop_shows [OF assms(1), of evs first "NewStore roots inst"] assms
  by (simp add: store_Run_def NewStore_def prod_eq_iff)

theorem catalog_is_the_last_scan_witness:
  "st_cur (fst (store_Run 60 (demo_fs, 1) [Tick (demo_fs, 61), CtxDone, Tick (demo_fs, 121)] (NewStore [''/srv''] ''i'')))
   = Scan demo_fs 61 [''/srv''] ''i'' DefaultStaleAfter"
  using catalog_is_the_last_scan [of 60 "(demo_fs, 1)" "[Tick (demo_fs, 61), CtxDone, Tick (demo_fs, 121)]" "[''/srv'']" "''i''"]
  by (metis (no_types, lifting) last.simps list.distinct(1) old.prod.case prod.collapse rounds.simps zero_less_numeral)

text \<open>
  Whatever the peers answer and for as long as the pool runs, its list of statuses has every configured
  peer once, sorted by name.  A pool without peers returns at once, and makes no ticker.
\<close>

theorem statuses_stay_complete:
  assumes "distinct (map pc_Name cfgs)" and "pool_Run f interval first evs (NewPool timeout cfgs) = (p, e)"
  shows "map ps_Name (pool_Status p) = sort (map pc_Name cfgs) \<and> (cfgs = [] \<longrightarrow> e = LoopReturns)"
proof -
  have ok: "pool_ok (map pc_Name cfgs) (NewPool timeout cfgs)" by (rule NewPool_ok) fact
  have "pool_ok (map pc_Name cfgs) p"
    using assms(2) ok pings.loop_keeps [OF PingAll_ok [OF ok], of interval f evs f first]
    by (auto simp: pool_Run_def split: if_splits)
  then have "map ps_Name (pool_Status p) = sort (map pc_Name cfgs)"
    by (simp add: pool_Status_names pool_ok_names)
  then show ?thesis using assms(2) by (auto simp: pool_Run_def NewPool_def)
qed

theorem statuses_stay_complete_witness:
  "map ps_Name (pool_Status (fst (pool_Run (\<lambda>_. ''e'') 30 [] [Tick demo_pings, CtxDone] (NewPool 0 demo_peers)))) = [''a'', ''b'']"
proof -
  have "distinct (map pc_Name demo_peers)" by (simp add: demo_peers_def)
  from statuses_stay_complete [OF this prod.collapse [symmetric]] show ?thesis by (simp add: demo_peers_def)
qed

text \<open>
  The sampler never stops by itself: its history stays within the capacity, whatever the sensor's file
  holds, and its interval is never one for which a ticker panics.
\<close>

lemma NewTemperature_ok:
  "NewTemperature milli pf contents now sensor interval n = (b, Some t) \<Longrightarrow> tm_ok t \<and> 0 < tm_interval t"
  by (auto simp: NewTemperature_def Let_def tm_sample_def tm_append_def tm_ok_def shift_append_def
      split: if_splits prod.splits option.splits)

theorem sampler_runs_until_cancelled:
  assumes "NewTemperature milli pf contents now sensor interval n = (b, Some t)" and "temp_Run milli pf evs t = (t', e)"
  shows "length (tm_history t') \<le> tm_historyN t' \<and> e = (if CtxDone \<in> set evs then LoopReturns else StillWaits)"
proof -
  note t = NewTemperature_ok [OF assms(1)]
  then have "tm_ok t'"
    using samples.loop_keeps [of t "tm_interval t" milli pf evs] assms(2) unfolding temp_Run_def by (metis fst_conv)
  then show ?thesis
    using t assms(2) by (auto simp: temp_Run_def tm_ok_def prod_eq_iff)
qed

theorem sampler_runs_until_cancelled_witness:
  "\<exists>t. NewTemperature of_int (\<lambda>_. None) (Some ''42000'') 0 ''/s'' 0 1 = (True, Some (t :: rat temperature))
     \<and> length (tm_history (fst (temp_Run of_int (\<lambda>_. None) [Tick (Some ''43000'', 30), Tick (None, 60)] t)))
         \<le> tm_historyN (fst (temp_Run of_int (\<lambda>_. None) [Tick (Some ''43000'', 30), Tick (None, 60)] t))"
proof -
  have "TrimSpace ''42000'' = ''42000''" "Atoi ''42000'' = Some 42000" by code_simp+
  then obtain t where t: "NewTemperature of_int (\<lambda>_. None) (Some ''42000'') 0 ''/s'' 0 1 = (True, Some (t :: rat temperature))"
    by (simp add: NewTemperature_def tm_sample_def)
  from sampler_runs_until_cancelled [OF t prod.collapse [symmetric]] t show ?thesis by blast
qed

lemma janitor_round_spec:
  assumes "0 < lg_retention lg"
  shows "(\<forall>f\<in>set (janitor_round lg (now, undeletable, written) files).
        af_IsDir f \<or> now - lg_retention lg \<le> af_ModTime f \<or> undeletable (af_Name f))
    \<and> filter (\<lambda>f. now - lg_retention lg \<le> af_ModTime f) (janitor_round lg (now, undeletable, written) files)
        = filter (\<lambda>f. now - lg_retention lg \<le> af_ModTime f) (written files)"
proof -
  have "janitor_round lg (now, undeletable, written) files
      = filter (\<lambda>f. af_IsDir f \<or> \<not> af_ModTime f < now - lg_retention lg \<or> undeletable (af_Name f)) (written files)"
    using assms by (simp add: janitor_round_def gc_def Let_def)
  moreover have "filter (\<lambda>f. now - lg_retention lg \<le> af_ModTime f) (filter (\<lambda>f. af_IsDir f \<or> \<not> af_ModTime f < now - lg_retention lg
      \<or> undeletable (af_Name f)) fs) = filter (\<lambda>f. now - lg_retention lg \<le> af_ModTime f) fs" for fs
    by (induction fs) auto
  ultimately show ?thesis by auto
qed

text \<open>
  When the janitor has made a round, no file that it could delete is older than the retention, for as
  long as nothing else is written; and it has deleted nothing that is younger.
\<close>

theorem janitor_keeps_retention:
  assumes "0 < lg_retention lg" and "RunJanitor lg first evs files = (files', e)"
    and "last (first # rounds evs) = (now, undeletable, written)"
  shows "(\<forall>f\<in>set files'. af_IsDir f \<or> now - lg_retention lg \<le> af_ModTime f \<or> undeletable (af_Name f))
    \<and> (\<exists>before. filter (\<lambda>f. now - lg_retention lg \<le> af_ModTime f) files'
        = filter (\<lambda>f. now - lg_retention lg \<le> af_ModTime f) (written before))"
proof -
  have "files' = janitor_round lg (now, undeletable, written) (fold (janitor_round lg) (butlast (first # rounds evs)) files)"
    using assms(2) by (simp add: RunJanitor_def prod_eq_iff last_turn assms(3) del: last.simps butlast.simps)
  then show ?thesis using janitor_round_spec [OF assms(1), of now undeletable written] by blast
qed

theorem janitor_keeps_retention_witness:
  "\<forall>f\<in>set (fst (RunJanitor (NewLogger (\<lambda>_. None) [] 10 []) (100, \<lambda>_. False, \<lambda>fs. fs) [] [])). af_IsDir f \<or> 90 \<le> af_ModTime f"
proof -
  have r: "lg_retention (NewLogger (\<lambda>_. None) [] 10 []) = 10" by (simp add: NewLogger_def)
  from janitor_keeps_retention [of "NewLogger (\<lambda>_. None) [] 10 []" "(100, \<lambda>_. False, \<lambda>fs. fs)" "[]" "[]" _ _ 100 "\<lambda>_. False" "\<lambda>fs. fs",
    OF _ prod.collapse [symmetric]] show ?thesis
    by (simp add: r)
qed

end
