(* ===== verification/LogStream.thy ===== *)
theory LogStream
  imports Follow ReadApi Json Loops
begin

text \<open>
  The WebSocket endpoints, \<open>internal/api/handlers_ws.go\<close> and \<open>ws.go\<close>: the backlog and the live stream of a
  log, the stream of a slot's events and their frames, and the replies to control messages.  The
  WebSocket library is a parameter: whether it upgrades the connection, which writes succeed, and the
  JSON decoder.  What the rest of the daemon does while a stream is open is its list of inputs.
\<close>

subsection \<open>The loop of a stream\<close>

datatype 'e live =
    Emits 'e      \<comment> \<open>something is published\<close>
  | Takes         \<comment> \<open>the loop looks at its channel\<close>
  | Shuts         \<comment> \<open>the publisher closes its subscriptions\<close>
  | Leaves        \<comment> \<open>the context ends, or the client has gone\<close>

record ('e, 's) source =
  src_publish :: "'e \<Rightarrow> 's \<Rightarrow> 's"
  src_shut :: "'s \<Rightarrow> 's"
  src_queue :: "'s \<Rightarrow> 'e list"
  src_closed :: "'s \<Rightarrow> bool"
  src_recv :: "'s \<Rightarrow> 's"

text \<open>The frames sent so far come in and go out; the flag says whether the handler has returned.\<close>

fun stream_loop ::
  "('e, 's) source \<Rightarrow> ('e \<Rightarrow> 'f) \<Rightarrow> (nat \<Rightarrow> bool) \<Rightarrow> 'e live list \<Rightarrow> 's \<Rightarrow> 'f list \<Rightarrow> 's \<times> 'f list \<times> bool" where
  "stream_loop src render writes [] s out = (s, out, False)"
| "stream_loop src render writes (Emits e # rest) s out = stream_loop src render writes rest (src_publish src e s) out"
| "stream_loop src render writes (Shuts # rest) s out = stream_loop src render writes rest (src_shut src s) out"
| "stream_loop src render writes (Leaves # rest) s out = (s, out, True)"
| "stream_loop src render writes (Takes # rest) s out =
     (case src_queue src s of
        [] \<Rightarrow> if src_closed src s then (s, out, True) else stream_loop src render writes rest s out
      | e # _ \<Rightarrow>
          if writes (length out) then stream_loop src render writes rest (src_recv src s) (out @ [render e])
          else (src_recv src s, out, True))"

fun send_frames :: "(nat \<Rightarrow> bool) \<Rightarrow> 'f list \<Rightarrow> 'f list \<Rightarrow> 'f list \<times> bool" where
  "send_frames writes [] out = (out, True)"
| "send_frames writes (e # es) out =
     (if writes (length out) then send_frames writes es (out @ [e]) else (out, False))"

datatype 'f stream = Refused reply | NotUpgraded | Streamed "'f list" bool

subsection \<open>The log\<close>

definition tail_shut :: "tailer \<Rightarrow> tailer" where
  "tail_shut t = (case br_Close (t_bcast t) of None \<Rightarrow> t | Some b \<Rightarrow> t\<lparr>t_bcast := b\<rparr>)"

definition tail_recv :: "nat \<Rightarrow> tailer \<Rightarrow> tailer" where
  "tail_recv h t = t\<lparr>t_bcast := br_recv h (t_bcast t)\<rparr>"

definition chan_closed :: "nat \<Rightarrow> 'e chans \<Rightarrow> bool" where
  "chan_closed h chs = (case chs h of None \<Rightarrow> True | Some c \<Rightarrow> ch_closed c)"

definition tail_source :: "nat \<Rightarrow> (log_entry, tailer) source" where
  "tail_source h = \<lparr>src_publish = emit', src_shut = tail_shut, src_queue = (\<lambda>t. br_queue (t_bcast t) h),
     src_closed = (\<lambda>t. chan_closed h (br_chans (t_bcast t))), src_recv = tail_recv h\<rparr>"

definition stream_tail :: "string \<Rightarrow> int option" where
  "stream_tail s =
     (if s = [] then None
      else case Atoi s of None \<Rightarrow> None | Some n \<Rightarrow> if 0 < n then Some (if maxTail < n then maxTail else n) else None)"

definition stream_since :: "(string \<Rightarrow> time option) \<Rightarrow> string \<Rightarrow> time option" where
  "stream_since parse_time s = (if s = [] then None else parse_time s)"

definition backlog_tail :: "string \<Rightarrow> tailer \<Rightarrow> log_entry list" where
  "backlog_tail s t = (case stream_tail s of None \<Rightarrow> [] | Some n \<Rightarrow> Recent n t)"

definition backlog_since :: "(string \<Rightarrow> time option) \<Rightarrow> string \<Rightarrow> tailer \<Rightarrow> log_entry list" where
  "backlog_since parse_time s t = (case stream_since parse_time s of None \<Rightarrow> [] | Some c \<Rightarrow> Since c t)"

record log_stream_env =
  sv_accept :: bool
  sv_writes :: "nat \<Rightarrow> bool"
  sv_parse :: "string \<Rightarrow> time option"
  sv_first :: "log_entry list"     \<comment> \<open>emitted after the first part of the backlog is read\<close>
  sv_second :: "log_entry list"    \<comment> \<open>emitted after its second part is read, before the subscription\<close>
  sv_live :: "log_entry live list"

definition handleServerLogsStream ::
  "log_stream_env \<Rightarrow> string \<Rightarrow> log_query \<Rightarrow> manager \<Rightarrow> (nat \<Rightarrow> tailer) \<Rightarrow> log_entry stream" where
  "handleServerLogsStream v name q m tailers =
     (case mg_slots m name of
        None \<Rightarrow> Refused slot_missing
      | Some s \<Rightarrow>
     (case s_tailer s of
        None \<Rightarrow> Refused (reply_error 409 ''server_not_running'')
      | Some i \<Rightarrow>
         if \<not> sv_accept v then NotUpgraded
         else
         (let t0 = tailers i;
              (out1, ok1) = send_frames (sv_writes v) (backlog_tail (lq_tail q) t0) [];
              t1 = fold emit' (sv_first v) t0;
              (out2, ok2) = send_frames (sv_writes v) (backlog_since (sv_parse v) (lq_since q) t1) out1;
              t2 = fold emit' (sv_second v) t1;
              (h, b) = br_Subscribe 64 (t_bcast t2);
              (_, out3, ended) = stream_loop (tail_source h) (\<lambda>e. e) (sv_writes v) (sv_live v) (t2\<lparr>t_bcast := b\<rparr>) out2
          in if \<not> ok1 then Streamed out1 True else if \<not> ok2 then Streamed out2 True else Streamed out3 ended)))"

subsection \<open>Events\<close>

text \<open>The fields of an event that nothing in the program sets.\<close>

record full_event = event +
  ev_Code :: string
  ev_TPS1m :: rat
  ev_TPS5m :: rat

definition published_event :: "event \<Rightarrow> full_event" where
  "published_event e = event.extend e \<lparr>ev_Code = [], ev_TPS1m = 0, ev_TPS5m = 0\<rparr>"

definition type_name :: "event_type \<Rightarrow> string" where
  "type_name t = (case t of
      TypeState \<Rightarrow> ''state'' | TypePlayerJoin \<Rightarrow> ''player_join'' | TypePlayerLeave \<Rightarrow> ''player_leave''
    | TypePlayerDeath \<Rightarrow> ''player_death'' | TypePlayerKick \<Rightarrow> ''player_kick'' | TypeChat \<Rightarrow> ''chat''
    | TypeTPSSample \<Rightarrow> ''tps_sample'' | TypeError \<Rightarrow> ''error'')"

definition eventToFrame :: "(time \<Rightarrow> string) \<Rightarrow> full_event \<Rightarrow> json_map" where
  "eventToFrame show_time e =
     [(''type'', JStr (type_name (ev_Type e))), (''at'', JStr (show_time (ev_At e)))]
     @ (case ev_Type e of
          TypeState \<Rightarrow> [(''from'', JStr (ev_From e)), (''to'', JStr (ev_To e))]
        | TypePlayerJoin \<Rightarrow> [(''player'', JStr (ev_Player e))]
        | TypePlayerLeave \<Rightarrow> [(''player'', JStr (ev_Player e))]
        | TypeTPSSample \<Rightarrow> [(''tps_1m'', JNum (ev_TPS1m e)), (''tps_5m'', JNum (ev_TPS5m e))]
        | TypeError \<Rightarrow> [(''code'', JStr (ev_Code e)), (''message'', JStr (ev_Message e))]
        | TypePlayerDeath \<Rightarrow>
            [(''player'', JStr (ev_Player e))] @ (if ev_Killer e \<noteq> [] then [(''killer'', JStr (ev_Killer e))] else [])
            @ [(''cause'', JStr (ev_Cause e)), (''message'', JStr (ev_Message e))]
        | TypePlayerKick \<Rightarrow> [(''player'', JStr (ev_Player e)), (''reason'', JStr (ev_Reason e))]
        | TypeChat \<Rightarrow> [(''player'', JStr (ev_Player e)), (''message'', JStr (ev_Message e))])"

definition bus_shut :: "bus \<Rightarrow> bus" where
  "bus_shut b = (case bus_Close b of None \<Rightarrow> b | Some b' \<Rightarrow> b')"

text \<open>The channel of a closed bus (no handle) is closed and empty.\<close>

definition bus_source :: "nat option \<Rightarrow> (event, bus) source" where
  "bus_source h = \<lparr>src_publish = bus_publish, src_shut = bus_shut,
     src_queue = (\<lambda>b. case h of None \<Rightarrow> [] | Some i \<Rightarrow> bus_queue b i),
     src_closed = (\<lambda>b. case h of None \<Rightarrow> True | Some i \<Rightarrow> chan_closed i (b_chans b)),
     src_recv = (\<lambda>b. case h of None \<Rightarrow> b | Some i \<Rightarrow> bus_recv i b)\<rparr>"

definition handleSlotEventsStream ::
  "bool \<Rightarrow> (nat \<Rightarrow> bool) \<Rightarrow> (time \<Rightarrow> string) \<Rightarrow> event live list \<Rightarrow> string \<Rightarrow> manager \<Rightarrow> (string \<Rightarrow> bus) \<Rightarrow> json_map stream" where
  "handleSlotEventsStream accept writes show_time live name m buses =
     (case mg_slots m name of
        None \<Rightarrow> Refused slot_missing
      | Some s \<Rightarrow>
          if \<not> accept then NotUpgraded
          else (let (h, b) = bus_Subscribe (buses name);
                    (_, out, ended) = stream_loop (bus_source h) (\<lambda>e. eventToFrame show_time (published_event e)) writes live b []
                in Streamed out ended))"

subsection \<open>Control messages\<close>

text \<open>A read fails or returns a message; one that is not a JSON object is skipped.\<close>

fun wsReadControl :: "(string \<Rightarrow> json_map option) \<Rightarrow> string option list \<Rightarrow> json_map list \<times> bool" where
  "wsReadControl decode [] = ([], False)"
| "wsReadControl decode (None # rest) = ([], True)"
| "wsReadControl decode (Some body # rest) =
     (case decode body of
        None \<Rightarrow> wsReadControl decode rest
      | Some msg \<Rightarrow>
          (if get_string msg ''type'' = Some ''ping''
           then (case wsReadControl decode rest of (rs, ended) \<Rightarrow> ([(''type'', JStr ''pong'')] # rs, ended))
           else wsReadControl decode rest))"

subsection \<open>Keeping a connection open\<close>

text \<open>
  The pings of a connection: a tick carries the error of its ping, if it has one.  The result is the number
  of pings sent and how the loop stands.  A failed ping ends the loop and nothing else: the stream notices a
  dead connection when it writes to it or reads from it.
\<close>

fun ping_loop :: "go_error option tick list \<Rightarrow> nat \<times> loop_end" where
  "ping_loop [] = (0, StillWaits)"
| "ping_loop (CtxDone # evs) = (0, LoopReturns)"
| "ping_loop (Tick (Some e) # evs) = (1, LoopReturns)"
| "ping_loop (Tick None # evs) = (case ping_loop evs of (n, r) \<Rightarrow> (Suc n, r))"

definition wsKeepAlive :: "go_error option tick list \<Rightarrow> nat \<times> loop_end" where
  "wsKeepAlive evs = (if ticker_panics (30 * second) then (0, LoopPanics) else ping_loop evs)"

text \<open>It pings at every tick until one fails or the context ends, and returns exactly then.\<close>

theorem keepalive_pings:
  "fst (wsKeepAlive evs) = length (takeWhile (\<lambda>e. e = None) (rounds evs))
       + (if \<exists>e\<in>set (rounds evs). e \<noteq> None then 1 else 0)
   \<and> (snd (wsKeepAlive evs) = LoopReturns \<longleftrightarrow> CtxDone \<in> set evs \<or> (\<exists>e\<in>set (rounds evs). e \<noteq> None))"
proof -
  have "wsKeepAlive evs = ping_loop evs" by (simp add: wsKeepAlive_def ticker_panics_def)
  moreover have "fst (ping_loop evs) = length (takeWhile (\<lambda>e. e = None) (rounds evs))
       + (if \<exists>e\<in>set (rounds evs). e \<noteq> None then 1 else 0)
   \<and> (snd (ping_loop evs) = LoopReturns \<longleftrightarrow> CtxDone \<in> set evs \<or> (\<exists>e\<in>set (rounds evs). e \<noteq> None))"
    by (induction evs rule: ping_loop.induct) (auto simp: case_prod_beta)
  ultimately show ?thesis by simp
qed

theorem keepalive_pings_witness: "fst (wsKeepAlive [Tick None, Tick (Some ''closed''), Tick None]) = 2"
  using keepalive_pings [of "[Tick None, Tick (Some ''closed''), Tick None]"] by simp

subsection \<open>What a stream sends\<close>

fun emitted_in :: "'e live list \<Rightarrow> 'e list" where
  "emitted_in [] = []"
| "emitted_in (Emits e # rest) = e # emitted_in rest"
| "emitted_in (_ # rest) = emitted_in rest"

text \<open>The loop keeps up with \<open>c\<close> buffered entries, of which \<open>n\<close> are in use, and ends with an empty buffer.\<close>

fun keeps_pace :: "nat \<Rightarrow> nat \<Rightarrow> 'e live list \<Rightarrow> bool" where
  "keeps_pace c n [] = (n = 0)"
| "keeps_pace c n (Emits e # rest) = (n < c \<and> keeps_pace c (n + 1) rest)"
| "keeps_pace c n (Takes # rest) = keeps_pace c (n - 1) rest"
| "keeps_pace c n (_ # rest) = False"

context fanout begin

definition plain_source :: "('s \<Rightarrow> bool) \<Rightarrow> ('s \<Rightarrow> 's) \<Rightarrow> 'h \<Rightarrow> ('e, 's) source" where
  "plain_source cl sh h =
     \<lparr>src_publish = publish, src_shut = sh, src_queue = (\<lambda>s. queue s h), src_closed = cl, src_recv = recv h\<rparr>"

lemma stream_in_order:
  assumes "ok s" and "subscribed s h" and "set live \<inter> {Shuts, Leaves} = {}" and "\<And>s. ok s \<Longrightarrow> subscribed s h \<Longrightarrow> \<not> cl s"
  shows "\<exists>s' zs. stream_loop (plain_source cl sh h) render (\<lambda>_. True) live s out = (s', out @ map render zs, False)
    \<and> (\<exists>ys. subseq ys (emitted_in live) \<and> zs @ queue s' h = queue s h @ ys)
    \<and> (keeps_pace (capacity s h) (length (queue s h)) live \<longrightarrow> zs = queue s h @ emitted_in live)"
  using assms(1-3)
proof (induction live arbitrary: s out)
  case (Cons x live)
  have live: "set live \<inter> {Shuts, Leaves} = {}" using Cons.prems(3) by auto
  show ?case
  proof (cases x)
    case (Emits e)
    have s: "ok (publish e s)" "subscribed (publish e s) h"
      using Cons.prems(1,2) by (simp_all add: publish_ok publish_subscribed)
    then obtain s' zs ys where r: "stream_loop (plain_source cl sh h) render (\<lambda>_. True) live (publish e s) out = (s', out @ map render zs, False)"
        "subseq ys (emitted_in live)" "zs @ queue s' h = queue (publish e s) h @ ys"
        "keeps_pace (capacity (publish e s) h) (length (queue (publish e s) h)) live \<longrightarrow> zs = queue (publish e s) h @ emitted_in live"
      using Cons.IH [OF s live, of out] by blast
    let ?room = "length (queue s h) < capacity s h"
    have q: "queue (publish e s) h = (if ?room then queue s h @ [e] else queue s h)"
      "capacity (publish e s) h = capacity s h"
      using publish_queue [OF Cons.prems(1,2)] publish_capacity [OF Cons.prems(1)] by auto
    show ?thesis
      using r Emits q
      by (intro exI [of _ s'] exI [of _ zs] conjI exI [of _ "(if ?room then [e] else []) @ ys"])
        (auto simp: plain_source_def)
  next
    case Takes
    have s: "ok (recv h s)" "subscribed (recv h s) h" "capacity (recv h s) h = capacity s h" "queue (recv h s) h = tl (queue s h)"
      using Cons.prems(1,2) by (simp_all add: recv_ok recv_subscribed recv_capacity recv_queue)
    show ?thesis
    proof (cases "queue s h")
      case Nil
      then have "stream_loop (plain_source cl sh h) render (\<lambda>_. True) (x # live) s out
          = stream_loop (plain_source cl sh h) render (\<lambda>_. True) live s out"
        using Takes assms(4) [OF Cons.prems(1,2)] by (simp add: plain_source_def)
      then show ?thesis using Cons.IH [OF Cons.prems(1,2) live, of out] Takes Nil by simp
    next
      case (Cons e es)
      note queued = Cons
      have "stream_loop (plain_source cl sh h) render (\<lambda>_. True) (x # live) s out
          = stream_loop (plain_source cl sh h) render (\<lambda>_. True) live (recv h s) (out @ [render e])"
        using Takes queued by (simp add: plain_source_def)
      moreover obtain s' zs ys where "stream_loop (plain_source cl sh h) render (\<lambda>_. True) live (recv h s) (out @ [render e])
            = (s', (out @ [render e]) @ map render zs, False)"
          "subseq ys (emitted_in live)" "zs @ queue s' h = es @ ys"
          "keeps_pace (capacity s h) (length es) live \<longrightarrow> zs = es @ emitted_in live"
        using Cons.IH [OF s(1,2) live, of "out @ [render e]"] unfolding s(3,4) queued list.sel by blast
      ultimately show ?thesis
        using Takes queued by (intro exI [of _ s'] exI [of _ "e # zs"] conjI exI [of _ ys]) auto
    qed
  qed (use Cons.prems in auto)
qed simp

lemma fresh_stream:
  assumes "ok s" and "subscribed s h" and "queue s h = []" and "set live \<inter> {Shuts, Leaves} = {}"
    and "\<And>s. ok s \<Longrightarrow> subscribed s h \<Longrightarrow> \<not> cl s"
  shows "\<exists>s' zs. stream_loop (plain_source cl sh h) render (\<lambda>_. True) live s out = (s', out @ map render zs, False)
    \<and> subseq zs (emitted_in live) \<and> (keeps_pace (capacity s h) 0 live \<longrightarrow> zs = emitted_in live)"
proof -
  obtain s' zs ys where r: "stream_loop (plain_source cl sh h) render (\<lambda>_. True) live s out = (s', out @ map render zs, False)"
      "subseq ys (emitted_in live)" "zs @ queue s' h = ys" "keeps_pace (capacity s h) 0 live \<longrightarrow> zs = emitted_in live"
    using stream_in_order [where cl = cl and sh = sh and render = render and out = out, OF assms(1,2,4,5)] unfolding assms(3) append_Nil list.size by blast
  have "subseq zs (zs @ queue s' h)" by (rule prefix_imp_subseq) simp
  then show ?thesis using r by (metis subseq_order.trans)
qed

end


text \<open>The tailer is a fan-out as its broadcaster is, and so is the bus.\<close>

lemma t_ok_bcast: "t_ok t \<Longrightarrow> br_ok b \<Longrightarrow> t_ok (t\<lparr>t_bcast := b\<rparr>)" "t_ok t \<Longrightarrow> br_ok (t_bcast t)"
  by (simp_all add: t_ok_def)

lemma emit'_bcast: "t_ok t \<Longrightarrow> t_bcast (emit' e t) = br_publish e (t_bcast t)"
  by (simp add: emit'_def emit_some)

interpretation tl: fanout emit' tail_recv "\<lambda>t. br_queue (t_bcast t)" "\<lambda>t. br_capacity (t_bcast t)"
  "\<lambda>t h. h \<in> set (br_subs (t_bcast t))" t_ok
  by unfold_locales
    (auto simp: tail_recv_def emit'_bcast tail.ok_push t_ok_bcast br.recv_ok br.publish_subscribed br.recv_subscribed
      br.publish_capacity br.recv_capacity br.publish_queue br.recv_queue)

lemma tail_source_plain: "tail_source h = tl.plain_source (\<lambda>t. chan_closed h (br_chans (t_bcast t))) tail_shut h"
  by (simp add: tail_source_def tl.plain_source_def)

lemma tail_open: "t_ok t \<Longrightarrow> h \<in> set (br_subs (t_bcast t)) \<Longrightarrow> \<not> chan_closed h (br_chans (t_bcast t))"
  by (auto simp: t_ok_def br_ok_def all_open_def chan_closed_def)

lemma bus_source_plain: "bus_source (Some i) = bus.plain_source (\<lambda>b. chan_closed i (b_chans b)) bus_shut i"
  by (simp add: bus_source_def bus.plain_source_def)

lemma bus_open: "bus_ok b \<Longrightarrow> bus_subscribed b i \<Longrightarrow> \<not> chan_closed i (b_chans b)"
  by (auto simp: bus_ok_def all_open_def chan_closed_def bus_subscribed_def)

lemma send_all: "send_frames (\<lambda>_. True) es out = (out @ es, True)"
  by (induction es arbitrary: out) simp_all

lemma br_Subscribe_fresh:
  "br_ok b \<Longrightarrow> br_Subscribe 64 b = (h, b') \<Longrightarrow>
     br_ok b' \<and> h \<in> set (br_subs b') \<and> br_queue b' h = [] \<and> br_capacity b' h = 64"
  using br_Subscribe_ok [of b 64]
  by (auto simp: br_Subscribe_def Let_def br_queue_def br_capacity_def make_chan_def)

text \<open>
  C18: what a log stream sends, as long as its client stays and the tailer runs: the backlog that was asked
  for, then entries emitted after the subscription, in order and none twice; all of them when the loop
  keeps up with its channel of 64 entries.  What is emitted between the reading of the backlog and the
  subscription is in neither part.
\<close>

theorem log_stream_frames:
  assumes "mg_slots m name = Some s" and "s_tailer s = Some i" and "t_ok (tailers i)" and "sv_accept v"
    and "sv_writes v = (\<lambda>_. True)" and "set (sv_live v) \<inter> {Shuts, Leaves} = {}"
  shows "\<exists>zs. handleServerLogsStream v name q m tailers
      = Streamed (backlog_tail (lq_tail q) (tailers i)
          @ backlog_since (sv_parse v) (lq_since q) (fold emit' (sv_first v) (tailers i)) @ zs) False
    \<and> subseq zs (emitted_in (sv_live v)) \<and> (keeps_pace 64 0 (sv_live v) \<longrightarrow> zs = emitted_in (sv_live v))"
proof -
  let ?t2 = "fold emit' (sv_second v) (fold emit' (sv_first v) (tailers i))"
  obtain h b where b: "br_Subscribe 64 (t_bcast ?t2) = (h, b)" by fastforce
  have t2: "t_ok ?t2" using assms(3) by (simp add: tail.ok_fold)
  then have sub: "br_ok b" "h \<in> set (br_subs b)" "br_queue b h = []" "br_capacity b h = 64"
    using br_Subscribe_fresh [OF t_ok_bcast(2) b] by auto
  let ?out = "backlog_tail (lq_tail q) (tailers i) @ backlog_since (sv_parse v) (lq_since q) (fold emit' (sv_first v) (tailers i))"
  let ?t3 = "?t2\<lparr>t_bcast := b\<rparr>"
  have ok3: "t_ok ?t3" "h \<in> set (br_subs (t_bcast ?t3))" "br_queue (t_bcast ?t3) h = []" using sub t_ok_bcast(1) [OF t2] by auto
  obtain t' zs where r: "stream_loop (tail_source h) (\<lambda>e. e) (\<lambda>_. True) (sv_live v) ?t3 ?out = (t', ?out @ map (\<lambda>e. e) zs, False)"
      "subseq zs (emitted_in (sv_live v))" "keeps_pace 64 0 (sv_live v) \<longrightarrow> zs = emitted_in (sv_live v)"
    using tl.fresh_stream [where cl = "\<lambda>t. chan_closed h (br_chans (t_bcast t))" and sh = tail_shut and out = ?out
        and render = "\<lambda>e. e", OF ok3 assms(6) tail_open] sub(4)
    unfolding tail_source_plain by auto
  show ?thesis
    using r assms(1,2,4,5) sub b by (intro exI [of _ zs]) (simp add: handleServerLogsStream_def send_all Let_def)
qed


definition streaming :: "log_entry list \<Rightarrow> log_entry live list \<Rightarrow> log_stream_env" where
  "streaming missed live = \<lparr>sv_accept = True, sv_writes = (\<lambda>_. True), sv_parse = (\<lambda>_. None), sv_first = missed,
     sv_second = [], sv_live = live\<rparr>"

definition shown_line :: "string \<Rightarrow> log_entry" where
  "shown_line l = Parse 0 l 0"

definition tailing_slot :: slot where
  "tailing_slot = (NewSlot 0 (demo_slot ''a'' 25565) ''i'' ''h'')\<lparr>s_tailer := Some 0\<rparr>"

definition tailing :: manager where
  "tailing = \<lparr>mg_slots = [''a'' \<mapsto> tailing_slot], mg_order = [''a'']\<rparr>"

definition last_entry_query :: log_query where
  "last_entry_query = \<lparr>lq_tail = ''1'', lq_since = [], lq_levels = []\<rparr>"

definition one_line_tailer :: tailer where
  "one_line_tailer = fold emit' [shown_line ''a'', shown_line ''b''] (NewTailer ''l'' 0)"

lemma tailing_facts:
  "mg_slots tailing ''a'' = Some tailing_slot" "s_tailer tailing_slot = Some 0" "t_ok one_line_tailer"
  "lq_since last_entry_query = []" "backlog_tail (lq_tail last_entry_query) one_line_tailer = [shown_line ''b'']"
proof -
  show "mg_slots tailing ''a'' = Some tailing_slot" "s_tailer tailing_slot = Some 0"
    by (simp_all add: tailing_def tailing_slot_def)
  show "t_ok one_line_tailer" unfolding one_line_tailer_def by (rule tail.ok_fold [OF t_ok_New])
  show "lq_since last_entry_query = []" by (simp add: last_entry_query_def)
  have "Atoi ''1'' = Some 1" by code_simp
  moreover have "t_history one_line_tailer = [shown_line ''a'', shown_line ''b'']"
    using tail.view_fold [OF t_ok_New, of "[shown_line ''a'', shown_line ''b'']" "''l''" 0]
    by (simp add: one_line_tailer_def NewTailer_def last_n_def)
  ultimately show "backlog_tail (lq_tail last_entry_query) one_line_tailer = [shown_line ''b'']"
    by (simp add: backlog_tail_def stream_tail_def last_entry_query_def maxTail_def Recent_last_n last_n_def)
qed

theorem log_stream_frames_witness:
  "handleServerLogsStream (streaming [] [Emits (shown_line ''c''), Takes]) ''a'' last_entry_query tailing (\<lambda>_. one_line_tailer)
     = Streamed [shown_line ''b'', shown_line ''c''] False"
  using log_stream_frames [OF tailing_facts(1,2), of "\<lambda>_. one_line_tailer" "streaming [] [Emits (shown_line ''c''), Takes]" last_entry_query]
  by (simp add: tailing_facts streaming_def backlog_since_def stream_since_def)

text \<open>
  The comment in the handler promises a sequence without gaps.  An entry that is emitted while the
  backlog is sent is not in it: the stream goes on after it as if it had not been.
\<close>

theorem log_stream_gap:
  "handleServerLogsStream (streaming [shown_line ''x''] [Emits (shown_line ''c''), Takes]) ''a'' last_entry_query tailing (\<lambda>_. one_line_tailer)
     = Streamed [shown_line ''b'', shown_line ''c''] False"
  using log_stream_frames [OF tailing_facts(1,2), of "\<lambda>_. one_line_tailer" "streaming [shown_line ''x''] [Emits (shown_line ''c''), Takes]" last_entry_query]
  by (simp add: tailing_facts streaming_def backlog_since_def stream_since_def) 

text \<open>
  The documentation tells clients to resume with the time of the last entry they have.  The time of a
  line has whole seconds, and the cursor is exclusive: whatever else was logged in that second is never
  sent.
\<close>

theorem resume_skips_same_second:
  assumes "(t + zone) mod second = 0" and "c1 - 23 * hour < t" and "t \<le> c1" and "c2 - 23 * hour < t" and "t \<le> c2"
    and "set [m1, m2] \<inter> {m. nl \<in> set m \<or> m \<noteq> [] \<and> last m = cr} = {}"
  shows "let e1 = Parse zone (server_line (clock zone t) ''main'' ''INFO'' m1) c1;
             e2 = Parse zone (server_line (clock zone t) ''main'' ''INFO'' m2) c2
         in le_TS e1 = t \<and> e2 \<notin> set (Since (le_TS e1) tlr)"
proof -
  have c: "0 \<le> clock zone t" "clock zone t < 86400" by (auto simp: clock_def)
  have "le_TS (Parse zone (server_line (clock zone t) ''main'' ''INFO'' m) cp) = t"
    if "m \<in> set [m1, m2]" "cp - 23 * hour < t" "t \<le> cp" for m cp
    using Parse_server_line [OF c, of "''main''" "''INFO''" m zone cp] mergeTime_recovers [OF assms(1) that(2,3)] assms(6) that(1)
    by (auto simp: is_upper_def)
  then show ?thesis using assms(2-5) by (simp add: Since_def Let_def)
qed

subsection \<open>What an event stream sends\<close>

lemma frame_keys_distinct: "distinct (map fst (eventToFrame show_time e))"
  by (simp add: eventToFrame_def split: event_type.splits)

text \<open>
  An event stream sends a frame of the event's own type for events published after it subscribed, in
  order, none twice; every one of them as long as the loop keeps up with its channel of 32.
\<close>

theorem event_stream_frames:
  assumes "mg_slots m name = Some s" and "bus_ok (buses name)" and "\<not> b_closed (buses name)"
    and "set live \<inter> {Shuts, Leaves} = {}"
  shows "\<exists>es. handleSlotEventsStream True (\<lambda>_. True) show_time live name m buses
      = Streamed (map (\<lambda>e. eventToFrame show_time (published_event e)) es) False
    \<and> subseq es (emitted_in live) \<and> (keeps_pace 32 0 live \<longrightarrow> es = emitted_in live)
    \<and> (\<forall>e\<in>set es. get_string (eventToFrame show_time (published_event e)) ''type'' = Some (type_name (ev_Type e)))"
proof -
  obtain h b where b: "bus_Subscribe (buses name) = (Some h, b)"
    using assms(3) by (simp add: bus_Subscribe_def Let_def)
  note f = bus_Subscribe_fresh [OF assms(2) b]
  obtain b' es where r: "stream_loop (bus_source (Some h)) (\<lambda>e. eventToFrame show_time (published_event e)) (\<lambda>_. True) live b []
        = (b', [] @ map (\<lambda>e. eventToFrame show_time (published_event e)) es, False)"
      "subseq es (emitted_in live)" "keeps_pace 32 0 live \<longrightarrow> es = emitted_in live"
    using bus.fresh_stream [where cl = "\<lambda>b. chan_closed h (b_chans b)" and sh = bus_shut and out = "[]" and s = b and h = h
        and render = "\<lambda>e. eventToFrame show_time (published_event e)", OF _ _ _ assms(4) bus_open] f
    unfolding bus_source_plain subBuffer_def by auto
  have "get_string (eventToFrame show_time (published_event e)) ''type'' = Some (type_name (ev_Type e))" for e
    by (simp add: get_string_def eventToFrame_def published_event_def event.defs)
  then show ?thesis using r b assms(1) by (intro exI [of _ es]) (simp add: handleSlotEventsStream_def)
qed

theorem event_stream_frames_witness:
  "handleSlotEventsStream True (\<lambda>_. True) (\<lambda>_. ''now'') [Emits (blank_event TypeChat), Takes] ''a'' tailing (\<lambda>_. NewBus)
     = Streamed [[(''type'', JStr ''chat''), (''at'', JStr ''now''), (''player'', JStr []), (''message'', JStr [])]] False"
proof -
  have "\<not> b_closed NewBus" by (simp add: NewBus_def)
  from event_stream_frames [OF tailing_facts(1), where buses = "\<lambda>_. NewBus", OF bus_ok_New this,
      of "[Emits (blank_event TypeChat), Takes]" "\<lambda>_. ''now''"]
  have "handleSlotEventsStream True (\<lambda>_. True) (\<lambda>_. ''now'') [Emits (blank_event TypeChat), Takes] ''a'' tailing (\<lambda>_. NewBus)
     = Streamed [eventToFrame (\<lambda>_. ''now'') (published_event (blank_event TypeChat))] False" by auto
  then show ?thesis by (simp add: eventToFrame_def published_event_def event.defs blank_event_def type_name_def)
qed

end
