(* ===== verification/Federation.thy ===== *)
theory Federation
  imports Peers Discovery
begin

text \<open>
  \<open>internal/api/handlers_federation.go\<close>: the answers of the peers, merged with this instance's own
  catalog and slots.  The peers' answers come as a list in the order in which the map \<open>raws\<close> is
  iterated; \<open>parse_time\<close> is \<open>time.Parse\<close> with RFC 3339.
\<close>

subsection \<open>Fetching\<close>

record federation_source =
  fs_Instance :: string
  fs_Self :: bool
  fs_OK :: bool
  fs_RTTMS :: int
  fs_Error :: string

text \<open>What came of one peer: its name, the round trip, its answer.\<close>

type_synonym fetched = "string \<times> int \<times> (string + json_map)"

definition source_row :: "fetched \<Rightarrow> federation_source" where
  "source_row x =
     (case x of (name, rtt, out) \<Rightarrow>
        \<lparr>fs_Instance = name, fs_Self = False, fs_OK = (\<not> isl out), fs_RTTMS = rtt,
         fs_Error = (case out of Inl e \<Rightarrow> e | Inr _ \<Rightarrow> [])\<rparr>)"

definition federationFetch :: "string \<Rightarrow> fetched list \<Rightarrow> federation_source list \<times> (string \<times> json_map) list" where
  "federationFetch self answers =
     (\<lparr>fs_Instance = self, fs_Self = True, fs_OK = True, fs_RTTMS = 0, fs_Error = []\<rparr> # map source_row answers,
      fold (\<lambda>(name, _, out) raws. case out of Inl _ \<Rightarrow> raws | Inr m \<Rightarrow> AList.update name m raws) answers [])"

subsection \<open>Servers\<close>

record fed_ownership =
  fo_State :: string
  fo_Instance :: string
  fo_Slot :: string
  fo_Host :: string
  fo_PID :: int
  fo_Since :: "time option"
  fo_Heartbeat :: "time option"

record fed_server =
  fv_ID :: string
  fv_Name :: string
  fv_Type :: string
  fv_Version :: string
  fv_Path :: string
  fv_Root :: string
  fv_LevelName :: string
  fv_Ownership :: fed_ownership

fun state_text :: "lock_state \<Rightarrow> string" where
  "state_text StateFree = ''free''"
| "state_text StateOwnedSelf = ''owned-self''"
| "state_text StateOwnedOther = ''owned-other''"
| "state_text StateStale = ''stale''"

text \<open>A server of the own catalog, with its optional fields as Go has them.\<close>

definition own_server :: "server \<Rightarrow> fed_server" where
  "own_server s =
     \<lparr>fv_ID = srv_ID s, fv_Name = srv_Name s, fv_Type = srv_Type s, fv_Version = [], fv_Path = srv_Path s,
      fv_Root = srv_Root s, fv_LevelName = srv_LevelName s,
      fv_Ownership =
        (case ow_Owner (srv_Ownership s) of
           None \<Rightarrow> \<lparr>fo_State = state_text (ow_State (srv_Ownership s)), fo_Instance = [], fo_Slot = [], fo_Host = [],
                    fo_PID = 0, fo_Since = None, fo_Heartbeat = None\<rparr>
         | Some o' \<Rightarrow> \<lparr>fo_State = state_text (ow_State (srv_Ownership s)), fo_Instance = own_Instance o',
                       fo_Slot = own_Slot o', fo_Host = own_Host o', fo_PID = own_PID o',
                       fo_Since = Some (own_StartedAt o'), fo_Heartbeat = Some (own_Heartbeat o')\<rparr>)\<rparr>"

definition decodeOwnership :: "(string \<Rightarrow> time option) \<Rightarrow> json_map \<Rightarrow> fed_ownership" where
  "decodeOwnership parse_time m =
     \<lparr>fo_State = or_empty (get_string m ''state''), fo_Instance = or_empty (get_string m ''instance''),
      fo_Slot = or_empty (get_string m ''slot''), fo_Host = or_empty (get_string m ''host''),
      fo_PID = (case get_num m ''pid'' of None \<Rightarrow> 0 | Some q \<Rightarrow> to_int q),
      fo_Since = Option.bind (get_string m ''since'') parse_time,
      fo_Heartbeat = Option.bind (get_string m ''heartbeat'') parse_time\<rparr>"

definition no_ownership :: fed_ownership where
  "no_ownership = \<lparr>fo_State = [], fo_Instance = [], fo_Slot = [], fo_Host = [], fo_PID = 0, fo_Since = None,
     fo_Heartbeat = None\<rparr>"

definition decodeRemoteServer :: "(string \<Rightarrow> time option) \<Rightarrow> json_map \<Rightarrow> fed_server" where
  "decodeRemoteServer parse_time m =
     \<lparr>fv_ID = or_empty (get_string m ''id''), fv_Name = or_empty (get_string m ''name''),
      fv_Type = or_empty (get_string m ''type''), fv_Version = or_empty (get_string m ''version''),
      fv_Path = or_empty (get_string m ''path''), fv_Root = [], fv_LevelName = or_empty (get_string m ''level_name''),
      fv_Ownership = (case get_map m ''ownership'' of None \<Rightarrow> no_ownership | Some own \<Rightarrow> decodeOwnership parse_time own)\<rparr>"

definition remoteFresher :: "fed_ownership \<Rightarrow> fed_ownership \<Rightarrow> bool" where
  "remoteFresher remote current =
     (case fo_Heartbeat remote of
        None \<Rightarrow> False
      | Some r \<Rightarrow> (case fo_Heartbeat current of None \<Rightarrow> True | Some c \<Rightarrow> c < r))"

type_synonym merged = "(string \<times> fed_server) list"

definition merge_item :: "(string \<Rightarrow> time option) \<Rightarrow> json \<Rightarrow> merged \<Rightarrow> merged" where
  "merge_item parse_time item merged =
     (case item of
        JObj b \<Rightarrow>
          (let i = or_empty (get_string b ''id'')
           in if i = [] then merged
              else let peerSrv = decodeRemoteServer parse_time b
                   in case map_of merged i of
                        None \<Rightarrow> AList.update i (peerSrv\<lparr>fv_Root := []\<rparr>) merged
                      | Some cur \<Rightarrow>
                          if remoteFresher (fv_Ownership peerSrv) (fv_Ownership cur) then AList.update i peerSrv merged
                          else merged)
      | _ \<Rightarrow> merged)"

definition merge_servers :: "(string \<Rightarrow> time option) \<Rightarrow> server list \<Rightarrow> (string \<times> json_map) list \<Rightarrow> merged" where
  "merge_servers parse_time own raws =
     fold (\<lambda>(_, raw). fold (merge_item parse_time) (get_list raw ''servers'')) raws
       (fold (\<lambda>sv. AList.update (srv_ID sv) (own_server sv)) own [])"

definition handleFederationDiscovery ::
  "(string \<Rightarrow> time option) \<Rightarrow> string \<Rightarrow> catalog \<Rightarrow> fetched list \<Rightarrow> federation_source list \<times> fed_server list" where
  "handleFederationDiscovery parse_time self cat answers =
     (case federationFetch self answers of
        (sources, raws) \<Rightarrow> (sources, map snd (merge_servers parse_time (cat_Servers cat) raws)))"

subsection \<open>Slots\<close>

text \<open>The own slots come as the rows the handler builds from their snapshots.\<close>

definition slot_rows :: "string \<times> json_map \<Rightarrow> json_map list" where
  "slot_rows r =
     (case r of (inst, raw) \<Rightarrow>
        concat (map (\<lambda>item. case item of JObj b \<Rightarrow> [AList.update ''instance'' (JStr inst) b] | _ \<Rightarrow> [])
          (get_list raw ''slots'')))"

definition handleFederationSlots :: "string \<Rightarrow> json_map list \<Rightarrow> fetched list \<Rightarrow> federation_source list \<times> json_map list" where
  "handleFederationSlots self own answers =
     (case federationFetch self answers of
        (sources, raws) \<Rightarrow>
          (sources, map (\<lambda>row. (''instance'', JStr self) # row) own @ concat (map slot_rows raws)))"

subsection \<open>The freshest heartbeat wins\<close>

text \<open>What a peer offers: the items of its answer that are objects with an identifier.\<close>

definition offered :: "(string \<Rightarrow> time option) \<Rightarrow> json \<Rightarrow> fed_server list" where
  "offered parse_time item =
     (case item of JObj b \<Rightarrow> if or_empty (get_string b ''id'') = [] then [] else [decodeRemoteServer parse_time b] | _ \<Rightarrow> [])"

definition remote_servers :: "(string \<Rightarrow> time option) \<Rightarrow> (string \<times> json_map) list \<Rightarrow> fed_server list" where
  "remote_servers parse_time raws =
     concat (map (\<lambda>(_, raw). concat (map (offered parse_time) (get_list raw ''servers''))) raws)"

lemma decodeRemoteServer_fields [simp]:
  "fv_ID (decodeRemoteServer p b) = or_empty (get_string b ''id'')"
  "(decodeRemoteServer p b)\<lparr>fv_Root := []\<rparr> = decodeRemoteServer p b"
  by (simp_all add: decodeRemoteServer_def)

lemma not_fresher_trans:
  "\<not> remoteFresher a b \<Longrightarrow> \<not> remoteFresher b c \<Longrightarrow> \<not> remoteFresher a c"
  by (auto simp: remoteFresher_def split: option.splits)

lemma fresher_asym: "remoteFresher a b \<Longrightarrow> \<not> remoteFresher b a"
  by (auto simp: remoteFresher_def split: option.splits)

lemma fresher_irrefl [simp]: "\<not> remoteFresher a a"
  by (auto simp: remoteFresher_def split: option.splits)

definition merged_ok :: "merged \<Rightarrow> fed_server list \<Rightarrow> bool" where
  [inv_defs]: "merged_ok acc seen \<longleftrightarrow> distinct (map fst acc)
     \<and> (\<forall>i s. map_of acc i = Some s \<longrightarrow> s \<in> set seen \<and> fv_ID s = i)
     \<and> (\<forall>c\<in>set seen. \<exists>s. map_of acc (fv_ID c) = Some s \<and> \<not> remoteFresher (fv_Ownership c) (fv_Ownership s))"

lemma merged_ok_update:
  assumes ok: "merged_ok acc seen"
    and new: "case map_of acc (fv_ID s) of None \<Rightarrow> True | Some cur \<Rightarrow> \<not> remoteFresher (fv_Ownership cur) (fv_Ownership s)"
  shows "merged_ok (AList.update (fv_ID s) s acc) (seen @ [s])"
  unfolding merged_ok_def
proof (intro conjI allI ballI impI)
  show "distinct (map fst (AList.update (fv_ID s) s acc))"
    using ok by (simp add: merged_ok_def distinct_update)
  show "t \<in> set (seen @ [s])" "fv_ID t = i" if "map_of (AList.update (fv_ID s) s acc) i = Some t" for i t
    using that ok by (auto simp: merged_ok_def update_conv split: if_splits)
  fix c assume c: "c \<in> set (seen @ [s])"
  show "\<exists>t. map_of (AList.update (fv_ID s) s acc) (fv_ID c) = Some t \<and> \<not> remoteFresher (fv_Ownership c) (fv_Ownership t)"
  proof (cases "c = s")
    case False
    then obtain t where t: "map_of acc (fv_ID c) = Some t" "\<not> remoteFresher (fv_Ownership c) (fv_Ownership t)"
      using ok c by (auto simp: merged_ok_def)
    then show ?thesis
      using new not_fresher_trans [OF t(2), of "fv_Ownership s"] by (cases "fv_ID c = fv_ID s") (auto simp: update_conv)
  qed (simp add: update_conv)
qed

lemma merged_ok_own:
  "distinct (map srv_ID own) \<Longrightarrow>
     merged_ok (fold (\<lambda>sv. AList.update (srv_ID sv) (own_server sv)) own []) (map own_server own)
   \<and> fst ` set (fold (\<lambda>sv. AList.update (srv_ID sv) (own_server sv)) own []) = srv_ID ` set own"
proof (induction own rule: rev_induct)
  case Nil
  then show ?case by (simp add: merged_ok_def)
next
  case (snoc sv own)
  let ?acc = "fold (\<lambda>sv. AList.update (srv_ID sv) (own_server sv)) own []"
  have i: "fv_ID (own_server sv) = srv_ID sv" by (simp add: own_server_def)
  have ok: "merged_ok ?acc (map own_server own)" "fst ` set ?acc = srv_ID ` set own" using snoc by simp_all
  then have "map_of ?acc (srv_ID sv) = None" using snoc.prems by (auto simp: map_of_eq_None_iff)
  then have "merged_ok (AList.update (srv_ID sv) (own_server sv) ?acc) (map own_server own @ [own_server sv])"
    using merged_ok_update [OF ok(1), of "own_server sv"] by (simp add: i)
  moreover have "fst ` set (AList.update (srv_ID sv) (own_server sv) ?acc) = insert (srv_ID sv) (srv_ID ` set own)"
    using ok(2) by (simp add: update_conv' flip: dom_map_of_conv_image_fst)
  ultimately show ?case by simp
qed

lemma merge_item_ok: "merged_ok acc seen \<Longrightarrow> merged_ok (merge_item p item acc) (seen @ offered p item)"
proof (cases item)
  case (JObj b)
  assume ok: "merged_ok acc seen"
  let ?s = "decodeRemoteServer p b"
  show ?thesis
  proof (cases "or_empty (get_string b ''id'') = []")
    case False
    show ?thesis
    proof (cases "map_of acc (fv_ID ?s)")
      case None
      then show ?thesis
        using merged_ok_update [OF ok, of ?s] False JObj by (simp add: merge_item_def offered_def Let_def)
    next
      case (Some cur)
      show ?thesis
      proof (cases "remoteFresher (fv_Ownership ?s) (fv_Ownership cur)")
        case True
        then show ?thesis
          using merged_ok_update [OF ok, of ?s] False JObj Some fresher_asym [OF True]
          by (simp add: merge_item_def offered_def Let_def)
      next
        case older: False
        then have "merge_item p item acc = acc" "offered p item = [?s]"
          using False JObj Some by (simp_all add: merge_item_def offered_def Let_def)
        then show ?thesis using ok Some older unfolding merged_ok_def by fastforce
      qed
    qed
  qed (simp add: merge_item_def offered_def JObj ok)
qed (simp_all add: merge_item_def offered_def)

lemma merge_items_ok:
  "merged_ok acc seen \<Longrightarrow> merged_ok (fold (merge_item p) items acc) (seen @ concat (map (offered p) items))"
  by (induction items arbitrary: acc seen) (simp, metis append_assoc concat.simps(2) fold_simps(2) list.simps(9) merge_item_ok)

lemma merge_raws_ok:
  "merged_ok acc seen \<Longrightarrow>
     merged_ok (fold (\<lambda>(_, raw). fold (merge_item p) (get_list raw ''servers'')) raws acc) (seen @ remote_servers p raws)"
proof (induction raws arbitrary: acc seen)
  case (Cons r raws)
  obtain n raw where r: "r = (n, raw)" by (cases r)
  from Cons.IH [OF merge_items_ok [OF Cons.prems, of p "get_list raw ''servers''"]] show ?case
    by (simp add: r remote_servers_def)
qed (simp add: remote_servers_def)

text \<open>
  C35: the merged list of servers has every server that this instance or a peer that answered knows,
  exactly once, as one of them reported it, and nobody reported the server with a fresher heartbeat:
  in whatever order the answers are merged.
\<close>

theorem freshest_heartbeat_wins:
  assumes "distinct (map srv_ID (cat_Servers cat))"
    and "handleFederationDiscovery parse_time self cat answers = (sources, out)"
    and "known = map own_server (cat_Servers cat) @ remote_servers parse_time (snd (federationFetch self answers))"
  shows "distinct (map fv_ID out) \<and> set out \<subseteq> set known \<and> fv_ID ` set out = fv_ID ` set known
    \<and> (\<forall>s\<in>set out. \<forall>c\<in>set known. fv_ID c = fv_ID s \<longrightarrow> \<not> remoteFresher (fv_Ownership c) (fv_Ownership s))"
proof -
  let ?acc = "merge_servers parse_time (cat_Servers cat) (snd (federationFetch self answers))"
  have ok: "merged_ok ?acc known"
    unfolding merge_servers_def assms(3) using merged_ok_own [OF assms(1)] by (intro merge_raws_ok) simp
  have out: "out = map snd ?acc"
    using assms(2) by (auto simp: handleFederationDiscovery_def split: prod.splits)
  have m: "map_of ?acc i = Some s \<longleftrightarrow> (i, s) \<in> set ?acc" for i s
    using ok by (simp add: merged_ok_def map_of_eq_Some_iff)
  have "map fv_ID out = map fst ?acc"
    unfolding out map_map by (rule map_cong) (use ok m in \<open>auto simp: merged_ok_def\<close>)
  then have "distinct (map fv_ID out)" using ok by (simp add: merged_ok_def)
  moreover have sub: "set out \<subseteq> set known" using ok m by (force simp: out merged_ok_def)
  moreover have "fv_ID ` set out = fv_ID ` set known"
  proof
    show "fv_ID ` set known \<subseteq> fv_ID ` set out"
    proof
      fix i assume "i \<in> fv_ID ` set known"
      then obtain s where "map_of ?acc i = Some s" "fv_ID s = i" using ok by (auto simp: merged_ok_def)
      then show "i \<in> fv_ID ` set out" by (force simp: out m)
    qed
  qed (use sub in blast)
  moreover have "\<not> remoteFresher (fv_Ownership c) (fv_Ownership s)"
    if sc: "s \<in> set out" "c \<in> set known" "fv_ID c = fv_ID s" for s c
  proof -
    obtain i where "map_of ?acc i = Some s" using sc(1) unfolding out m by auto
    then have "map_of ?acc (fv_ID c) = Some s" using sc(3) ok by (auto simp: merged_ok_def)
    then show ?thesis using ok sc(2) by (auto simp: merged_ok_def)
  qed
  ultimately show ?thesis by blast
qed

text \<open>
  Every row of the merged slots says where to address it: the rows of this instance carry its name
  and the rows of a peer carry the name this instance knows the peer by, whatever the peer wrote there.
\<close>

theorem federated_slots_are_tagged:
  "\<forall>row\<in>set (snd (handleFederationSlots self own answers)).
     (\<exists>r\<in>set own. row = (''instance'', JStr self) # r)
   \<or> (\<exists>name rtt m b. (name, rtt, Inr m) \<in> set answers \<and> JObj b \<in> set (get_list m ''slots'')
        \<and> map_of row = (map_of b)(''instance'' \<mapsto> JStr name))"
proof
  have raws: "\<exists>rtt. (name, rtt, Inr m) \<in> set xs"
    if "(name, m) \<in> set (fold (\<lambda>(name, _, out) raws. case out of Inl _ \<Rightarrow> raws | Inr m \<Rightarrow> AList.update name m raws) xs [])"
    for name m and xs :: "fetched list"
    using that
  proof (induction xs rule: rev_induct)
    case (snoc x xs)
    let ?f = "fold (\<lambda>(name, _, out) raws. case out of Inl _ \<Rightarrow> raws | Inr m \<Rightarrow> AList.update name m raws) xs []"
    obtain n r out where x: "x = (n, r, out)" by (cases x)
    show ?case
    proof (cases out)
      case (Inr m')
      then have "(name, m) \<in> set (AList.update n m' ?f)" using snoc.prems by (simp add: x)
      then have "(name, m) = (n, m') \<or> (name, m) \<in> set ?f" using set_update_snd [of n m' ?f] by blast
      then show ?thesis using snoc.IH by (auto simp: x Inr)
    qed (use snoc in \<open>auto simp: x\<close>)
  qed simp
  fix row assume "row \<in> set (snd (handleFederationSlots self own answers))"
  then consider (own) "row \<in> (\<lambda>r. (''instance'', JStr self) # r) ` set own"
    | (peer) "\<exists>x\<in>set (snd (federationFetch self answers)). row \<in> set (slot_rows x)"
    by (auto simp: handleFederationSlots_def split: prod.splits)
  then show "(\<exists>r\<in>set own. row = (''instance'', JStr self) # r)
   \<or> (\<exists>name rtt m b. (name, rtt, Inr m) \<in> set answers \<and> JObj b \<in> set (get_list m ''slots'')
        \<and> map_of row = (map_of b)(''instance'' \<mapsto> JStr name))"
  proof cases
    case peer
    then obtain name m where nm: "(name, m) \<in> set (snd (federationFetch self answers))" "row \<in> set (slot_rows (name, m))" by auto
    then obtain b where "JObj b \<in> set (get_list m ''slots'')" "row = AList.update ''instance'' (JStr name) b"
      by (auto simp: slot_rows_def split: json.splits)
    moreover have "\<exists>rtt. (name, rtt, Inr m) \<in> set answers" using nm(1) by (intro raws) (simp add: federationFetch_def)
    ultimately show ?thesis by (metis update_conv')
  qed auto
qed

subsection \<open>A federation of two\<close>

text \<open>
  This instance holds server \<open>s\<close> with a heartbeat at 5, peer \<open>b\<close> reports it with one at 9 (as its
  own) and another server without an owner.  The merged entry is the peer's, state and all: it says
  \<open>owned-self\<close> although the owner is \<open>b\<close>.
\<close>

definition demo_own :: server where
  "demo_own = \<lparr>srv_ID = ''s'', srv_Name = ''s'', srv_Type = ''paper'', srv_Path = ''/srv/s'', srv_Root = ''/srv'',
     srv_LevelName = ''world'', srv_Ownership = \<lparr>ow_State = StateOwnedOther, ow_Owner =
       Some \<lparr>own_Instance = ''b'', own_Slot = ''x'', own_Host = ''h'', own_PID = 7, own_StartedAt = 1, own_Heartbeat = 5\<rparr>\<rparr>\<rparr>"

definition demo_item :: json_map where
  "demo_item = [(''id'', JStr ''s''), (''ownership'',
     JObj [(''state'', JStr ''owned-self''), (''instance'', JStr ''b''), (''heartbeat'', JStr ''t9'')])]"

definition demo_answers :: "fetched list" where
  "demo_answers = [(''b'', 3, Inr [(''servers'', JArr [JObj demo_item, JNull])]), (''c'', 9, Inl ''refused'')]"

definition demo_time :: "string \<Rightarrow> time option" where
  "demo_time s = (if s = ''t9'' then Some 9 else None)"

definition demo_cat :: catalog where
  "demo_cat = \<lparr>cat_ScannedAt = 0, cat_Servers = [demo_own]\<rparr>"

lemma peer_view_is_passed_on:
  "map (\<lambda>s. (fv_ID s, fo_State (fv_Ownership s), fo_Instance (fv_Ownership s)))
     (snd (handleFederationDiscovery demo_time ''a'' demo_cat demo_answers)) = [(''s'', ''owned-self'', ''b'')]"
  by (simp add: handleFederationDiscovery_def federationFetch_def demo_answers_def merge_servers_def demo_cat_def
      demo_own_def own_server_def get_list_def merge_item_def demo_item_def get_string_def or_empty_def
      decodeRemoteServer_def get_map_def decodeOwnership_def remoteFresher_def demo_time_def Let_def)

theorem freshest_heartbeat_wins_witness:
  "distinct (map fv_ID (snd (handleFederationDiscovery demo_time ''a'' demo_cat demo_answers)))
   \<and> fv_ID ` set (snd (handleFederationDiscovery demo_time ''a'' demo_cat demo_answers)) = {''s''}"
proof -
  have d: "distinct (map srv_ID (cat_Servers demo_cat))" by (simp add: demo_cat_def)
  note r = freshest_heartbeat_wins [OF d surjective_pairing refl, of demo_time "''a''" demo_answers]
  show ?thesis
    using conjunct1 [OF r] peer_view_is_passed_on by (auto simp: map_eq_Cons_conv)
qed

theorem federated_slots_are_tagged_witness:
  "\<exists>b. map_of [(''instance'', JStr ''b''), (''name'', JStr ''x'')] = (map_of b)(''instance'' \<mapsto> JStr ''b'')"
proof -
  let ?ans = "[(''b'', 3, Inr [(''slots'', JArr [JObj [(''instance'', JStr ''a''), (''name'', JStr ''x'')]])])] :: fetched list"
  have "[(''instance'', JStr ''b''), (''name'', JStr ''x'')] \<in> set (snd (handleFederationSlots ''a'' [] ?ans))"
    by (simp add: handleFederationSlots_def federationFetch_def slot_rows_def get_list_def)
  from bspec [OF federated_slots_are_tagged [of "''a''" "[]" ?ans] this] show ?thesis by auto
qed

end
