(* ===== verification/CatalogApi.thy ===== *)
theory CatalogApi
  imports ServerApi Federation
begin

text \<open>
  \<open>internal/api/handlers_discovery.go\<close> and \<open>handlers_compat.go\<close>: reading and refreshing the catalog,
  removing a server's lock, and the servers a slot can mount.  The world is the store with its cached
  catalog and the file system; a scan reads the clock once, which is an argument.
\<close>

subsection \<open>The handlers\<close>

definition handleDiscovery :: "string list \<Rightarrow> string list \<Rightarrow> store \<Rightarrow> reply \<times> catalog" where
  "handleDiscovery states types st =
     (reply_ok 200,
      (st_cur st)\<lparr>cat_Servers :=
         filter (\<lambda>sv. (states = [] \<or> state_text (ow_State (srv_Ownership sv)) \<in> set states)
                   \<and> (types = [] \<or> srv_Type sv \<in> set types)) (cat_Servers (st_cur st))\<rparr>)"

text \<open>\<open>Scan\<close> never returns an error, so neither does \<open>Refresh\<close>: the branch for 500 is never taken.\<close>

definition handleDiscoveryRefresh :: "host_fs \<Rightarrow> time \<Rightarrow> store \<Rightarrow> (reply \<times> catalog) \<times> store" where
  "handleDiscoveryRefresh fs now st = (case store_Refresh fs now st of (cat, st') \<Rightarrow> ((reply_ok 200, cat), st'))"

text \<open>The server a request names: in the cached catalog, or else in a fresh one.\<close>

definition lookup_server :: "string \<Rightarrow> time \<Rightarrow> host_fs \<Rightarrow> store \<Rightarrow> server option \<times> store" where
  "lookup_server sid now fs st =
     (case FindByID sid (st_cur st) of
        Some t \<Rightarrow> (Some t, st)
      | None \<Rightarrow> (case store_Refresh fs now st of (fresh, st') \<Rightarrow> (FindByID sid fresh, st')))"

definition remove_lock ::
  "go_error option \<Rightarrow> time \<Rightarrow> server \<Rightarrow> store \<times> host_fs \<Rightarrow> (reply \<times> string) \<times> store \<times> host_fs" where
  "remove_lock io now t w =
     (case w of (st, fs) \<Rightarrow>
        (case Remove io (srv_Path t) (fs_owners fs) of
           (Some _, owners) \<Rightarrow> ((reply_error 500 ''internal'', []), st, fs\<lparr>fs_owners := owners\<rparr>)
         | (None, owners) \<Rightarrow>
             (let fs' = fs\<lparr>fs_owners := owners\<rparr>
              in ((reply_ok 200, ''released''), snd (store_Refresh fs' now st), fs'))))"

definition handleDiscoveryUnlock ::
  "go_error option \<Rightarrow> time \<Rightarrow> string \<Rightarrow> bool \<Rightarrow> store \<times> host_fs \<Rightarrow> (reply \<times> string) \<times> store \<times> host_fs" where
  "handleDiscoveryUnlock io now sid force w =
     (case w of (st, fs) \<Rightarrow>
        (case lookup_server sid now fs st of
           (None, st') \<Rightarrow> ((reply_error 404 ''server_not_found'', []), st', fs)
         | (Some t, st') \<Rightarrow>
             (case ow_State (srv_Ownership t) of
                StateFree \<Rightarrow> ((reply_ok 200, ''noop''), st', fs)
              | StateOwnedSelf \<Rightarrow> remove_lock io now t (st', fs)
              | StateStale \<Rightarrow> if \<not> force then ((reply_error 409 ''lock_held'', []), st', fs)
                              else remove_lock io now t (st', fs)
              | StateOwnedOther \<Rightarrow> ((reply_error 409 ''lock_held'', []), st', fs))))"

definition cfgSlot :: "slot_cfg list \<Rightarrow> string \<Rightarrow> string list \<times> int" where
  "cfgSlot cfgs name =
     (case List.find (\<lambda>sc. sc_Name sc = name) cfgs of None \<Rightarrow> ([], 0) | Some sc \<Rightarrow> (sc_Types sc, sc_MaxMemoryMB sc))"

definition handleSlotCompatible :: "slot_cfg list \<Rightarrow> string \<Rightarrow> manager \<Rightarrow> store \<Rightarrow> reply \<times> server list" where
  "handleSlotCompatible cfgs name m st =
     (case mg_slots m name of
        None \<Rightarrow> (slot_missing, [])
      | Some _ \<Rightarrow>
          (reply_ok 200,
           filter (\<lambda>srv. ow_State (srv_Ownership srv) \<noteq> StateOwnedOther
                     \<and> (fst (cfgSlot cfgs name) = [] \<or> srv_Type srv \<in> set (fst (cfgSlot cfgs name))))
             (cat_Servers (st_cur st))))"

subsection \<open>Unlocking\<close>

lemma set_fold_add_server: "set (fold add_server cs acc) \<subseteq> set cs \<union> set acc"
proof (induction cs arbitrary: acc)
  case (Cons c cs)
  have "set (fold add_server cs (add_server c acc)) \<subseteq> set cs \<union> set (add_server c acc)" by (rule Cons.IH)
  moreover have "set (add_server c acc) \<subseteq> insert c (set acc)" by (auto simp: add_server_def)
  ultimately show ?case by auto
qed simp

text \<open>Every server of a catalog was scanned in its own directory.\<close>

lemma Scan_server:
  assumes "s \<in> set (cat_Servers (Scan fs now roots inst thr))"
  shows "\<exists>rt. scanOne fs now (srv_Path s) rt inst thr = Inr s"
proof -
  have "s \<in> set (candidates fs now roots inst thr)"
    using assms set_fold_add_server [of "candidates fs now roots inst thr" "[]"] by (auto simp: Scan_def fold_scan_root)
  then obtain rt dir where "scanOne fs now dir rt inst thr = Inr s"
    by (auto simp: candidates_def entry_server_def Let_def List.map_filter_def split: sum.splits if_splits)
  moreover from this have "srv_Path s = dir" by (auto simp: scanOne_def Let_def split: sum.splits)
  ultimately show ?thesis by auto
qed

lemma unowned_is_free:
  assumes "scanOne fs now dir rt inst thr = Inr s" and "fs_owners fs (Path dir) = None"
  shows "ow_State (srv_Ownership s) = StateFree"
proof (cases "read_config (fs_config_io fs dir) dir (fs_configs fs)")
  case (Inr cfg)
  have own: "(case Read (fs_owner_io fs dir) dir (fs_owners fs) of Inl _ \<Rightarrow> None | Inr o' \<Rightarrow> o') = None"
    using assms(2) by (simp add: Read_def split: option.split)
  then show ?thesis using assms(1) unfolding scanOne_def Inr Let_def own by (auto simp: Classify_def)
qed (use assms(1) in \<open>simp add: scanOne_def\<close>)

lemma remove_lock_released:
  assumes "remove_lock io now t (st, fs) = ((r, ''released''), st', fs')"
  shows "r = reply_ok 200 \<and> fs' = fs\<lparr>fs_owners := (fs_owners fs)(Path (srv_Path t) := None)\<rparr>
    \<and> st_cur st' = Scan fs' now (st_roots st) (st_instance st) (st_thr st)"
  using assms by (auto simp: remove_lock_def Remove_def store_Refresh_def Let_def fun_upd_idem split: if_splits option.splits)

text \<open>
  Removing a lock over HTTP.  An unknown server is \<open>404\<close>; one whose catalog entry is held by a live
  instance, or is stale without \<open>force\<close>, is \<open>409 lock_held\<close>; in these cases and for a free one no file
  changes.  Otherwise the owner file of that server and nothing else is deleted, and the catalog that
  is served from then on shows every server of that directory as free.
\<close>

theorem unlock_outcome:
  assumes "lookup_server sid now fs st = (found, st1)"
    and "handleDiscoveryUnlock None now sid force (st, fs) = ((r, act), st', fs')"
  shows "case found of
      None \<Rightarrow> r = reply_error 404 ''server_not_found'' \<and> fs' = fs
    | Some t \<Rightarrow>
        (if ow_State (srv_Ownership t) = StateOwnedSelf \<or> ow_State (srv_Ownership t) = StateStale \<and> force
         then r = reply_ok 200 \<and> fs' = fs\<lparr>fs_owners := (fs_owners fs)(Path (srv_Path t) := None)\<rparr>
              \<and> (\<forall>s\<in>set (cat_Servers (st_cur st')). srv_Path s = srv_Path t \<longrightarrow> ow_State (srv_Ownership s) = StateFree)
         else fs' = fs \<and> st' = st1
              \<and> r = (if ow_State (srv_Ownership t) = StateFree then reply_ok 200 else reply_error 409 ''lock_held''))"
proof (cases found)
  case None
  then show ?thesis using assms by (simp add: handleDiscoveryUnlock_def)
next
  case (Some t)
  show ?thesis
  proof (cases "ow_State (srv_Ownership t) = StateOwnedSelf \<or> ow_State (srv_Ownership t) = StateStale \<and> force")
    case True
    then have rl: "remove_lock None now t (st1, fs) = ((r, act), st', fs')"
      using assms Some by (auto simp: handleDiscoveryUnlock_def)
    then have "act = ''released''" by (auto simp: remove_lock_def Remove_def Let_def split: if_splits)
    note gone = remove_lock_released [OF rl [unfolded this]]
    have "ow_State (srv_Ownership s) = StateFree" if "s \<in> set (cat_Servers (st_cur st'))" "srv_Path s = srv_Path t" for s
    proof -
      have "s \<in> set (cat_Servers (Scan fs' now (st_roots st1) (st_instance st1) (st_thr st1)))"
        using that(1) gone by simp
      then obtain rt where "scanOne fs' now (srv_Path s) rt (st_instance st1) (st_thr st1) = Inr s"
        using Scan_server by blast
      then show ?thesis by (rule unowned_is_free) (simp add: gone that(2))
    qed
    then show ?thesis using True Some gone by auto
  next
    case False
    then show ?thesis using assms Some
      by (cases "ow_State (srv_Ownership t)") (auto simp: handleDiscoveryUnlock_def)
  qed
qed

text \<open>A store whose catalog says that the lock of the one server was left by a dead instance.\<close>

definition stale_server :: server where
  "stale_server = paper_server\<lparr>srv_Ownership := \<lparr>ow_State = StateStale, ow_Owner = Some (new_owner 0 (demo_req ''dead'' ''s''))\<rparr>\<rparr>"

definition stale_store :: store where
  "stale_store = (NewStore [''/srv''] ''i'')\<lparr>st_cur := \<lparr>cat_ScannedAt = 1, cat_Servers = [stale_server]\<rparr>\<rparr>"

lemma stale_lookup: "lookup_server ''id'' now fs stale_store = (Some stale_server, stale_store)"
  by (simp add: lookup_server_def stale_store_def FindByID_def stale_server_def paper_server_def)

theorem unlock_outcome_witness:
  "fst (fst (handleDiscoveryUnlock None 9 ''id'' True (stale_store, free_fs Map.empty))) = reply_ok 200"
proof -
  obtain r act st' fs' where h: "handleDiscoveryUnlock None 9 ''id'' True (stale_store, free_fs Map.empty) = ((r, act), st', fs')"
    by (metis prod_cases4 surj_pair)
  show ?thesis
    using unlock_outcome [OF stale_lookup h] h by (simp add: stale_server_def)
qed

text \<open>
  The decision rests on the cached catalog and not on the owner file: if the last scan saw a stale lock
  (or one of this instance), a forced request deletes whatever the file says by now, also the fresh lock
  of another live instance, and a start by this instance then succeeds although the other holds
  the server.
\<close>

theorem unlock_removes_live_lock:
  assumes "FindByID sid (st_cur st) = Some t" and "ow_State (srv_Ownership t) \<in> {StateStale, StateOwnedSelf}"
    and "fs_owners fs (Path (srv_Path t)) = Some (Holds own)" and "Classify now (Some own) inst DefaultStaleAfter = StateOwnedOther"
    and "rq_dir q = srv_Path t" and "rq_instance q = inst"
  shows "fst (TryAcquire now None NoFault tmp q (fs_owners fs)) = Inl (HeldByOther own)
    \<and> (\<exists>st' fs'. handleDiscoveryUnlock None now sid True (st, fs) = ((reply_ok 200, ''released''), st', fs')
          \<and> (\<exists>h. fst (TryAcquire now None NoFault tmp q (fs_owners fs')) = Inr h))"
proof
  show "fst (TryAcquire now None NoFault tmp q (fs_owners fs)) = Inl (HeldByOther own)"
    using assms(3-6) by (simp add: TryAcquire_def Read_def acquire_refusal_def)
  let ?fs = "fs\<lparr>fs_owners := (fs_owners fs)(Path (srv_Path t) := None)\<rparr>"
  have "handleDiscoveryUnlock None now sid True (st, fs) = remove_lock None now t (st, fs)"
    using assms(1,2) by (auto simp: handleDiscoveryUnlock_def lookup_server_def)
  also have "\<dots> = ((reply_ok 200, ''released''), snd (store_Refresh ?fs now st), ?fs)"
    using assms(3) by (simp add: remove_lock_def Remove_def Let_def)
  finally have u: "handleDiscoveryUnlock None now sid True (st, fs)
      = ((reply_ok 200, ''released''), snd (store_Refresh ?fs now st), ?fs)" .
  have "\<exists>h. fst (TryAcquire now None NoFault tmp q (fs_owners ?fs)) = Inr h"
    using assms(5)
    by (simp add: TryAcquire_def Read_def acquire_refusal_def writeOwnerAtomic_def atomic_write_def split: option.split prod.split)
  then show "\<exists>st' fs'. handleDiscoveryUnlock None now sid True (st, fs) = ((reply_ok 200, ''released''), st', fs')
      \<and> (\<exists>h. fst (TryAcquire now None NoFault tmp q (fs_owners fs')) = Inr h)"
    using u by blast
qed

text \<open>The owner the other instance wrote after that scan.\<close>

definition live_owner :: owner where
  "live_owner = new_owner 8 (demo_req ''other'' ''s'')"

theorem unlock_removes_live_lock_witness:
  "\<exists>st' fs'. handleDiscoveryUnlock None 9 ''id'' True
      (stale_store, free_fs [Path (srv_Path stale_server) \<mapsto> Holds live_owner]) = ((reply_ok 200, ''released''), st', fs')"
proof -
  have f: "FindByID ''id'' (st_cur stale_store) = Some stale_server"
    by (simp add: stale_store_def FindByID_def stale_server_def paper_server_def)
  have s: "ow_State (srv_Ownership stale_server) \<in> {StateStale, StateOwnedSelf}" by (simp add: stale_server_def)
  have o': "fs_owners (free_fs [Path (srv_Path stale_server) \<mapsto> Holds live_owner]) (Path (srv_Path stale_server)) = Some (Holds live_owner)"
    by (simp add: free_fs_def)
  have c: "Classify 9 (Some live_owner) ''i'' DefaultStaleAfter = StateOwnedOther"
    by (simp add: Classify_def IsStale_def live_owner_def new_owner_def demo_req_def DefaultStaleAfter_def)
  show ?thesis
    using unlock_removes_live_lock [OF f s o' c, where q = "(demo_req ''i'' ''s'')\<lparr>rq_dir := srv_Path stale_server\<rparr>"
        and tmp = "''/tmp1''"] by (auto simp: demo_req_def)
qed

subsection \<open>What a slot can mount\<close>

lemma NewManager_fold:
  "(\<forall>sc\<in>set cfgs. sc_Name sc \<noteq> name) \<Longrightarrow>
     mg_slots (fold (\<lambda>sc m. m\<lparr>mg_slots := (mg_slots m)(sc_Name sc \<mapsto> NewSlot now sc inst host),
                   mg_order := mg_order m @ [sc_Name sc]\<rparr>) cfgs m) name = mg_slots m name"
  by (induction cfgs arbitrary: m) auto

lemma NewManager_slot:
  assumes "distinct (map sc_Name cfgs)" and "sc \<in> set cfgs"
  shows "mg_slots (NewManager now cfgs inst host) (sc_Name sc) = Some (NewSlot now sc inst host)"
    and "List.find (\<lambda>c. sc_Name c = sc_Name sc) cfgs = Some sc"
proof -
  obtain as bs where c: "cfgs = as @ sc # bs" using assms(2) by (auto simp: in_set_conv_decomp)
  then have b: "\<forall>x\<in>set bs. sc_Name x \<noteq> sc_Name sc" and a: "\<forall>x\<in>set as. sc_Name x \<noteq> sc_Name sc"
    using assms(1) by (metis (no_types, lifting) disjoint_iff distinct.simps(2) distinct_append image_eqI list.set_intros(1)
        list.set_map list.simps(9) map_append)+
  show "mg_slots (NewManager now cfgs inst host) (sc_Name sc) = Some (NewSlot now sc inst host)"
    by (simp add: NewManager_def c NewManager_fold [OF b])
  have "List.find (\<lambda>c. sc_Name c = sc_Name sc) as = None" using a by (simp add: find_None_iff)
  then show "List.find (\<lambda>c. sc_Name c = sc_Name sc) cfgs = Some sc" by (simp add: c find_append)
qed



end
