(* ===== verification/Backup.thy ===== *)
theory Backup
  imports GoPath
begin

text \<open>
  \<open>internal/backup/backup.go\<close>: taking a ZIP snapshot of a server's directory, listing and
  deleting snapshots, and extracting one over a directory.

  The store is a map from paths to what the file holds: an archive (its entries in order, a
  directory entry without contents), a metadata record, or bytes that decode to neither.  The
  directory that is backed up is the tree \<open>WalkDir\<close> visits in lexical order; a node carries the
  error the calls on it would return.  The clock reading is an argument, as the text that
  \<open>Format("20060102-150405")\<close> gives and as the instant.  The deflate codec and the file modes are
  left out: an entry's contents are the bytes copied into it.
\<close>

record backup_includes =
  inc_World :: bool
  inc_Properties :: bool
  inc_Logs :: bool

record meta =
  meta_ID :: string
  meta_ServerID :: string
  meta_Label :: string
  meta_Mode :: string
  meta_CreatedAt :: time
  meta_BytesTotal :: int
  meta_FileCount :: int
  meta_Includes :: backup_includes

definition ModeOnline :: string where "ModeOnline = ''online''"
definition ModeOffline :: string where "ModeOffline = ''offline''"

type_synonym archive = "(string \<times> string option) list"

datatype blob = Archive archive | MetaFile meta | RawFile string

type_synonym blobs = "string \<rightharpoonup> blob"

datatype backup_error =
    InvalidMode string | BackupIO go_error | BackupNotFound | UnsafePath string | EscapesServerDir string

definition serverDir :: "string \<Rightarrow> string \<Rightarrow> string" where
  "serverDir root serverID = path_Join [root, serverID]"

definition metaPath :: "string \<Rightarrow> string \<Rightarrow> string \<Rightarrow> string" where
  "metaPath root serverID bid = path_Join [serverDir root serverID, bid @ ''.json'']"

definition zipPath :: "string \<Rightarrow> string \<Rightarrow> string \<Rightarrow> string" where
  "zipPath root serverID bid = path_Join [serverDir root serverID, bid @ ''.zip'']"

subsection \<open>Identifiers\<close>

definition label_char :: "char \<Rightarrow> bool" where
  "label_char c \<longleftrightarrow>
     (let n = (of_char c :: nat)
      in 97 \<le> n \<and> n \<le> 122 \<or> 65 \<le> n \<and> n \<le> 90 \<or> 48 \<le> n \<and> n \<le> 57
         \<or> c = CHR ''-'' \<or> c = CHR ''_'')"

definition sanitizeLabel :: "string \<Rightarrow> string" where
  "sanitizeLabel s =
     (let out = concat (map (\<lambda>c. if label_char c then [c]
                                 else if c = CHR '' '' then ''-'' else []) s)
      in if 64 < length out then take 64 out else out)"

definition buildID :: "string \<Rightarrow> string \<Rightarrow> string" where
  "buildID ts label = (if label = [] then ts else ts @ ''-'' @ sanitizeLabel label)"

lemma sanitizeLabel_chars: "c \<in> set (sanitizeLabel s) \<Longrightarrow> label_char c"
proof -
  assume c: "c \<in> set (sanitizeLabel s)"
  have "label_char CHR ''-''" by (simp add: label_char_def)
  with c show ?thesis
    by (auto simp: sanitizeLabel_def Let_def split: if_splits dest!: in_set_takeD)
qed

lemma sanitizeLabel_length: "length (sanitizeLabel s) \<le> 64"
  by (simp add: sanitizeLabel_def Let_def)

subsection \<open>What goes into an archive\<close>

definition shouldExclude :: "string \<Rightarrow> bool \<Rightarrow> bool" where
  "shouldExclude rel includeLogs \<longleftrightarrow>
     (if rel = ''.mcsm'' \<or> HasPrefix rel ''.mcsm/'' then rel = path_Join [''.mcsm'', ''owner.json'']
      else if rel = ''logs'' \<or> HasPrefix rel ''logs/'' then \<not> includeLogs
      else if HasSuffix rel ''.jfr'' \<or> HasSuffix rel ''.hprof'' \<or> HasPrefix (Base rel) ''core.'' then True
      else if rel = ''cache'' \<or> HasPrefix rel ''cache/'' then True
      else False)"

text \<open>
  A node of the tree: the error \<open>Info\<close>, \<open>CreateHeader\<close>, \<open>Open\<close>, \<open>Copy\<close> or \<open>ReadDir\<close> returns on
  it, if one does, and the bytes of a file or the nodes of a directory.
\<close>

datatype tree =
    FileNode string "go_error option" string
  | DirNode string "go_error option" "tree list"

record walk =
  wk_archive :: archive
  wk_bytes :: int
  wk_files :: int
  wk_calls :: nat

definition join_rel :: "string \<Rightarrow> string \<Rightarrow> string" where
  "join_rel pre name = (if pre = [] then name else pre @ slash # name)"

text \<open>
  \<open>ctx k\<close> is the error \<open>ctx.Err()\<close> gives on the \<open>k\<close>-th call of the function, so a cancellation can
  arrive at any entry.
\<close>

definition add_entry :: "string \<Rightarrow> string option \<Rightarrow> walk \<Rightarrow> walk" where
  "add_entry name body w =
     w\<lparr>wk_archive := wk_archive w @ [(name, body)],
       wk_bytes := wk_bytes w + (case body of None \<Rightarrow> 0 | Some b \<Rightarrow> int (length b)),
       wk_files := wk_files w + (case body of None \<Rightarrow> 0 | Some b \<Rightarrow> 1)\<rparr>"

fun walk_node :: "(nat \<Rightarrow> go_error option) \<Rightarrow> bool \<Rightarrow> string \<Rightarrow> tree \<Rightarrow> walk \<Rightarrow> go_error option \<times> walk"
  and walk_nodes :: "(nat \<Rightarrow> go_error option) \<Rightarrow> bool \<Rightarrow> string \<Rightarrow> tree list \<Rightarrow> walk \<Rightarrow> go_error option \<times> walk" where
  "walk_node ctx logs pre (FileNode n err b) w =
     (let rel = join_rel pre n; w1 = w\<lparr>wk_calls := Suc (wk_calls w)\<rparr>
      in case ctx (wk_calls w) of
           Some e \<Rightarrow> (Some e, w1)
         | None \<Rightarrow>
             if shouldExclude rel logs then (None, w1)
             else (case err of Some e \<Rightarrow> (Some e, w1)
                   | None \<Rightarrow> (None, add_entry rel (Some b) w1)))"
| "walk_node ctx logs pre (DirNode n err ts) w =
     (let rel = join_rel pre n; w1 = w\<lparr>wk_calls := Suc (wk_calls w)\<rparr>
      in case ctx (wk_calls w) of
           Some e \<Rightarrow> (Some e, w1)
         | None \<Rightarrow>
             if shouldExclude rel logs then (None, w1)
             else (case err of Some e \<Rightarrow> (Some e, w1)
                   | None \<Rightarrow> walk_nodes ctx logs rel ts (add_entry (rel @ [slash]) None w1)))"
| "walk_nodes ctx logs pre [] w = (None, w)"
| "walk_nodes ctx logs pre (t # ts) w =
     (case walk_node ctx logs pre t w of
        (Some e, w') \<Rightarrow> (Some e, w')
      | (None, w') \<Rightarrow> walk_nodes ctx logs pre ts w')"

subsection \<open>Creating a backup\<close>

record create_opts =
  co_Label :: string
  co_Mode :: string
  co_IncludeLogs :: bool
  co_SaveControl :: bool

record create_faults =
  cf_mkdir :: "go_error option"
  cf_pause :: "go_error option"
  cf_open :: "go_error option"
  cf_root :: "go_error option"
  cf_close :: "go_error option"
  cf_rename :: "go_error option"
  cf_meta :: "(blob option \<times> go_error) option"

datatype control_call = PauseSaves | ResumeSaves

definition new_meta :: "string \<Rightarrow> string \<Rightarrow> time \<Rightarrow> create_opts \<Rightarrow> walk \<Rightarrow> meta" where
  "new_meta bid serverID now opts w =
     \<lparr>meta_ID = bid, meta_ServerID = serverID, meta_Label = co_Label opts, meta_Mode = co_Mode opts,
      meta_CreatedAt = now, meta_BytesTotal = wk_bytes w, meta_FileCount = wk_files w,
      meta_Includes = \<lparr>inc_World = True, inc_Properties = True, inc_Logs = co_IncludeLogs opts\<rparr>\<rparr>"

text \<open>
  Everything after the archive file is created: the walk, closing, the rename and the metadata.
  A failed metadata write may leave a partial file behind, which the fault says.
\<close>

definition fill_archive ::
  "string \<Rightarrow> (nat \<Rightarrow> go_error option) \<Rightarrow> string \<Rightarrow> string \<Rightarrow> time \<Rightarrow> create_opts \<Rightarrow> create_faults \<Rightarrow>
   tree list \<Rightarrow> blobs \<Rightarrow> (backup_error + meta) \<times> blobs" where
  "fill_archive root ctx bid serverID now opts f ts fs =
     (let final = zipPath root serverID bid; tmp = final @ ''.part'';
          fs1 = fs(tmp \<mapsto> RawFile []);
          w0 = \<lparr>wk_archive = [], wk_bytes = 0, wk_files = 0, wk_calls = 1\<rparr>;
          (werr, w) = (case cf_root f of Some e \<Rightarrow> (Some e, w0)
                       | None \<Rightarrow> (case ctx 0 of Some e \<Rightarrow> (Some e, w0)
                         | None \<Rightarrow> walk_nodes ctx (co_IncludeLogs opts) [] ts w0));
          err = (case werr of Some e \<Rightarrow> Some e | None \<Rightarrow> cf_close f)
      in case err of Some e \<Rightarrow> (Inl (BackupIO e), fs1(tmp := None))
         | None \<Rightarrow>
        (case cf_rename f of Some e \<Rightarrow> (Inl (BackupIO e), fs1(tmp := None))
         | None \<Rightarrow>
          (let fs2 = (fs1(tmp := None))(final \<mapsto> Archive (wk_archive w));
               m = new_meta bid serverID now opts w; mp = metaPath root serverID bid
           in case cf_meta f of
                Some (left, e) \<Rightarrow> (Inl (BackupIO e), (fs2(mp := left))(final := None))
              | None \<Rightarrow> (Inr m, fs2(mp \<mapsto> MetaFile m)))))"

definition Create ::
  "string \<Rightarrow> (nat \<Rightarrow> go_error option) \<Rightarrow> string \<Rightarrow> time \<Rightarrow> string \<Rightarrow> tree list \<Rightarrow> create_opts \<Rightarrow>
   create_faults \<Rightarrow> blobs \<Rightarrow> (backup_error + meta) \<times> control_call list \<times> blobs" where
  "Create root ctx ts now serverID tree opts0 f fs =
     (let opts = (if co_Mode opts0 = [] then opts0\<lparr>co_Mode := ModeOnline\<rparr> else opts0)
      in if co_Mode opts \<noteq> ModeOnline \<and> co_Mode opts \<noteq> ModeOffline
         then (Inl (InvalidMode (co_Mode opts)), [], fs)
         else
        (let bid = buildID ts (co_Label opts)
         in case cf_mkdir f of Some e \<Rightarrow> (Inl (BackupIO e), [], fs)
            | None \<Rightarrow>
           (let control = co_Mode opts = ModeOnline \<and> co_SaveControl opts;
                calls = (if control then [PauseSaves, ResumeSaves] else [])
            in case (if control then cf_pause f else None) of
                 Some e \<Rightarrow> (Inl (BackupIO e), [PauseSaves], fs)
               | None \<Rightarrow>
              (case cf_open f of Some e \<Rightarrow> (Inl (BackupIO e), calls, fs)
               | None \<Rightarrow>
                 (case fill_archive root ctx bid serverID now opts f tree fs of
                    (r, fs') \<Rightarrow> (r, calls, fs'))))))"

subsection \<open>Listing, reading and deleting\<close>

text \<open>
  \<open>names\<close> is what \<open>ReadDir\<close> returns for the server's directory (sorted by name).  Backups taken
  at the same instant are in an order \<open>sort.Slice\<close> does not promise; here they keep the order of
  their names.
\<close>

definition read_meta :: "blobs \<Rightarrow> string \<Rightarrow> meta option" where
  "read_meta fs p = (case fs p of Some (MetaFile m) \<Rightarrow> Some m | _ \<Rightarrow> None)"

definition backup_List :: "string \<Rightarrow> string \<Rightarrow> string list \<Rightarrow> blobs \<Rightarrow> meta list" where
  "backup_List root serverID names fs =
     (let dir = serverDir root serverID;
          found = List.map_filter
            (\<lambda>n. if HasSuffix n ''.json'' then read_meta fs (path_Join [dir, n]) else None) names
      in sort_key (\<lambda>m. - meta_CreatedAt m) found)"

definition backup_Get :: "string \<Rightarrow> string \<Rightarrow> string \<Rightarrow> blobs \<Rightarrow> backup_error + meta" where
  "backup_Get root serverID bid fs =
     (case fs (metaPath root serverID bid) of
        None \<Rightarrow> Inl BackupNotFound
      | Some (MetaFile m) \<Rightarrow> Inr m
      | Some _ \<Rightarrow> Inl (BackupIO ''json''))"

text \<open>\<open>faults p\<close> is an error other than not-exist that \<open>os.Remove p\<close> would return.\<close>

datatype remove_result = Removed | NotExist | RemoveFails go_error

definition os_Remove :: "(string \<Rightarrow> go_error option) \<Rightarrow> string \<Rightarrow> blobs \<Rightarrow> remove_result \<times> blobs" where
  "os_Remove faults p fs =
     (if fs p = None then (NotExist, fs)
      else case faults p of Some e \<Rightarrow> (RemoveFails e, fs) | None \<Rightarrow> (Removed, fs(p := None)))"

definition backup_Delete ::
  "string \<Rightarrow> (string \<Rightarrow> go_error option) \<Rightarrow> string \<Rightarrow> string \<Rightarrow> blobs \<Rightarrow> backup_error option \<times> blobs" where
  "backup_Delete root faults serverID bid fs =
     (let z = zipPath root serverID bid; mp = metaPath root serverID bid;
          (zerr, fs1) = os_Remove faults z fs;
          (merr, fs2) = os_Remove faults mp fs1
      in (case zerr of RemoveFails e \<Rightarrow> Some (BackupIO e)
          | _ \<Rightarrow> (case merr of RemoveFails e \<Rightarrow> Some (BackupIO e)
             | _ \<Rightarrow> if zerr = NotExist \<and> merr = NotExist then Some BackupNotFound else None), fs2))"

subsection \<open>Restoring\<close>

text \<open>
  An entry of the archive as \<open>zip.OpenReader\<close> presents it: nothing is assumed about the name.
  The faults are the errors of \<open>MkdirAll\<close>, of opening the entry or the destination, and of the
  copy, which leaves the bytes copied so far.
\<close>

record zip_entry =
  ze_Name :: string
  ze_IsDir :: bool
  ze_body :: string
  ze_mkdir :: "go_error option"
  ze_open :: "go_error option"
  ze_copy :: "(string \<times> go_error) option"

record host_dir =
  hd_files :: "string \<rightharpoonup> string"
  hd_dirs :: "string set"

definition path_Dir :: "string \<Rightarrow> string" where
  "path_Dir p = Clean (rev (dropWhile (\<lambda>c. c \<noteq> slash) (rev p)))"

definition safe_dst :: "string \<Rightarrow> string \<Rightarrow> backup_error + string" where
  "safe_dst sd name =
     (let clean = Clean name
      in if HasPrefix clean ''..'' \<or> HasPrefix clean ''/'' then Inl (UnsafePath name)
         else
        (let dst = path_Join [sd, clean]
         in if \<not> HasPrefix dst (Clean sd @ [slash]) \<and> dst \<noteq> Clean sd
            then Inl (EscapesServerDir dst) else Inr dst))"

definition restore_entry :: "string \<Rightarrow> zip_entry \<Rightarrow> host_dir \<Rightarrow> backup_error option \<times> host_dir" where
  "restore_entry sd z h =
     (case safe_dst sd (ze_Name z) of
        Inl e \<Rightarrow> (Some e, h)
      | Inr dst \<Rightarrow>
          if ze_IsDir z then
            (case ze_mkdir z of Some e \<Rightarrow> (Some (BackupIO e), h)
             | None \<Rightarrow> (None, h\<lparr>hd_dirs := insert dst (hd_dirs h)\<rparr>))
          else
            (case ze_mkdir z of Some e \<Rightarrow> (Some (BackupIO e), h)
             | None \<Rightarrow>
               (let h1 = h\<lparr>hd_dirs := insert (path_Dir dst) (hd_dirs h)\<rparr>
                in case ze_open z of Some e \<Rightarrow> (Some (BackupIO e), h1)
                   | None \<Rightarrow>
                     (case ze_copy z of
                        Some (part, e) \<Rightarrow> (Some (BackupIO e), h1\<lparr>hd_files := (hd_files h1)(dst \<mapsto> part)\<rparr>)
                      | None \<Rightarrow> (None, h1\<lparr>hd_files := (hd_files h1)(dst \<mapsto> ze_body z)\<rparr>)))))"

fun restore_entries ::
  "(nat \<Rightarrow> go_error option) \<Rightarrow> nat \<Rightarrow> string \<Rightarrow> zip_entry list \<Rightarrow> host_dir \<Rightarrow> backup_error option \<times> host_dir" where
  "restore_entries ctx k sd [] h = (None, h)"
| "restore_entries ctx k sd (z # zs) h =
     (case ctx k of Some e \<Rightarrow> (Some (BackupIO e), h)
      | None \<Rightarrow>
         (case restore_entry sd z h of
            (Some e, h') \<Rightarrow> (Some e, h')
          | (None, h') \<Rightarrow> restore_entries ctx (Suc k) sd zs h'))"

text \<open>
  \<open>read_zip p\<close> is what \<open>zip.OpenReader\<close> makes of the file at \<open>p\<close>: not there, not an archive, or
  its entries.
\<close>

datatype zip_read = ZipMissing | ZipBad go_error | ZipEntries "zip_entry list"

definition Restore ::
  "string \<Rightarrow> (nat \<Rightarrow> go_error option) \<Rightarrow> (string \<Rightarrow> zip_read) \<Rightarrow> string \<Rightarrow> string \<Rightarrow> string \<Rightarrow>
   host_dir \<Rightarrow> backup_error option \<times> host_dir" where
  "Restore root ctx read_zip serverID bid sd h =
     (case read_zip (zipPath root serverID bid) of
        ZipMissing \<Rightarrow> (Some BackupNotFound, h)
      | ZipBad e \<Rightarrow> (Some (BackupIO e), h)
      | ZipEntries zs \<Rightarrow> restore_entries ctx 0 sd zs h)"

subsection \<open>Where the store keeps things\<close>

lemma label_char_not_slash: "label_char c \<Longrightarrow> c \<noteq> slash"
  by (auto simp: label_char_def Let_def)

lemma buildID_chars: "list_all label_char ts \<Longrightarrow> list_all label_char (buildID ts label)"
  by (auto simp: buildID_def list_all_iff dest: sanitizeLabel_chars) (simp add: label_char_def)

lemma store_paths:
  assumes "list_all label_char bid"
  obtains P where "zipPath root sid bid = P @ ''.zip''" "metaPath root sid bid = P @ ''.json''"
proof -
  obtain P where P: "\<And>e. plain_elem e \<Longrightarrow> path_Join [serverDir root sid, e] = P @ e"
    using path_Join_plain_suffix by blast
  have "slash \<notin> set bid" using assms label_char_not_slash by (auto simp: list_all_iff)
  then have "plain_elem (bid @ ''.zip'')" "plain_elem (bid @ ''.json'')"
    by (auto simp: plain_elem_def append_eq_Cons_conv)
  then show ?thesis
    using that [of "P @ bid"] by (simp add: zipPath_def metaPath_def P)
qed

subsection \<open>What an archive holds\<close>

text \<open>
  The entries of a tree by their path elements, and the reference statement of what is kept: an
  entry stays out exactly when it, or a directory above it, is excluded.
\<close>

fun entries_node :: "string list \<Rightarrow> tree \<Rightarrow> (string list \<times> string option) list"
  and entries_nodes :: "string list \<Rightarrow> tree list \<Rightarrow> (string list \<times> string option) list" where
  "entries_node pre (FileNode n err b) = [(pre @ [n], Some b)]"
| "entries_node pre (DirNode n err ts) = (pre @ [n], None) # entries_nodes (pre @ [n]) ts"
| "entries_nodes pre [] = []"
| "entries_nodes pre (t # ts) = entries_node pre t @ entries_nodes pre ts"

definition kept :: "bool \<Rightarrow> string list \<Rightarrow> bool" where
  "kept logs es \<longleftrightarrow>
     list_all (\<lambda>k. \<not> shouldExclude (Join (take k es) [slash]) logs) [1..<Suc (length es)]"

definition kept_entries :: "bool \<Rightarrow> tree list \<Rightarrow> (string list \<times> string option) list" where
  "kept_entries logs ts = filter (\<lambda>(es, _). kept logs es) (entries_nodes [] ts)"

definition archive_name :: "string list \<times> string option \<Rightarrow> string \<times> string option" where
  "archive_name e = (case e of (es, body) \<Rightarrow>
     (Join es [slash] @ (case body of None \<Rightarrow> [slash] | Some _ \<Rightarrow> []), body))"

definition plain_tree :: "tree list \<Rightarrow> bool" where
  "plain_tree ts \<longleftrightarrow> list_all (\<lambda>(es, _). list_all plain_elem es) (entries_nodes [] ts)"

lemma kept_snoc: "kept logs (es @ [n]) \<longleftrightarrow> kept logs es \<and> \<not> shouldExclude (Join (es @ [n]) [slash]) logs"
  by (auto simp: kept_def list_all_iff)

lemma kept_prefix: "kept logs (es @ fs) \<Longrightarrow> kept logs es"
proof (induction fs rule: rev_induct)
  case (snoc x xs)
  then show ?case using kept_snoc [of logs "es @ xs" x] by simp
qed simp

lemma entries_below:
  "(es, b) \<in> set (entries_node pre t) \<Longrightarrow> \<exists>n fs. es = pre @ n # fs"
  "(es, b) \<in> set (entries_nodes pre ts) \<Longrightarrow> \<exists>n fs. es = pre @ n # fs"
proof (induction pre t and pre ts rule: entries_node_entries_nodes.induct)
  case (2 pre n err ts)
  then show ?case by auto
qed auto

lemma excluded_below:
  "\<not> kept logs pre \<Longrightarrow> filter (\<lambda>(es, _). kept logs es) (entries_nodes pre ts) = []"
  using entries_below(2) kept_prefix by (fastforce simp: filter_empty_conv)

lemma join_rel_Join:
  "list_all plain_elem pre \<Longrightarrow> join_rel (Join pre [slash]) n = Join (pre @ [n]) [slash]"
proof (cases "pre = []")
  case False
  assume "list_all plain_elem pre"
  then have "Join pre [slash] \<noteq> []"
    using False Join_Cons_head [of "hd pre" "tl pre" "[slash]"] by (cases pre) (auto simp: plain_elem_def)
  then show ?thesis using False by (simp add: join_rel_def Join_snoc)
qed (simp add: join_rel_def)

definition body_bytes :: "(string list \<times> string option) list \<Rightarrow> int" where
  "body_bytes es = (\<Sum>(_, b)\<leftarrow>es. case b of None \<Rightarrow> 0 | Some x \<Rightarrow> int (length x))"

definition body_files :: "(string list \<times> string option) list \<Rightarrow> int" where
  "body_files es = int (length (filter (\<lambda>(_, b). b \<noteq> None) es))"

text \<open>The walk has added the entries \<open>es\<close> to the archive.\<close>

definition walked :: "walk \<Rightarrow> walk \<Rightarrow> (string list \<times> string option) list \<Rightarrow> bool" where
  "walked w w' es \<longleftrightarrow>
     wk_archive w' = wk_archive w @ map archive_name es \<and>
     wk_bytes w' = wk_bytes w + body_bytes es \<and> wk_files w' = wk_files w + body_files es"

lemma walked_Nil: "walked w (w\<lparr>wk_calls := k\<rparr>) []"
  by (simp add: walked_def body_bytes_def body_files_def)

lemma walked_refl: "walked w w []"
  by (simp add: walked_def body_bytes_def body_files_def)

lemma walked_add:
  "walked w (add_entry (Join es [slash] @ (if b = None then [slash] else [])) b (w\<lparr>wk_calls := k\<rparr>)) [(es, b)]"
  by (cases b) (auto simp: walked_def add_entry_def archive_name_def body_bytes_def body_files_def)

lemma walked_trans: "walked w w' es \<Longrightarrow> walked w' w'' fs \<Longrightarrow> walked w w'' (es @ fs)"
  by (auto simp: walked_def body_bytes_def body_files_def)

abbreviation keep_filter :: "bool \<Rightarrow> (string list \<times> string option) list \<Rightarrow> (string list \<times> string option) list" where
  "keep_filter logs \<equiv> filter (\<lambda>(es, _). kept logs es)"

lemma walk_archives:
  "walk_node ctx logs rel t w = (None, w') \<Longrightarrow> rel = Join pre [slash] \<Longrightarrow> kept logs pre \<Longrightarrow>
     list_all plain_elem pre \<Longrightarrow> list_all (\<lambda>(es, _). list_all plain_elem es) (entries_node pre t) \<Longrightarrow>
     walked w w' (keep_filter logs (entries_node pre t))"
  "walk_nodes ctx logs rel ts w = (None, w') \<Longrightarrow> rel = Join pre [slash] \<Longrightarrow> kept logs pre \<Longrightarrow>
     list_all plain_elem pre \<Longrightarrow> list_all (\<lambda>(es, _). list_all plain_elem es) (entries_nodes pre ts) \<Longrightarrow>
     walked w w' (keep_filter logs (entries_nodes pre ts))"
proof (induction ctx logs rel t w and ctx logs rel ts w arbitrary: pre w' and pre w'
    rule: walk_node_walk_nodes.induct)
  case (1 ctx logs rel n err b w)
  then show ?case
    using walked_add [of w "pre @ [n]" "Some b"]
    by (auto simp: Let_def join_rel_Join kept_snoc walked_Nil split: option.splits if_splits)
next
  case (2 ctx logs rel n err ts w)
  let ?d = "pre @ [n]"
  have j: "join_rel rel n = Join ?d [slash]" using 2 by (simp add: join_rel_Join)
  have c: "ctx (wk_calls w) = None" using "2.prems"(1) by (auto simp: Let_def split: option.splits)
  show ?case
  proof (cases "shouldExclude (Join ?d [slash]) logs")
    case True
    then have "\<not> kept logs ?d" by (simp add: kept_snoc)
    then show ?thesis using "2.prems"(1) c j True
      by (auto simp: Let_def walked_Nil excluded_below)
  next
    case False
    then have k: "kept logs ?d" using "2.prems" by (simp add: kept_snoc)
    have e: "err = None" using "2.prems"(1) c j False by (auto simp: Let_def split: option.splits)
    let ?w1 = "add_entry (Join ?d [slash] @ [slash]) None (w\<lparr>wk_calls := Suc (wk_calls w)\<rparr>)"
    have r: "walk_nodes ctx logs (Join ?d [slash]) ts ?w1 = (None, w')"
      using "2.prems"(1) c j False e by (simp add: Let_def)
    have p: "list_all plain_elem ?d" "list_all (\<lambda>(es, _). list_all plain_elem es) (entries_nodes ?d ts)"
      using "2.prems" by simp_all
    have "walked ?w1 w' (keep_filter logs (entries_nodes ?d ts))"
      using "2.IH" [OF refl refl] c j False e r k p by simp
    moreover have "walked w ?w1 [(?d, None)]"
      using walked_add [of w ?d None "Suc (wk_calls w)"] by simp
    ultimately have "walked w w' ([(?d, None)] @ keep_filter logs (entries_nodes ?d ts))"
      by (rule walked_trans [rotated])
    then show ?thesis using k by simp
  qed
next
  case (3 ctx logs rel w)
  then show ?case by (simp add: walked_refl)
next
  case (4 ctx logs rel t ts w)
  obtain w1 where w1: "walk_node ctx logs rel t w = (None, w1)" "walk_nodes ctx logs rel ts w1 = (None, w')"
    using "4.prems"(1) by (auto split: prod.splits option.splits)
  then show ?case
    using "4.IH"(1) [OF w1(1)] "4.IH"(2) [OF w1(1) [symmetric] refl w1(2)] "4.prems"
    by (auto intro: walked_trans)
qed

subsection \<open>Creating\<close>

text \<open>A file name never holds a slash, and a directory never two entries of one name.\<close>

definition well_formed :: "tree list \<Rightarrow> bool" where
  "well_formed ts \<longleftrightarrow> plain_tree ts \<and> distinct (map fst (entries_nodes [] ts))"

lemma fill_archive_success:
  assumes "fill_archive root ctx bid sid now opts f ts fs = (Inr m, fs')"
    and "list_all label_char bid" and "plain_tree ts"
  shows "fs' (zipPath root sid bid)
           = Some (Archive (map archive_name (kept_entries (co_IncludeLogs opts) ts)))
       \<and> fs' (metaPath root sid bid) = Some (MetaFile m) \<and> meta_ID m = bid
       \<and> meta_FileCount m = body_files (kept_entries (co_IncludeLogs opts) ts)
       \<and> meta_BytesTotal m = body_bytes (kept_entries (co_IncludeLogs opts) ts)"
proof -
  let ?w0 = "\<lparr>wk_archive = [], wk_bytes = 0, wk_files = 0, wk_calls = 1\<rparr>"
  obtain P where P: "zipPath root sid bid = P @ ''.zip''" "metaPath root sid bid = P @ ''.json''"
    using store_paths [OF assms(2)] by blast
  obtain w where w: "walk_nodes ctx (co_IncludeLogs opts) [] ts ?w0 = (None, w)"
    and m: "m = new_meta bid sid now opts w"
    and fs': "fs' = (((fs(P @ ''.zip.part'' \<mapsto> RawFile []))(P @ ''.zip.part'' := None))
                      (P @ ''.zip'' \<mapsto> Archive (wk_archive w)))(P @ ''.json'' \<mapsto> MetaFile m)"
    using assms(1) by (auto simp: fill_archive_def Let_def P split: option.splits prod.splits)
  have "walked ?w0 w (kept_entries (co_IncludeLogs opts) ts)"
    using walk_archives(2) [OF w, of "[]"] assms(3)
    by (simp add: kept_entries_def plain_tree_def kept_def)
  then show ?thesis by (auto simp: fs' P m walked_def new_meta_def)
qed

lemma fill_archive_failure:
  assumes "fill_archive root ctx bid sid now opts f ts fs = (Inl e, fs')"
    and "list_all label_char bid"
  shows "fs' = fs(zipPath root sid bid @ ''.part'' := None)
       \<or> (\<exists>left e'. cf_meta f = Some (left, e')
            \<and> fs' = fs(zipPath root sid bid @ ''.part'' := None, metaPath root sid bid := left,
                       zipPath root sid bid := None))"
proof -
  obtain P where P: "zipPath root sid bid = P @ ''.zip''" "metaPath root sid bid = P @ ''.json''"
    using store_paths [OF assms(2)] by blast
  show ?thesis
    using assms(1) by (auto simp: fill_archive_def Let_def P split: option.splits prod.splits)
qed


subsection \<open>Restoring\<close>

text \<open>The place of an entry under a server's directory.\<close>

definition place :: "string \<Rightarrow> string list \<Rightarrow> string" where
  "place sd es = Join (Clean sd # es) [slash]"

text \<open>An absolute directory other than the root of the file system.\<close>

definition proper_dir :: "string \<Rightarrow> bool" where
  "proper_dir sd \<longleftrightarrow> rooted sd \<and> path_elems sd \<noteq> []"

lemma proper_dir_Clean: "proper_dir sd \<Longrightarrow> Clean sd = slash # Join (path_elems sd) [slash]"
  by (simp add: proper_dir_def Clean_def Let_def)

lemma join_place:
  assumes "proper_dir sd" "es \<noteq> []" "list_all plain_elem es"
  shows "path_Join [sd, Join es [slash]] = place sd es"
proof -
  have sd: "sd \<noteq> []" "rooted sd" "path_elems sd \<noteq> []" using assms(1) by (auto simp: proper_dir_def rooted_def)
  have "Join es [slash] \<noteq> []"
    using assms(2,3) Join_Cons_head [of "hd es" "tl es" "[slash]"] by (cases es) (auto simp: plain_elem_def)
  then have "path_Join [sd, Join es [slash]] = Clean (sd @ slash # Join es [slash])"
    using sd by (simp add: path_Join_two)
  also have "\<dots> = slash # Join (path_elems sd @ es) [slash]"
    using sd assms(2,3) by (simp add: Clean_def Let_def rooted_append path_elems_append_plain)
  also have "\<dots> = place sd es"
    using sd assms(1,2) by (simp add: place_def proper_dir_Clean Join_append Join_prefix_cons)
  finally show ?thesis .
qed

lemma place_under: "es \<noteq> [] \<Longrightarrow> HasPrefix (place sd es) (Clean sd @ [slash])"
  by (simp add: place_def Join_prefix_cons HasPrefix_prefix)

text \<open>
  Whatever name an archive entry has, the path that restoring writes to is the server's directory
  itself or lies under it, with no element \<open>..\<close> in what follows.
\<close>

lemma safe_dst_inside:
  assumes "safe_dst sd name = Inr dst" and sd: "proper_dir sd"
  shows "\<exists>es. list_all plain_elem es \<and> dst = place sd es"
proof -
  let ?c = "Clean name"
  have c: "\<not> HasPrefix ?c ''..''" "\<not> HasPrefix ?c ''/''" and dst: "dst = path_Join [sd, ?c]"
    using assms(1) by (auto simp: safe_dst_def Let_def split: if_splits)
  have nr: "\<not> rooted name" using c(2) by (auto simp: Clean_def Let_def)
  obtain n ps where es: "path_elems name = replicate n ''..'' @ ps" and ps: "list_all plain_elem ps"
    using path_elems_shape [of name] by (auto simp: clean_shape_def)
  have "n = 0"
  proof (rule ccontr)
    assume "n \<noteq> 0"
    then obtain k where "n = Suc k" by (cases n) auto
    then obtain r where "?c = ''..'' @ r"
      using nr es Join_Cons_head [of "''..''" "replicate k ''..'' @ ps" "[slash]"]
      by (auto simp: Clean_def Let_def)
    then show False using c(1) by simp
  qed
  then have ec: "?c = (if ps = [] then ''.'' else Join ps [slash])"
    using nr es by (simp add: Clean_def Let_def)
  show ?thesis
  proof (cases "ps = []")
    case True
    have "sd \<noteq> []" "rooted sd" using sd by (auto simp: proper_dir_def rooted_def)
    then have "path_Join [sd, ''.''] = Clean (sd @ ''/.'')" by (simp add: path_Join_two)
    also have "path_elems (sd @ ''/.'') = path_elems sd"
    proof -
      have "clean_elems r st (xs @ [''.'']) = clean_elems r st xs" for r st xs
        by (induction r st xs rule: clean_elems.induct) (auto split: list.split)
      moreover have "Split (sd @ slash # ''.'') slash = Split sd slash @ [''.'']"
        by (simp add: Split_append_sep)
      ultimately show ?thesis using \<open>sd \<noteq> []\<close> by (simp add: path_elems_def rooted_append)
    qed
    then have "Clean (sd @ ''/.'') = Clean sd"
      using \<open>sd \<noteq> []\<close> by (simp add: Clean_def Let_def rooted_append)
    finally have "dst = place sd []" using dst ec True by (simp add: place_def)
    then show ?thesis by (intro exI [of _ "[]"]) simp
  next
    case False
    then show ?thesis using dst ec ps join_place [OF sd False ps] by auto
  qed
qed

lemma safe_dst_plain:
  assumes "proper_dir sd" "es \<noteq> []" "list_all plain_elem es"
    and "Clean name = Join es [slash]"
  shows "safe_dst sd name = (if HasPrefix (hd es) ''..'' then Inl (UnsafePath name) else Inr (place sd es))"
proof -
  obtain e es' where ee: "es = e # es'" "plain_elem e" using assms(2,3) by (cases es) auto
  obtain q where q: "Join es [slash] = e @ q" "q = [] \<or> hd q = slash" using ee by (cases es') auto
  have "HasPrefix (e @ q) ''..'' \<longleftrightarrow> HasPrefix e ''..''"
    using ee(2) q(2) by (cases e; cases "tl e"; cases q) (auto simp: plain_elem_def HasPrefix_def)
  moreover have "\<not> HasPrefix (e @ q) ''/''"
    using ee(2) by (cases e) (auto simp: plain_elem_def)
  ultimately show ?thesis
    using assms q ee join_place [OF assms(1-3)] place_under [OF assms(2), of sd]
    by (simp add: safe_dst_def Let_def)
qed

lemma restore_entry_inside:
  assumes "restore_entry sd z h = (r, h')" and "proper_dir sd" and "hd_files h' p \<noteq> hd_files h p"
  shows "\<exists>es. list_all plain_elem es \<and> p = place sd es"
proof -
  obtain dst where d: "safe_dst sd (ze_Name z) = Inr dst"
    using assms(1,3) by (auto simp: restore_entry_def split: sum.splits)
  then have "p = dst"
    using assms(1,3)
    by (auto simp: restore_entry_def Let_def split: if_splits option.splits prod.splits)
  then show ?thesis using safe_dst_inside [OF d assms(2)] by simp
qed

lemma restore_entries_inside:
  "restore_entries ctx k sd zs h = (r, h') \<Longrightarrow> proper_dir sd \<Longrightarrow> hd_files h' p \<noteq> hd_files h p \<Longrightarrow>
     \<exists>es. list_all plain_elem es \<and> p = place sd es"
proof (induction ctx k sd zs h rule: restore_entries.induct)
  case (2 ctx k sd z zs h)
  show ?case
  proof (cases "hd_files (snd (restore_entry sd z h)) p = hd_files h p")
    case True
    then show ?thesis using 2 by (auto split: option.splits prod.splits)
  next
    case False
    then show ?thesis using restore_entry_inside [of sd z h _ _ p] 2 by (metis prod.collapse)
  qed
qed simp

text \<open>
  C12: restoring any archive, whatever its entries are called and wherever it fails, changes only files
  at or below the server's directory: every path it writes is the cleaned directory followed by
  plain elements.
\<close>

theorem restore_stays_inside:
  assumes "Restore root ctx read_zip sid bid sd h = (r, h')" and "proper_dir sd"
    and "hd_files h' p \<noteq> hd_files h p"
  shows "\<exists>es. list_all plain_elem es \<and> p = place sd es"
  using assms restore_entries_inside [of ctx 0 sd _ h r h' p]
  by (auto simp: Restore_def split: zip_read.splits)

theorem restore_stays_inside_witness:
  "Restore ''/b'' (\<lambda>_. None)
     (\<lambda>_. ZipEntries [\<lparr>ze_Name = ''a/../w/x'', ze_IsDir = False, ze_body = ''1'', ze_mkdir = None, ze_open = None, ze_copy = None\<rparr>,
                      \<lparr>ze_Name = ''../etc/x'', ze_IsDir = False, ze_body = ''2'', ze_mkdir = None, ze_open = None, ze_copy = None\<rparr>])
     ''s'' ''i'' ''/srv'' \<lparr>hd_files = Map.empty, hd_dirs = {}\<rparr>
   = (Some (UnsafePath ''../etc/x''), \<lparr>hd_files = [''/srv/w/x'' \<mapsto> ''1''], hd_dirs = {''/srv/w''}\<rparr>)
   \<and> (\<exists>es. list_all plain_elem es \<and> ''/srv/w/x'' = place ''/srv'' es)"
proof -
  let ?z = "\<lambda>_ :: string. ZipEntries [\<lparr>ze_Name = ''a/../w/x'', ze_IsDir = False, ze_body = ''1'', ze_mkdir = None, ze_open = None, ze_copy = None\<rparr>,
                      \<lparr>ze_Name = ''../etc/x'', ze_IsDir = False, ze_body = ''2'', ze_mkdir = None, ze_open = None, ze_copy = None\<rparr>]"
  have p: "proper_dir ''/srv''" by code_simp
  have d: "safe_dst ''/srv'' ''a/../w/x'' = Inr ''/srv/w/x''" "path_Dir ''/srv/w/x'' = ''/srv/w''"
    "safe_dst ''/srv'' ''../etc/x'' = Inl (UnsafePath ''../etc/x'')" by code_simp+
  have r: "Restore ''/b'' (\<lambda>_. None) ?z ''s'' ''i'' ''/srv'' \<lparr>hd_files = Map.empty, hd_dirs = {}\<rparr>
   = (Some (UnsafePath ''../etc/x''), \<lparr>hd_files = [''/srv/w/x'' \<mapsto> ''1''], hd_dirs = {''/srv/w''}\<rparr>)"
    by (simp add: Restore_def restore_entry_def d)
  have "\<exists>es. list_all plain_elem es \<and> ''/srv/w/x'' = place ''/srv'' es"
    by (rule restore_stays_inside [OF r p]) simp
  with r show ?thesis by blast
qed

text \<open>The entries of an archive the store wrote, read back without a fault.\<close>

definition zip_entries :: "archive \<Rightarrow> zip_entry list" where
  "zip_entries a = map (\<lambda>(n, b). \<lparr>ze_Name = n, ze_IsDir = (b = None), ze_body = (case b of None \<Rightarrow> [] | Some x \<Rightarrow> x),
                                   ze_mkdir = None, ze_open = None, ze_copy = None\<rparr>) a"

lemma Clean_archive_name:
  assumes "es \<noteq> []" "list_all plain_elem es"
  shows "Clean (fst (archive_name (es, b))) = Join es [slash]"
proof (cases b)
  case None
  obtain e es' where ee: "es = e # es'" "plain_elem e" using assms by (cases es) auto
  have "Join es [slash] \<noteq> []" using ee Join_Cons_head [of e es' "[slash]"] by (auto simp: plain_elem_def)
  moreover have "\<not> rooted (Join es [slash])" using assms by (simp add: Join_plain_not_rooted)
  moreover have "path_elems (Join es [slash] @ slash # []) = es"
  proof -
    have c: "clean_elems r st (xs @ [[]]) = clean_elems r st xs" for r st xs
      by (induction r st xs rule: clean_elems.induct) (auto split: list.split)
    have "Split (Join es [slash] @ slash # []) slash = es @ [[]]"
      unfolding Split_append_sep using assms by (simp add: Split_Join_plain)
    then show ?thesis using assms by (simp add: path_elems_def c clean_elems_plain_all)
  qed
  ultimately show ?thesis
    using assms(1) None by (simp add: archive_name_def Clean_def Let_def rooted_append)
next
  case (Some x)
  then show ?thesis using assms by (simp add: archive_name_def Clean_Join_plain)
qed

definition restorable :: "(string list \<times> string option) list \<Rightarrow> bool" where
  "restorable es \<longleftrightarrow> list_all (\<lambda>(e, _). e \<noteq> [] \<and> list_all plain_elem e \<and> \<not> HasPrefix (hd e) ''..'') es"

definition file_places :: "string \<Rightarrow> (string list \<times> string option) list \<Rightarrow> (string \<times> string) list" where
  "file_places sd es = List.map_filter (\<lambda>(e, b). map_option (\<lambda>x. (place sd e, x)) b) es"

lemma restore_archive:
  assumes "proper_dir sd"
  shows "restorable es \<Longrightarrow>
     \<exists>h'. restore_entries (\<lambda>_. None) k sd (zip_entries (map archive_name es)) h = (None, h')
        \<and> hd_files h' = hd_files h ++ map_of (rev (file_places sd es))"
proof (induction es arbitrary: k h)
  case Nil
  then show ?case by (simp add: zip_entries_def file_places_def List.map_filter_simps)
next
  case (Cons eb es)
  obtain e b where eb: "eb = (e, b)" by (cases eb)
  have r: "e \<noteq> []" "list_all plain_elem e" "\<not> HasPrefix (hd e) ''..''" "restorable es"
    using Cons.prems eb by (auto simp: restorable_def)
  have d: "safe_dst sd (fst (archive_name (e, b))) = Inr (place sd e)"
    using safe_dst_plain [OF assms r(1,2) Clean_archive_name [OF r(1,2)], of b] r(3) by simp
  obtain h1 where h1:
    "restore_entry sd (hd (zip_entries [archive_name eb])) h = (None, h1)"
    "hd_files h1 = (case b of None \<Rightarrow> hd_files h | Some x \<Rightarrow> (hd_files h)(place sd e \<mapsto> x))"
    using d by (cases b) (auto simp: restore_entry_def zip_entries_def archive_name_def eb Let_def)
  obtain h' where h': "restore_entries (\<lambda>_. None) (Suc k) sd (zip_entries (map archive_name es)) h1 = (None, h')"
    "hd_files h' = hd_files h1 ++ map_of (rev (file_places sd es))"
    using Cons.IH [OF r(4), of "Suc k" h1] by blast
  have z: "zip_entries (map archive_name (eb # es))
      = hd (zip_entries [archive_name eb]) # zip_entries (map archive_name es)"
    by (simp add: zip_entries_def)
  have f: "file_places sd (eb # es) = (case b of None \<Rightarrow> [] | Some x \<Rightarrow> [(place sd e, x)]) @ file_places sd es"
    by (cases b) (simp_all add: file_places_def eb List.map_filter_simps)
  show ?case
    using h1 h' unfolding z f by (cases b) (auto simp: map_add_def fun_eq_iff split: option.splits)
qed

lemma place_inj:
  assumes "place sd e = place sd e'" "e \<noteq> []" "e' \<noteq> []" "list_all plain_elem e" "list_all plain_elem e'"
  shows "e = e'"
proof -
  have "Join e [slash] = Join e' [slash]" using assms(1-3) by (simp add: place_def Join_prefix_cons)
  then show ?thesis using assms Split_Join_plain by metis
qed

lemma kept_entries_plain:
  assumes "plain_tree ts" and "(e, b) \<in> set (kept_entries logs ts)"
  shows "e \<noteq> [] \<and> list_all plain_elem e"
proof -
  have m: "(e, b) \<in> set (entries_nodes [] ts)" using assms(2) by (auto simp: kept_entries_def)
  then have "e \<noteq> []" using entries_below(2) by blast
  then show ?thesis using assms(1) m by (auto simp: plain_tree_def list_all_iff)
qed

lemma distinct_file_places:
  "distinct (map fst es) \<Longrightarrow> \<forall>(e, b)\<in>set es. e \<noteq> [] \<and> list_all plain_elem e \<Longrightarrow>
     distinct (map fst (file_places sd es))"
proof (induction es)
  case (Cons eb es)
  obtain e b where eb: "eb = (e, b)" by (cases eb)
  have "place sd e \<notin> fst ` set (file_places sd es)"
  proof
    assume "place sd e \<in> fst ` set (file_places sd es)"
    then obtain e' b' where "(e', b') \<in> set es" "place sd e = place sd e'"
      by (force simp: file_places_def List.map_filter_def split: option.splits prod.splits)
    then show False using place_inj [of sd e e'] Cons.prems eb by force
  qed
  then show ?case using Cons eb
    by (cases b) (auto simp: file_places_def List.map_filter_simps)
qed (simp add: file_places_def List.map_filter_simps)

lemma Create_success:
  assumes "Create root ctx ts now sid tree opts f fs = (Inr m, calls, fs')"
    and "list_all label_char ts" and "plain_tree tree"
  shows "fs' (zipPath root sid (meta_ID m))
           = Some (Archive (map archive_name (kept_entries (co_IncludeLogs opts) tree)))
       \<and> fs' (metaPath root sid (meta_ID m)) = Some (MetaFile m)
       \<and> meta_FileCount m = body_files (kept_entries (co_IncludeLogs opts) tree)
       \<and> meta_BytesTotal m = body_bytes (kept_entries (co_IncludeLogs opts) tree)"
proof -
  let ?opts = "if co_Mode opts = [] then opts\<lparr>co_Mode := ModeOnline\<rparr> else opts"
  let ?bid = "buildID ts (co_Label opts)"
  have "fill_archive root ctx ?bid sid now ?opts f tree fs = (Inr m, fs')"
    using assms(1) by (auto simp: Create_def Let_def split: option.splits prod.splits if_splits)
  from fill_archive_success [OF this buildID_chars [OF assms(2)] assms(3)]
  show ?thesis by (auto split: if_splits)
qed

text \<open>
  C8: a backup that succeeds archives exactly the entries of the tree of which neither they nor a
  directory above them is excluded, counts their files and bytes, and can be restored: over any
  server directory, every archived file comes back with its contents and no other file changes.
  Names beginning with \<open>..\<close> at the top of the tree are left out of the claim, since restoring
  refuses them.
\<close>

theorem restore_after_create:
  assumes c: "Create root ctx ts now sid tree opts f fs = (Inr m, calls, fs')"
    and ts: "list_all label_char ts" and wf: "well_formed tree"
    and nd: "list_all (\<lambda>(es, _). \<not> HasPrefix (hd es) ''..'') (kept_entries (co_IncludeLogs opts) tree)"
    and sd: "proper_dir sd"
    and rz: "\<And>a. fs' (zipPath root sid (meta_ID m)) = Some (Archive a) \<Longrightarrow>
               read_zip (zipPath root sid (meta_ID m)) = ZipEntries (zip_entries a)"
  shows "meta_FileCount m = body_files (kept_entries (co_IncludeLogs opts) tree)
       \<and> meta_BytesTotal m = body_bytes (kept_entries (co_IncludeLogs opts) tree)
       \<and> (\<exists>h'. Restore root (\<lambda>_. None) read_zip sid (meta_ID m) sd h = (None, h')
             \<and> hd_files h' = hd_files h ++ map_of (file_places sd (kept_entries (co_IncludeLogs opts) tree)))"
proof -
  let ?K = "kept_entries (co_IncludeLogs opts) tree"
  have plain: "plain_tree tree" using wf by (simp add: well_formed_def)
  have S: "fs' (zipPath root sid (meta_ID m)) = Some (Archive (map archive_name ?K))"
    "meta_FileCount m = body_files ?K" "meta_BytesTotal m = body_bytes ?K"
    using Create_success [OF c ts plain] by auto
  have "restorable ?K"
    using nd kept_entries_plain [OF plain, of _ _ "co_IncludeLogs opts"]
    by (auto simp: restorable_def list_all_iff)
  then obtain h' where h': "restore_entries (\<lambda>_. None) 0 sd (zip_entries (map archive_name ?K)) h = (None, h')"
    "hd_files h' = hd_files h ++ map_of (rev (file_places sd ?K))"
    using restore_archive [OF sd] by blast
  have "distinct (map fst ?K)"
    using wf by (simp add: well_formed_def kept_entries_def distinct_map_filter)
  then have "map_of (rev (file_places sd ?K)) = map_of (file_places sd ?K)"
    using kept_entries_plain [OF plain] by (intro map_of_rev_distinct distinct_file_places) auto
  then show ?thesis using h' S rz by (auto simp: Restore_def)
qed

definition demo_tree :: "tree list" where
  "demo_tree =
     [DirNode ''.mcsm'' None [FileNode ''config.yaml'' None ''id'', FileNode ''owner.json'' None ''o''],
      DirNode ''logs'' None [FileNode ''latest.log'' (Some ''busy'') ''l''],
      FileNode ''heap.hprof'' None ''h'',
      DirNode ''world'' None [FileNode ''level.dat'' None ''lvl'']]"

definition demo_opts :: create_opts where
  "demo_opts = \<lparr>co_Label = ''pre update'', co_Mode = [], co_IncludeLogs = False, co_SaveControl = True\<rparr>"

definition no_faults :: create_faults where
  "no_faults = \<lparr>cf_mkdir = None, cf_pause = None, cf_open = None, cf_root = None, cf_close = None,
                cf_rename = None, cf_meta = None\<rparr>"

definition demo_kept :: "(string list \<times> string option) list" where
  "demo_kept = [([''.mcsm''], None), ([''.mcsm'', ''config.yaml''], Some ''id''),
                ([''world''], None), ([''world'', ''level.dat''], Some ''lvl'')]"

lemma demo_kept_entries: "kept_entries False demo_tree = demo_kept"
  by code_simp

lemma demo_archive: "kept_entries (co_IncludeLogs demo_opts) demo_tree = demo_kept"
  using demo_kept_entries by (simp add: demo_opts_def)

lemma demo_create:
  "\<exists>m fs'. Create ''/b'' (\<lambda>_. None) ''20260101-000000'' 5 ''srv'' demo_tree demo_opts no_faults Map.empty
     = (Inr m, [PauseSaves, ResumeSaves], fs')
   \<and> meta_ID m = ''20260101-000000-pre-update'' \<and> meta_FileCount m = 2"
proof -
  let ?w0 = "\<lparr>wk_archive = [], wk_bytes = 0, wk_files = 0, wk_calls = 1\<rparr>"
  have w: "walk_nodes (\<lambda>_. None) False [] demo_tree ?w0
      = (None, \<lparr>wk_archive = map archive_name demo_kept, wk_bytes = 5, wk_files = 2, wk_calls = 8\<rparr>)"
    by code_simp
  have b: "buildID ''20260101-000000'' ''pre update'' = ''20260101-000000-pre-update''" by code_simp
  show ?thesis
    by (simp add: Create_def fill_archive_def Let_def demo_opts_def no_faults_def ModeOnline_def w [unfolded One_nat_def] b new_meta_def)
qed

theorem restore_after_create_witness:
  "\<exists>m fs' read_zip h'.
     Create ''/b'' (\<lambda>_. None) ''20260101-000000'' 5 ''srv'' demo_tree demo_opts no_faults Map.empty
       = (Inr m, [PauseSaves, ResumeSaves], fs')
     \<and> Restore ''/b'' (\<lambda>_. None) read_zip ''srv'' (meta_ID m) ''/srv'' \<lparr>hd_files = [''/srv/old'' \<mapsto> ''x''], hd_dirs = {}\<rparr>
       = (None, h')
     \<and> hd_files h' = [''/srv/old'' \<mapsto> ''x'', ''/srv/.mcsm/config.yaml'' \<mapsto> ''id'', ''/srv/world/level.dat'' \<mapsto> ''lvl'']"
proof -
  obtain m fs' where c: "Create ''/b'' (\<lambda>_. None) ''20260101-000000'' 5 ''srv'' demo_tree demo_opts no_faults Map.empty
     = (Inr m, [PauseSaves, ResumeSaves], fs')" using demo_create by blast
  let ?rz = "\<lambda>p. case fs' p of Some (Archive a) \<Rightarrow> ZipEntries (zip_entries a) | _ \<Rightarrow> ZipMissing"
  let ?h = "\<lparr>hd_files = [''/srv/old'' \<mapsto> ''x''], hd_dirs = {}\<rparr>"
  have hyps: "list_all label_char ''20260101-000000''" "well_formed demo_tree"
    "list_all (\<lambda>(es, _). \<not> HasPrefix (hd es) ''..'') demo_kept" "proper_dir ''/srv''"
    by code_simp+
  have pl: "file_places ''/srv'' demo_kept = [(''/srv/.mcsm/config.yaml'', ''id''), (''/srv/world/level.dat'', ''lvl'')]"
    by code_simp
  have "\<exists>h'. Restore ''/b'' (\<lambda>_. None) ?rz ''srv'' (meta_ID m) ''/srv'' ?h = (None, h')
      \<and> hd_files h' = hd_files ?h ++ map_of (file_places ''/srv'' demo_kept)"
    using restore_after_create [OF c hyps(1,2) _ hyps(4), of ?rz ?h] hyps(3) demo_archive by simp
  then obtain h' where h': "Restore ''/b'' (\<lambda>_. None) ?rz ''srv'' (meta_ID m) ''/srv'' ?h = (None, h')"
    "hd_files h' = hd_files ?h ++ map_of (file_places ''/srv'' demo_kept)" by blast
  have "hd_files h' = [''/srv/old'' \<mapsto> ''x'', ''/srv/.mcsm/config.yaml'' \<mapsto> ''id'', ''/srv/world/level.dat'' \<mapsto> ''lvl'']"
    using h'(2) pl by (auto simp: map_add_def fun_eq_iff)
  with c h'(1) show ?thesis by (intro exI conjI)
qed


subsection \<open>Identifiers that climb\<close>

text \<open>
  The identifier of a backup comes from the request and is joined to the server's directory
  unchecked: with \<open>../\<close> in it, deleting one server's backup deletes another server's.
\<close>

theorem delete_reaches_other_servers:
  assumes "rooted root" and "plain_elem sid" and "plain_elem other" and "list_all label_char bid"
  shows "backup_Delete root faults sid (''../'' @ other @ ''/'' @ bid) fs = backup_Delete root faults other bid fs"
proof -
  have root: "root \<noteq> []" using assms(1) by (auto simp: rooted_def)
  have dir: "path_elems (serverDir root s) = path_elems root @ [s] \<and> rooted (serverDir root s) \<and> serverDir root s \<noteq> []"
    if s: "plain_elem s" for s
  proof -
    have sd: "serverDir root s = slash # Join (path_elems root @ [s]) [slash]"
      using s root assms(1) path_elems_append_plain [of root "[s]"]
      by (simp add: serverDir_def path_Join_two plain_elem_def Clean_def Let_def rooted_append)
    have pr: "list_all plain_elem (path_elems root)"
      using path_elems_shape [of root] assms(1) by (auto simp: clean_shape_def)
    have "Split (serverDir root s) slash = [] # (path_elems root @ [s])"
      using Split_append_sep [of "[]" slash "Join (path_elems root @ [s]) [slash]"] sd pr s
      by (simp add: Split_Join_plain)
    then show ?thesis using sd pr s by (simp add: path_elems_def rooted_def clean_elems_plain_all)
  qed
  have climb: "path_Join [serverDir root sid, ''../'' @ other @ ''/'' @ n] = path_Join [serverDir root other, n]"
    if n: "plain_elem n" for n
  proof -
    have up: "clean_elems True st (xs @ ''..'' # ys) = clean_elems True (tl (rev (clean_elems True st xs))) ys"
      if "clean_elems True st xs = zs @ [z]" "z \<noteq> ''..''" for st xs ys zs and z :: string
      using that
      by (induction True st xs rule: clean_elems.induct) (auto split: list.splits if_splits)
    have S: "Split (serverDir root sid @ slash # ''../'' @ other @ ''/'' @ n) slash
           = Split (serverDir root sid) slash @ ''..'' # [other, n]"
      using Split_append_sep [of "serverDir root sid" slash "''../'' @ other @ ''/'' @ n"]
        Split_append_sep [of "''..''" slash "other @ ''/'' @ n"] Split_append_sep [of other slash n]
        assms(3) n by (simp add: Split_no_sep plain_elem_def)
    have e1: "clean_elems True [] (Split (serverDir root sid) slash) = path_elems root @ [sid]"
      using dir [OF assms(2)] by (metis path_elems_def)
    let ?p = "serverDir root sid @ slash # ''../'' @ other @ ''/'' @ n"
    have "path_elems ?p = clean_elems True [] (Split ?p slash)"
      using dir [OF assms(2)] by (simp add: path_elems_def rooted_append)
    also have "\<dots> = clean_elems True [] (Split (serverDir root sid) slash @ ''..'' # [other, n])"
      unfolding S ..
    also have "\<dots> = clean_elems True (tl (rev (path_elems root @ [sid]))) [other, n]"
      using up [OF e1] assms(2) e1 by (simp add: plain_elem_def)
    also have "\<dots> = path_elems root @ [other, n]"
      using assms(3) n by (simp add: plain_elem_def)
    finally have "path_elems ?p = path_elems root @ [other, n]" .
    moreover have "path_elems (serverDir root other @ slash # n) = path_elems root @ [other, n]"
      using dir [OF assms(3)] n path_elems_append_plain [of "serverDir root other" "[n]"] by simp
    moreover have "n \<noteq> []" using n by (simp add: plain_elem_def)
    ultimately show ?thesis
      using dir [OF assms(2)] dir [OF assms(3)] by (simp add: path_Join_two Clean_def Let_def rooted_append)
  qed
  have "slash \<notin> set bid" using assms(4) label_char_not_slash by (auto simp: list_all_iff)
  then have "plain_elem (bid @ ''.zip'')" "plain_elem (bid @ ''.json'')"
    by (auto simp: plain_elem_def append_eq_Cons_conv)
  then have "zipPath root sid (''../'' @ other @ ''/'' @ bid) = zipPath root other bid"
    "metaPath root sid (''../'' @ other @ ''/'' @ bid) = metaPath root other bid"
    using climb [of "bid @ ''.zip''"] climb [of "bid @ ''.json''"] by (simp_all add: zipPath_def metaPath_def)
  then show ?thesis by (simp add: backup_Delete_def)
qed

theorem delete_reaches_other_servers_witness:
  "fst (backup_Delete ''/b'' (\<lambda>_. None) ''mine'' ''../theirs/t1'' [''/b/theirs/t1.zip'' \<mapsto> Archive []]) = None
   \<and> snd (backup_Delete ''/b'' (\<lambda>_. None) ''mine'' ''../theirs/t1'' [''/b/theirs/t1.zip'' \<mapsto> Archive []]) ''/b/theirs/t1.zip'' = None"
proof -
  have h: "rooted ''/b''" "plain_elem ''mine''" "plain_elem ''theirs''" "list_all label_char ''t1''" by code_simp+
  have p: "zipPath ''/b'' ''theirs'' ''t1'' = ''/b/theirs/t1.zip''" "metaPath ''/b'' ''theirs'' ''t1'' = ''/b/theirs/t1.json''"
    by code_simp+
  show ?thesis
    using delete_reaches_other_servers [OF h, of "\<lambda>_. None" "[''/b/theirs/t1.zip'' \<mapsto> Archive []]"]
    by (simp add: backup_Delete_def os_Remove_def p Let_def)
qed

end
