(* ===== verification/Update.thy ===== *)
theory Update
  imports Rcon GoPath
begin

text \<open>
  \<open>internal/update/paper.go\<close>: looking up the newest build of a version and downloading its jar, and the
  installation step of \<open>internal/api/handlers_update.go\<close>.  The network, the JSON decoding of its answers
  and the digest are arguments; the files are a map from paths to bytes, and every call that can fail
  has its fault.
\<close>

subsection \<open>Looking up a release\<close>

record release =
  rl_Flavor :: string
  rl_MCVersion :: string
  rl_Build :: int
  rl_DownloadURL :: string
  rl_SHA256 :: string
  rl_JARName :: string
  rl_PublishedAt :: time

datatype update_error =
    VersionRequired
  | HTTPFailed go_error
  | HTTPStatus int
  | BadJSON
  | NoBuilds
  | NoDownload int
  | UpdateIO go_error
  | DigestMismatch string string

type_synonym web = "string \<Rightarrow> go_error + int \<times> string"

definition getJSON :: "web \<Rightarrow> (string \<Rightarrow> 'a option) \<Rightarrow> string \<Rightarrow> update_error + 'a" where
  "getJSON web decode url =
     (case web url of
        Inl e \<Rightarrow> Inl (HTTPFailed e)
      | Inr (status, body) \<Rightarrow>
          if 400 \<le> status then Inl (HTTPStatus status)
          else (case decode body of None \<Rightarrow> Inl BadJSON | Some x \<Rightarrow> Inr x))"

text \<open>\<open>url.PathEscape\<close>.\<close>

definition path_safe :: "char \<Rightarrow> bool" where
  "path_safe c \<longleftrightarrow> is_digit c \<or> (65 \<le> (of_char c :: nat) \<and> (of_char c :: nat) \<le> 90)
     \<or> (97 \<le> (of_char c :: nat) \<and> (of_char c :: nat) \<le> 122) \<or> c \<in> set ''-_.~$&+=:@''"

definition hex_upper :: "nat \<Rightarrow> char" where
  "hex_upper n = (if n < 10 then digit_char n else char_of (n + 55))"

definition PathEscape :: "string \<Rightarrow> string" where
  "PathEscape s =
     concat (map (\<lambda>c. if path_safe c then [c]
                      else [CHR ''%'', hex_upper ((of_char c :: nat) div 16), hex_upper ((of_char c :: nat) mod 16)]) s)"

definition version_url :: "string \<Rightarrow> string \<Rightarrow> string" where
  "version_url base v = TrimRight base ''/'' @ ''/v2/projects/paper/versions/'' @ PathEscape v"

definition build_url :: "string \<Rightarrow> string \<Rightarrow> int \<Rightarrow> string" where
  "build_url base v n = version_url base v @ ''/builds/'' @ Itoa n"

record build_detail =
  bd_Time :: time
  bd_Name :: string
  bd_SHA256 :: string

definition Latest ::
  "web \<Rightarrow> (string \<Rightarrow> int list option) \<Rightarrow> (string \<Rightarrow> build_detail option) \<Rightarrow> string \<Rightarrow> string \<Rightarrow> update_error + release" where
  "Latest web decode_builds decode_detail base v =
     (if v = [] then Inl VersionRequired
      else case getJSON web decode_builds (version_url base v) of
             Inl e \<Rightarrow> Inl e
           | Inr builds \<Rightarrow>
               if builds = [] then Inl NoBuilds
               else (let build = last (sort builds)
                     in case getJSON web decode_detail (build_url base v build) of
                          Inl e \<Rightarrow> Inl e
                        | Inr b \<Rightarrow>
                            if bd_Name b = [] then Inl (NoDownload build)
                            else Inr \<lparr>rl_Flavor = ''paper'', rl_MCVersion = v, rl_Build = build,
                                      rl_DownloadURL = build_url base v build @ ''/downloads/'' @ bd_Name b,
                                      rl_SHA256 = bd_SHA256 b, rl_JARName = bd_Name b, rl_PublishedAt = bd_Time b\<rparr>))"

subsection \<open>Downloading\<close>

type_synonym files = "string \<rightharpoonup> string"

text \<open>
  What the calls of a download do: creating the directory and the temporary file, the request, the body
  (the bytes that arrive and the error that cuts them off), closing and renaming.
\<close>

record download_env =
  de_mkdir :: "go_error option"
  de_create :: "go_error option"
  de_answer :: "go_error + int"
  de_body :: "string \<times> go_error option"
  de_close :: "go_error option"
  de_rename :: "go_error option"

definition hex_string :: "string \<Rightarrow> string" where
  "hex_string s = concat (map (\<lambda>c. hex_digits ! ((of_char c :: nat) div 16) # [hex_digits ! ((of_char c :: nat) mod 16)]) s)"

text \<open>The states of the files that a crash could expose, in order, and the error.\<close>

definition Download ::
  "(string \<Rightarrow> string) \<Rightarrow> download_env \<Rightarrow> release \<Rightarrow> string \<Rightarrow> files \<Rightarrow> update_error option \<times> files list" where
  "Download sha v rel dest fs =
     (let tmp = dest @ ''.part''; removed = fs(tmp := None)
      in case de_mkdir v of Some e \<Rightarrow> (Some (UpdateIO e), [fs])
       | None \<Rightarrow> (case de_create v of Some e \<Rightarrow> (Some (UpdateIO e), [fs])
       | None \<Rightarrow>
        (let created = fs(tmp \<mapsto> [])
         in case de_answer v of Inl e \<Rightarrow> (Some (HTTPFailed e), [fs, created, removed])
          | Inr status \<Rightarrow>
             if 400 \<le> status then (Some (HTTPStatus status), [fs, created, removed])
             else
            (let got = fst (de_body v); copied = fs(tmp \<mapsto> got)
             in case snd (de_body v) of Some e \<Rightarrow> (Some (UpdateIO e), [fs, created, copied, removed])
              | None \<Rightarrow> (case de_close v of Some e \<Rightarrow> (Some (UpdateIO e), [fs, created, copied, removed])
              | None \<Rightarrow>
                 if rl_SHA256 rel \<noteq> [] \<and> \<not> EqualFold (hex_string (sha got)) (rl_SHA256 rel)
                 then (Some (DigestMismatch (hex_string (sha got)) (rl_SHA256 rel)), [fs, created, copied, removed])
                 else (case de_rename v of Some e \<Rightarrow> (Some (UpdateIO e), [fs, created, copied, removed])
                       | None \<Rightarrow> (None, [fs, created, copied, removed(dest \<mapsto> got)])))))))"

subsection \<open>Installing\<close>

text \<open>\<open>os.Rename\<close> within a directory: it fails when the source is not there.\<close>

definition swapFile :: "go_error option \<Rightarrow> string \<Rightarrow> string \<Rightarrow> files \<Rightarrow> go_error option \<times> files" where
  "swapFile fault src dst fs =
     (case fs src of
        None \<Rightarrow> (Some ''ENOENT'', fs)
      | Some b \<Rightarrow> (case fault of Some e \<Rightarrow> (Some e, fs) | None \<Rightarrow> (None, (fs(src := None))(dst \<mapsto> b))))"

record install_env =
  ie_download :: download_env
  ie_swap_old :: "go_error option"
  ie_swap_new :: "go_error option"

definition staging_path :: "string \<Rightarrow> string" where "staging_path dir = path_Join [dir, ''.mcsm'', ''paper-staging.jar'']"
definition final_path :: "string \<Rightarrow> string" where "final_path dir = path_Join [dir, ''paper.jar'']"
definition previous_path :: "string \<Rightarrow> string" where "previous_path dir = path_Join [dir, ''paper.jar.previous'']"

definition apply_release ::
  "(string \<Rightarrow> string) \<Rightarrow> install_env \<Rightarrow> release \<Rightarrow> string \<Rightarrow> files \<Rightarrow> update_error option \<times> files" where
  "apply_release sha v rel dir fs =
     (case Download sha (ie_download v) rel (staging_path dir) fs of
        (Some e, states) \<Rightarrow> (Some e, last states)
      | (None, states) \<Rightarrow>
          (let fs1 = snd (swapFile (ie_swap_old v) (final_path dir) (previous_path dir) (last states))
           in case swapFile (ie_swap_new v) (staging_path dir) (final_path dir) fs1 of
                (Some e, fs2) \<Rightarrow> (Some (UpdateIO e), fs2)
              | (None, fs2) \<Rightarrow> (None, fs2)))"

subsection \<open>A download is all or nothing\<close>

lemma Download_result:
  assumes "Download sha v rel dest fs = (err, states)"
  shows "if err = None
    then last states = (fs(dest @ ''.part'' := None))(dest \<mapsto> fst (de_body v))
         \<and> (rl_SHA256 rel \<noteq> [] \<longrightarrow> EqualFold (hex_string (sha (fst (de_body v)))) (rl_SHA256 rel))
         \<and> snd (de_body v) = None
    else last states = fs \<or> last states = fs(dest @ ''.part'' := None)"
  using assms by (auto simp: Download_def Let_def split: option.splits sum.splits if_splits)

text \<open>
  C33: the destination of a download never holds a half-written jar: in every state a crash could leave, it
  is as it was or, after success, holds the whole body that was received, whose digest is the published
  one if one is published; no other file changes but the temporary one, which is gone at the end.
\<close>

theorem download_is_atomic:
  assumes "Download sha v rel dest fs = (err, states)" and "fs (dest @ ''.part'') = None"
  shows "(\<forall>st\<in>set states. st dest = fs dest \<or> (err = None \<and> st = last states))
    \<and> (\<forall>st\<in>set states. \<forall>p. p \<noteq> dest \<and> p \<noteq> dest @ ''.part'' \<longrightarrow> st p = fs p)
    \<and> (case err of
         None \<Rightarrow> last states = fs(dest \<mapsto> fst (de_body v)) \<and> snd (de_body v) = None
           \<and> (rl_SHA256 rel \<noteq> [] \<longrightarrow> EqualFold (hex_string (sha (fst (de_body v)))) (rl_SHA256 rel))
       | Some _ \<Rightarrow> last states = fs)"
proof -
  have id: "fs(dest @ ''.part'' := None) = fs" using assms(2) by (simp add: fun_upd_idem)
  show ?thesis
    using assms(1) by (auto simp: Download_def Let_def id split: option.splits sum.splits if_splits)
qed

text \<open>
  Installing an update: on success \<open>paper.jar\<close> holds the downloaded bytes, whose digest is the published
  one, and \<open>paper.jar.previous\<close> the jar there was; but when the second rename fails the server is left
  without \<open>paper.jar\<close>, because the first one is not undone.
\<close>

theorem update_install:
  assumes "fs (final_path dir) = Some old" and "ie_swap_old v = None"
    and "distinct [staging_path dir, staging_path dir @ ''.part'', final_path dir, previous_path dir]"
    and "Download sha (ie_download v) rel (staging_path dir) fs = (None, states)"
  shows "case ie_swap_new v of
      None \<Rightarrow> (case apply_release sha v rel dir fs of
        (err, fs') \<Rightarrow> err = None \<and> fs' (final_path dir) = Some (fst (de_body (ie_download v)))
          \<and> (rl_SHA256 rel \<noteq> [] \<longrightarrow> EqualFold (hex_string (sha (fst (de_body (ie_download v))))) (rl_SHA256 rel))
          \<and> fs' (previous_path dir) = Some old)
    | Some e \<Rightarrow> (case apply_release sha v rel dir fs of
        (err, fs') \<Rightarrow> err = Some (UpdateIO e) \<and> fs' (final_path dir) = None \<and> fs' (previous_path dir) = Some old)"
proof -
  let ?s = "staging_path dir" and ?p = "staging_path dir @ ''.part''" and ?f = "final_path dir" and ?q = "previous_path dir"
  have ne: "?s \<noteq> ?f" "?s \<noteq> ?q" "?f \<noteq> ?q" "?f \<noteq> ?p" using assms(3) by auto
  have last: "last states = (fs(?p := None))(?s \<mapsto> fst (de_body (ie_download v)))"
    and sha: "rl_SHA256 rel \<noteq> [] \<longrightarrow> EqualFold (hex_string (sha (fst (de_body (ie_download v))))) (rl_SHA256 rel)"
    using Download_result [OF assms(4)] by simp_all
  have f: "last states ?f = Some old" "last states ?s = Some (fst (de_body (ie_download v)))"
    using last ne assms(1) by simp_all
  show ?thesis
    using ne sha by (cases "ie_swap_new v") (simp_all add: apply_release_def swapFile_def assms(2,4) f)
qed

text \<open>
  The build chosen is the largest number of the list, whatever the order in which the service lists
  them, and it is fetched from its own build's address.
\<close>

theorem latest_is_largest_build:
  assumes "Latest web db dd base v = Inr rel"
  shows "rl_Flavor rel = ''paper'' \<and> rl_MCVersion rel = v \<and> v \<noteq> []
    \<and> (\<exists>builds. getJSON web db (version_url base v) = Inr builds \<and> rl_Build rel = Max (set builds))
    \<and> (\<exists>b. getJSON web dd (build_url base v (rl_Build rel)) = Inr b \<and> rl_SHA256 rel = bd_SHA256 b
         \<and> rl_DownloadURL rel = build_url base v (rl_Build rel) @ ''/downloads/'' @ bd_Name b)"
proof -
  have "last (sort xs) = Max (set xs)" if "xs \<noteq> []" for xs :: "int list"
  proof (rule Max_eqI [symmetric])
    have ne: "sort xs \<noteq> []" using that set_empty [of "sort xs"] by simp
    show "last (sort xs) \<in> set xs" using last_in_set [OF ne] by simp
    show "y \<le> last (sort xs)" if "y \<in> set xs" for y
    proof -
      have "y \<in> set (sort xs)" using that by simp
      then obtain i where i: "i < length (sort xs)" "sort xs ! i = y" unfolding in_set_conv_nth by blast
      then show ?thesis using ne sorted_nth_mono [OF sorted_sort, of i "length (sort xs) - 1" xs]
        by (simp add: last_conv_nth)
    qed
  qed simp
  then show ?thesis
    using assms by (auto simp: Latest_def Let_def split: if_splits sum.splits)
qed

subsection \<open>An update\<close>

definition demo_download :: download_env where
  "demo_download = \<lparr>de_mkdir = None, de_create = None, de_answer = Inr 200, de_body = (''JAR'', None), de_close = None,
     de_rename = None\<rparr>"

definition demo_release :: release where
  "demo_release = \<lparr>rl_Flavor = ''paper'', rl_MCVersion = ''1.21'', rl_Build = 10, rl_DownloadURL = [],
     rl_SHA256 = ''00fF'', rl_JARName = ''p.jar'', rl_PublishedAt = 0\<rparr>"

definition demo_sha :: "string \<Rightarrow> string" where
  "demo_sha s = (if s = ''JAR'' then [CHR 0x00, CHR 0xFF] else [])"

lemma demo_digest: "EqualFold (hex_string (demo_sha ''JAR'')) ''00fF''" "\<not> EqualFold (hex_string (demo_sha ''JA'')) ''00fF''"
  by code_simp+

lemma demo_download_ok:
  "Download demo_sha demo_download demo_release ''d'' Map.empty
     = (None, [Map.empty, [''d.part'' \<mapsto> []], [''d.part'' \<mapsto> ''JAR''], [''d'' \<mapsto> ''JAR'']])"
  by (simp add: Download_def demo_download_def demo_release_def demo_digest Let_def fun_upd_idem)

theorem download_is_atomic_witness:
  "\<exists>e states. Download demo_sha (demo_download\<lparr>de_body := (''JA'', None)\<rparr>) demo_release ''d'' [''d'' \<mapsto> ''OLD''] = (Some e, states)
     \<and> last states = [''d'' \<mapsto> ''OLD'']"
proof -
  obtain states where d: "Download demo_sha (demo_download\<lparr>de_body := (''JA'', None)\<rparr>) demo_release ''d'' [''d'' \<mapsto> ''OLD'']
      = (Some (DigestMismatch (hex_string (demo_sha ''JA'')) ''00fF''), states)"
    by (simp add: Download_def demo_download_def demo_release_def demo_digest Let_def)
  from download_is_atomic [OF this] show ?thesis using d by simp
qed

theorem update_install_witness:
  "\<exists>fs'. apply_release demo_sha \<lparr>ie_download = demo_download, ie_swap_old = None, ie_swap_new = Some ''EIO''\<rparr> demo_release
       ''/srv/a'' [''/srv/a/paper.jar'' \<mapsto> ''OLD''] = (Some (UpdateIO ''EIO''), fs')
     \<and> fs' ''/srv/a/paper.jar'' = None"
proof -
  let ?v = "\<lparr>ie_download = demo_download, ie_swap_old = None, ie_swap_new = Some ''EIO''\<rparr>"
  have p: "staging_path ''/srv/a'' = ''/srv/a/.mcsm/paper-staging.jar''" "final_path ''/srv/a'' = ''/srv/a/paper.jar''"
    "previous_path ''/srv/a'' = ''/srv/a/paper.jar.previous''" by code_simp+
  obtain states where d: "Download demo_sha demo_download demo_release (staging_path ''/srv/a'') [''/srv/a/paper.jar'' \<mapsto> ''OLD'']
      = (None, states)"
    by (simp add: Download_def demo_download_def demo_release_def demo_digest Let_def)
  then have d': "Download demo_sha (ie_download ?v) demo_release (staging_path ''/srv/a'') [''/srv/a/paper.jar'' \<mapsto> ''OLD'']
      = (None, states)" by (simp only: install_env.simps)
  have "(case ie_swap_new ?v of
      None \<Rightarrow> (case apply_release demo_sha ?v demo_release ''/srv/a'' [''/srv/a/paper.jar'' \<mapsto> ''OLD''] of
        (err, fs') \<Rightarrow> err = None \<and> fs' (final_path ''/srv/a'') = Some (fst (de_body (ie_download ?v)))
          \<and> (rl_SHA256 demo_release \<noteq> [] \<longrightarrow>
               EqualFold (hex_string (demo_sha (fst (de_body (ie_download ?v))))) (rl_SHA256 demo_release))
          \<and> fs' (previous_path ''/srv/a'') = Some ''OLD'')
    | Some e \<Rightarrow> (case apply_release demo_sha ?v demo_release ''/srv/a'' [''/srv/a/paper.jar'' \<mapsto> ''OLD''] of
        (err, fs') \<Rightarrow> err = Some (UpdateIO e) \<and> fs' (final_path ''/srv/a'') = None
          \<and> fs' (previous_path ''/srv/a'') = Some ''OLD''))"
    by (rule update_install [OF _ _ _ d']) (simp_all add: p)
  then show ?thesis by (auto simp: p split: prod.splits)
qed

definition demo_web :: web where
  "demo_web url =
     (if url = ''http://p/v2/projects/paper/versions/1.21'' then Inr (200, ''B'')
      else if url = ''http://p/v2/projects/paper/versions/1.21/builds/12'' then Inr (200, ''D'') else Inl ''refused'')"

theorem latest_is_largest_build_witness:
  "\<exists>rel. Latest demo_web (\<lambda>_. Some [3, 12, 7]) (\<lambda>_. Some \<lparr>bd_Time = 0, bd_Name = ''p.jar'', bd_SHA256 = []\<rparr>) ''http://p/'' ''1.21''
     = Inr rel \<and> rl_Build rel = 12"
proof -
  have u: "version_url ''http://p/'' ''1.21'' = ''http://p/v2/projects/paper/versions/1.21''"
    "build_url ''http://p/'' ''1.21'' 12 = ''http://p/v2/projects/paper/versions/1.21/builds/12''" by code_simp+
  have s: "sort [3, 12, 7] = [3, 7, 12 :: int]" by simp
  obtain rel where r: "Latest demo_web (\<lambda>_. Some [3, 12, 7]) (\<lambda>_. Some \<lparr>bd_Time = 0, bd_Name = ''p.jar'', bd_SHA256 = []\<rparr>)
      ''http://p/'' ''1.21'' = Inr rel"
    by (simp add: Latest_def getJSON_def demo_web_def u s Let_def)
  have "\<exists>builds. getJSON demo_web (\<lambda>_. Some [3, 12, 7]) (version_url ''http://p/'' ''1.21'') = Inr builds \<and> rl_Build rel = Max (set builds)"
    using latest_is_largest_build [OF r] by blast
  then have "rl_Build rel = Max (set [3, 12, 7])" by (auto simp: getJSON_def demo_web_def u)
  then show ?thesis using r by simp
qed

end
