(* ===== verification/BackupApi.thy ===== *)
theory BackupApi
  imports PropertiesApi Backup Update
begin

text \<open>
  \<open>internal/api/handlers_backups.go\<close> and \<open>handlers_update.go\<close>, with the save control of
  \<open>internal/slot/slot.go\<close> (\<open>RconSaveControl\<close>): when backups are taken, restored and jars replaced, and
  what a running server is told meanwhile.

  The store's root is absent when backups are disabled.  A handler returns its reply and the parts of
  the world it may change; the faults of the calls below it are those of \<open>Backup\<close> and \<open>Update\<close>.
\<close>

subsection \<open>Saving over RCON\<close>

type_synonym clients = "nat \<Rightarrow> client"

definition control_cmd :: "go_error option \<Rightarrow> nat \<Rightarrow> string \<Rightarrow> clients \<Rightarrow> rcon_error option \<times> clients" where
  "control_cmd werr k cmd cs =
     (case Cmd werr cmd (cs k) of
        (Inl e, c') \<Rightarrow> (Some e, cs(k := c'))
      | (Inr _, c') \<Rightarrow> (None, cs(k := c')))"

definition control_Pause :: "write_errors \<Rightarrow> nat \<Rightarrow> clients \<Rightarrow> rcon_error option \<times> clients" where
  "control_Pause werr k cs =
     (case control_cmd (werr 0) k ''save-off'' cs of
        (Some e, cs1) \<Rightarrow> (Some e, cs1)
      | (None, cs1) \<Rightarrow> control_cmd (werr 1) k ''save-all flush'' cs1)"

definition control_Resume :: "write_errors \<Rightarrow> nat \<Rightarrow> clients \<Rightarrow> rcon_error option \<times> clients" where
  "control_Resume werr k cs = control_cmd (werr 2) k ''save-on'' cs"

subsection \<open>Gates\<close>

definition with_store :: "string option \<Rightarrow> (string \<Rightarrow> reply \<times> 'w) \<Rightarrow> 'w \<Rightarrow> reply \<times> 'w" where
  "with_store store k w = (case store of None \<Rightarrow> (reply_error 503 ''internal'', w) | Some r \<Rightarrow> k r)"

definition requireSlotAndServer :: "string \<Rightarrow> manager \<Rightarrow> (slot \<Rightarrow> string \<Rightarrow> string \<Rightarrow> reply \<times> 'w) \<Rightarrow> 'w \<Rightarrow> reply \<times> 'w" where
  "requireSlotAndServer name m k w =
     (case requireMounted name m of
        Inl r \<Rightarrow> (r, w)
      | Inr (s, srv) \<Rightarrow> k s (srv_ID srv) (srv_Path srv))"

definition terminal_only :: "slot \<Rightarrow> (unit \<Rightarrow> reply \<times> 'w) \<Rightarrow> 'w \<Rightarrow> reply \<times> 'w" where
  "terminal_only s k w = (if \<not> Terminal (s_state s) then (reply_error 409 ''slot_busy'', w) else k ())"

subsection \<open>Backups\<close>

text \<open>\<open>listing\<close> is what \<open>ReadDir\<close> makes of the server's directory in the store.\<close>

definition handleBackupsList ::
  "string option \<Rightarrow> go_error + string list \<Rightarrow> string \<Rightarrow> manager \<Rightarrow> blobs \<Rightarrow> reply \<times> meta list option" where
  "handleBackupsList store listing name m fs =
     with_store store
       (\<lambda>rt. requireSlotAndServer name m
          (\<lambda>_ sid _. case listing of
             Inl _ \<Rightarrow> (reply_error 500 ''internal'', None)
           | Inr names \<Rightarrow> (reply_ok 200, Some (backup_List rt sid names fs))) None) None"

record create_req =
  cr_Label :: string
  cr_StopServer :: bool
  cr_IncludeLogs :: bool

text \<open>The arguments of a creation that come from outside: the context, the clock, the tree and the faults.\<close>

record create_env =
  ce_ctx :: "nat \<Rightarrow> go_error option"
  ce_stamp :: string
  ce_now :: time
  ce_tree :: "tree list"
  ce_faults :: create_faults
  ce_text :: "rcon_error \<Rightarrow> go_error"

text \<open>
  \<open>Create\<close> with the controller it is given: it pauses before it opens the archive, and the deferred
  \<open>Resume\<close> runs when it returns, whatever it returns.
\<close>

definition controlled_create ::
  "string \<Rightarrow> create_env \<Rightarrow> write_errors \<Rightarrow> nat option \<Rightarrow> string \<Rightarrow> create_opts \<Rightarrow> clients \<times> blobs \<Rightarrow>
   (backup_error + meta) \<times> clients \<times> blobs" where
  "controlled_create store v werr control sid opts w =
     (case w of (cs, fs) \<Rightarrow>
        (case (case control of None \<Rightarrow> (None, cs) | Some k \<Rightarrow> control_Pause werr k cs) of (perr, cs1) \<Rightarrow>
        (case Create store (ce_ctx v) (ce_stamp v) (ce_now v) sid (ce_tree v) (opts\<lparr>co_SaveControl := control \<noteq> None\<rparr>)
                ((ce_faults v)\<lparr>cf_pause := map_option (ce_text v) perr\<rparr>) fs of (res, calls, fs') \<Rightarrow>
         (let cs2 = (if PauseSaves \<in> set calls then cs1 else cs)
          in (res, (case control of
                      Some k \<Rightarrow> if ResumeSaves \<in> set calls then snd (control_Resume werr k cs2) else cs2
                    | None \<Rightarrow> cs2), fs')))))"

definition handleBackupCreate ::
  "string option \<Rightarrow> create_env \<Rightarrow> write_errors \<Rightarrow> string \<Rightarrow> create_req body \<Rightarrow> manager \<Rightarrow> clients \<times> blobs \<Rightarrow>
   reply \<times> clients \<times> blobs" where
  "handleBackupCreate store v werr name body m w =
     with_store store
       (\<lambda>rt. requireSlotAndServer name m
          (\<lambda>s sid _. case DecodeOptional \<lparr>cr_Label = [], cr_StopServer = False, cr_IncludeLogs = False\<rparr> body of
             Inl r \<Rightarrow> (r, w)
           | Inr b \<Rightarrow>
               (let opts = \<lparr>co_Label = cr_Label b, co_Mode = (if cr_StopServer b then ModeOffline else ModeOnline),
                            co_IncludeLogs = cr_IncludeLogs b, co_SaveControl = False\<rparr>;
                    control = (if cr_StopServer b then None else SaveControlForBackup s);
                    run = (\<lambda>_. case controlled_create rt v werr control sid opts w of
                             (Inl _, w') \<Rightarrow> (reply_error 500 ''internal'', w')
                           | (Inr _, w') \<Rightarrow> (reply_ok 201, w'))
                in if cr_StopServer b then terminal_only s run w else run ())) w) w"

definition handleBackupGet :: "string option \<Rightarrow> string \<Rightarrow> string \<Rightarrow> manager \<Rightarrow> blobs \<Rightarrow> reply \<times> meta option" where
  "handleBackupGet store name bid m fs =
     with_store store
       (\<lambda>rt. requireSlotAndServer name m
          (\<lambda>_ sid _. case backup_Get rt sid bid fs of
             Inl BackupNotFound \<Rightarrow> (reply_error 404 ''backup_not_found'', None)
           | Inl _ \<Rightarrow> (reply_error 500 ''internal'', None)
           | Inr b \<Rightarrow> (reply_ok 200, Some b)) None) None"

definition handleBackupDelete ::
  "string option \<Rightarrow> (string \<Rightarrow> go_error option) \<Rightarrow> string \<Rightarrow> string \<Rightarrow> manager \<Rightarrow> blobs \<Rightarrow> reply \<times> blobs" where
  "handleBackupDelete store faults name bid m fs =
     with_store store
       (\<lambda>rt. requireSlotAndServer name m
          (\<lambda>_ sid _. case backup_Delete rt faults sid bid fs of
             (Some BackupNotFound, fs') \<Rightarrow> (reply_error 404 ''backup_not_found'', fs')
           | (Some _, fs') \<Rightarrow> (reply_error 500 ''internal'', fs')
           | (None, fs') \<Rightarrow> (reply_ok 200, fs')) fs) fs"

definition handleBackupRestore ::
  "string option \<Rightarrow> (nat \<Rightarrow> go_error option) \<Rightarrow> (string \<Rightarrow> zip_read) \<Rightarrow> string \<Rightarrow> string \<Rightarrow> manager \<Rightarrow> host_dir \<Rightarrow>
   reply \<times> host_dir" where
  "handleBackupRestore store ctx read_zip name bid m h =
     with_store store
       (\<lambda>rt. requireSlotAndServer name m
          (\<lambda>s sid dir. terminal_only s
             (\<lambda>_. case Restore rt ctx read_zip sid bid dir h of
                (Some BackupNotFound, h') \<Rightarrow> (reply_error 404 ''backup_not_found'', h')
              | (Some _, h') \<Rightarrow> (reply_error 500 ''internal'', h')
              | (None, h') \<Rightarrow> (reply_ok 200, h')) h) h) h"

subsection \<open>Updates\<close>

text \<open>The updater with its network and decoders, as \<open>Latest\<close> takes them.\<close>

record updater =
  up_web :: web
  up_builds :: "string \<Rightarrow> int list option"
  up_detail :: "string \<Rightarrow> build_detail option"
  up_base :: string

definition up_Latest :: "updater \<Rightarrow> string \<Rightarrow> update_error + release" where
  "up_Latest u v = Latest (up_web u) (up_builds u) (up_detail u) (up_base u) v"

text \<open>The part both handlers share: the configuration must be readable and of flavor paper.\<close>

definition paper_only :: "host_fs \<Rightarrow> string \<Rightarrow> (unit \<Rightarrow> reply \<times> 'w) \<Rightarrow> 'w \<Rightarrow> reply \<times> 'w" where
  "paper_only hf dir k w =
     (case read_config (fs_config_io hf dir) dir (fs_configs hf) of
        Inl _ \<Rightarrow> (reply_error 500 ''internal'', w)
      | Inr cfg \<Rightarrow> if cfg_Type cfg \<noteq> FlavorPaper then (reply_error 400 ''validation_failed'', w) else k ())"

definition handleUpdateCheck :: "updater \<Rightarrow> host_fs \<Rightarrow> string \<Rightarrow> string \<Rightarrow> manager \<Rightarrow> reply \<times> release option" where
  "handleUpdateCheck u hf name version m =
     requireSlotAndServer name m
       (\<lambda>_ _ dir. paper_only hf dir
          (\<lambda>_. if version = [] then (reply_error 400 ''validation_failed'', None)
               else (case up_Latest u version of
                       Inl _ \<Rightarrow> (reply_error 502 ''internal'', None)
                     | Inr rel \<Rightarrow> (reply_ok 200, Some rel))) None) None"

record apply_req =
  ar_MCVersion :: string
  ar_Backup :: bool

text \<open>Everything after the checks: the backup if one is wanted, the lookup, the download and the swap.\<close>

definition install_latest ::
  "string option \<Rightarrow> create_env \<Rightarrow> updater \<Rightarrow> (string \<Rightarrow> string) \<Rightarrow> install_env \<Rightarrow> string \<Rightarrow> string \<Rightarrow> apply_req \<Rightarrow>
   blobs \<times> files \<Rightarrow> reply \<times> blobs \<times> files" where
  "install_latest store v u sha i sid dir b w =
     (case w of (bs, fs) \<Rightarrow>
        (case (case store of
                 Some rt \<Rightarrow>
                   if ar_Backup b then
                     (case Create rt (ce_ctx v) (ce_stamp v) (ce_now v) sid (ce_tree v)
                             \<lparr>co_Label = ''pre-update'', co_Mode = ModeOffline, co_IncludeLogs = False, co_SaveControl = False\<rparr>
                             (ce_faults v) bs of (res, _, bs') \<Rightarrow> (\<not> isl res, bs'))
                   else (True, bs)
               | None \<Rightarrow> (True, bs)) of
           (False, bs') \<Rightarrow> (reply_error 500 ''internal'', bs', fs)
         | (True, bs') \<Rightarrow>
             (case up_Latest u (ar_MCVersion b) of
                Inl _ \<Rightarrow> (reply_error 502 ''internal'', bs', fs)
              | Inr rel \<Rightarrow>
                  (case apply_release sha i rel dir fs of
                     (Some e, fs') \<Rightarrow>
                       (reply_error (if fst (Download sha (ie_download i) rel (staging_path dir) fs) \<noteq> None then 502 else 500)
                          ''internal'', bs', fs')
                   | (None, fs') \<Rightarrow> (reply_ok 200, bs', fs')))))"

definition handleUpdateApply ::
  "string option \<Rightarrow> create_env \<Rightarrow> updater \<Rightarrow> (string \<Rightarrow> string) \<Rightarrow> install_env \<Rightarrow> host_fs \<Rightarrow> string \<Rightarrow> apply_req body \<Rightarrow>
   manager \<Rightarrow> blobs \<times> files \<Rightarrow> reply \<times> blobs \<times> files" where
  "handleUpdateApply store v u sha i hf name body m w =
     requireSlotAndServer name m
       (\<lambda>s sid dir. terminal_only s
          (\<lambda>_. case DecodeJSON body of
             Inl r \<Rightarrow> (r, w)
           | Inr b \<Rightarrow>
               if ar_MCVersion b = [] then (reply_error 400 ''validation_failed'', w)
               else paper_only hf dir (\<lambda>_. install_latest store v u sha i sid dir b w) w) w) w"

subsection \<open>When a server's files may be replaced\<close>

lemmas gate_defs = with_store_def requireSlotAndServer_def requireMounted_def terminal_only_def MountedServer_def

lemma reachable_unmounted: "slot_reachable cfg w \<Longrightarrow> s_process (y_slot w) = None \<Longrightarrow> s_server (y_slot w) = None"
  using together_reachable by (simp add: together_def)

text \<open>
  C34: a restore and an update change files only in a terminal state: while a slot is mounting, starting,
  running or stopping they leave everything as it was.  But they change files only while the slot still
  holds its process, too: once a server has stopped and its exit has been handled, every restore and
  every update of it is answered \<open>409 server_not_running\<close>, although the documentation requires the
  slot to be stopped.
\<close>

theorem maintenance_only_while_mounted:
  assumes "slot_reachable cfg w" and "mg_slots m name = Some (y_slot w)"
  shows "(\<not> Terminal (s_state (y_slot w)) \<longrightarrow>
            snd (handleBackupRestore (Some r) ctx rz name bid m h) = h
            \<and> snd (handleUpdateApply st v u sha i hf name body m ws) = ws)
    \<and> (s_process (y_slot w) = None \<longrightarrow>
            handleBackupRestore (Some r) ctx rz name bid m h = (reply_error 409 ''server_not_running'', h)
            \<and> handleUpdateApply st v u sha i hf name body m ws = (reply_error 409 ''server_not_running'', ws))"
proof (intro conjI impI)
  assume busy: "\<not> Terminal (s_state (y_slot w))"
  show "snd (handleBackupRestore (Some r) ctx rz name bid m h) = h"
    using busy assms(2) by (simp add: handleBackupRestore_def gate_defs split: option.split)
  show "snd (handleUpdateApply st v u sha i hf name body m ws) = ws"
    using busy assms(2) by (simp add: handleUpdateApply_def gate_defs split: option.split)
next
  assume "s_process (y_slot w) = None"
  then have none: "s_server (y_slot w) = None" using reachable_unmounted [OF assms(1)] by simp
  show "handleBackupRestore (Some r) ctx rz name bid m h = (reply_error 409 ''server_not_running'', h)"
    using none assms(2) by (simp add: handleBackupRestore_def gate_defs)
  show "handleUpdateApply st v u sha i hf name body m ws = (reply_error 409 ''server_not_running'', ws)"
    using none assms(2) by (simp add: handleUpdateApply_def gate_defs)
qed

text \<open>The manager of one slot.\<close>

definition one_slot :: "slot \<Rightarrow> manager" where
  "one_slot s = \<lparr>mg_slots = [''a'' \<mapsto> s], mg_order = [''a'']\<rparr>"

theorem maintenance_only_while_mounted_witness:
  "slot_reachable C late12 \<and> Terminal (s_state (y_slot late12))
   \<and> handleBackupRestore (Some ''/b'') (\<lambda>_. None) (\<lambda>_. ZipEntries []) ''a'' ''x'' (one_slot (y_slot late12)) \<lparr>hd_files = Map.empty, hd_dirs = {}\<rparr>
       = (reply_error 409 ''server_not_running'', \<lparr>hd_files = Map.empty, hd_dirs = {}\<rparr>)"
proof -
  have "s_process (y_slot late12) = None" "Terminal (s_state (y_slot late12))"
    using late12_sees by (simp_all add: sees_def Terminal_def)
  then show ?thesis
    using maintenance_only_while_mounted [OF late12_reachable, where m = "one_slot (y_slot late12)" and name = "''a''"]
      late12_reachable by (simp add: one_slot_def)
qed

text \<open>
  And it can happen while the server is running: when the start-up budget is exhausted the slot is in
  the error state, which counts as terminal, before its process has been told to stop.  A restore is
  then carried out on the directory of a server whose process has not exited.
\<close>

lemma late6_server: "s_server (y_slot late6) = Some paper_server"
  by (simp add: late6_def late5_def late4_def late3_def run2_def sys_defs transition_def probe_result_def install_def run_mount_def)

theorem restore_over_running_server:
  "slot_reachable C late6 \<and> (\<exists>p pr. s_process (y_slot late6) = Some p \<and> y_procs late6 p = Some pr \<and> running pr)
   \<and> snd (handleBackupRestore (Some r) ctx rz ''a'' bid (one_slot (y_slot late6)) h)
       = snd (Restore r ctx rz ''id'' bid (srv_Path paper_server) h)"
proof -
  have l: "s_process (y_slot late6) = Some 0" "Terminal (s_state (y_slot late6))" "y_procs late6 = [0 \<mapsto> demo_process]"
    using late6_sees by (simp_all add: sees_def knows_def Terminal_def)
  have "running demo_process" by (simp add: running_def demo_process_def)
  moreover have "srv_ID paper_server = ''id''" by (simp add: paper_server_def)
  ultimately show ?thesis
    using late6_reachable late6_server l
    by (simp add: handleBackupRestore_def gate_defs one_slot_def split: prod.split option.split backup_error.split)
qed

subsection \<open>Backups of a running server\<close>

text \<open>The packets a client sends for a list of commands: the identifiers follow the counter.\<close>

fun packets_of :: "client \<Rightarrow> string list \<Rightarrow> u8 list list" where
  "packets_of c [] = []"
| "packets_of c (x # xs) = projr (writePacket (fst (nextID c)) typeExecCmd x) # packets_of (snd (nextID c)) xs"

lemma nextID_counter: "cl_id c = cl_id d \<Longrightarrow> fst (nextID c) = fst (nextID d) \<and> cl_id (snd (nextID c)) = cl_id (snd (nextID d))"
  by (simp add: nextID_def Let_def)

lemma packets_of_counter: "cl_id c = cl_id d \<Longrightarrow> packets_of c xs = packets_of d xs"
proof (induction xs arbitrary: c d)
  case (Cons x xs)
  have n: "fst (nextID c) = fst (nextID d)" "cl_id (snd (nextID c)) = cl_id (snd (nextID d))"
    using nextID_counter [OF Cons.prems] by blast+
  show ?case unfolding packets_of.simps n(1) Cons.IH [OF n(2)] by (rule refl)
qed simp

lemma Cmd_counter:
  assumes "\<not> cl_closed c" and "length cmd \<le> maxPayload"
  shows "cl_id (snd (Cmd None cmd c)) = cl_id (snd (nextID c)) \<and> \<not> cl_closed (snd (Cmd None cmd c))"
proof -
  obtain rid c1 where n: "nextID c = (rid, c1)" by fastforce
  then have "\<not> cl_closed c1" using assms(1) nextID_frame(1) [of c] by simp
  moreover obtain p where "writePacket rid typeExecCmd cmd = Inr p"
    using Inr_writePacket [of cmd rid typeExecCmd] assms(2) by (auto simp: maxPayload_def)
  ultimately show ?thesis
    using assms n by (auto simp: Cmd_def send_packet_def Let_def split: sum.split prod.split)
qed

text \<open>One control command, whatever it returns: its packet is sent, and nothing else changes.\<close>

definition sends :: "clients \<Rightarrow> nat \<Rightarrow> string list \<Rightarrow> clients \<Rightarrow> bool" where
  "sends cs k xs cs' \<longleftrightarrow> \<not> cl_closed (cs' k) \<and> cl_out (cs' k) = cl_out (cs k) @ packets_of (cs k) xs
     \<and> (\<forall>ys. packets_of (cs k) (xs @ ys) = packets_of (cs k) xs @ packets_of (cs' k) ys) \<and> (\<forall>d. d \<noteq> k \<longrightarrow> cs' d = cs d)"

lemma sends_trans: "sends cs k xs cs' \<Longrightarrow> sends cs' k ys cs'' \<Longrightarrow> sends cs k (xs @ ys) cs''"
  by (simp add: sends_def)

lemma sends_Nil: "\<not> cl_closed (cs k) \<Longrightarrow> sends cs k [] cs"
  by (simp add: sends_def)

lemma control_cmd_sends:
  assumes "control_cmd None k cmd cs = (err, cs')" and "\<not> cl_closed (cs k)" and "length cmd \<le> maxPayload"
  shows "sends cs k [cmd] cs'"
proof -
  have c: "cs' k = snd (Cmd None cmd (cs k))" and d: "\<forall>d. d \<noteq> k \<longrightarrow> cs' d = cs d"
    using assms(1) by (auto simp: control_cmd_def split: prod.splits sum.splits)
  have n: "cl_id (cs' k) = cl_id (snd (nextID (cs k)))" "\<not> cl_closed (cs' k)"
    using Cmd_counter [OF assms(2,3)] c by simp_all
  then show ?thesis
    using Cmd_sends [OF assms(2,3)] packets_of_counter [OF n(1)] c d by (simp add: sends_def)
qed

lemma Pause_sends:
  assumes "control_Pause (\<lambda>_. None) k cs = (err, cs')" and "\<not> cl_closed (cs k)"
  shows "sends cs k (if fst (control_cmd None k ''save-off'' cs) = None then [''save-off'', ''save-all flush''] else [''save-off'']) cs'"
proof -
  obtain e1 cs1 where one: "control_cmd None k ''save-off'' cs = (e1, cs1)" by fastforce
  then have s1: "sends cs k [''save-off''] cs1"
    using control_cmd_sends assms(2) by (fastforce simp: maxPayload_def)
  show ?thesis
  proof (cases e1)
    case None
    then have "control_cmd None k ''save-all flush'' cs1 = (err, cs')"
      using assms(1) one by (simp add: control_Pause_def)
    then have "sends cs1 k [''save-all flush''] cs'"
      using control_cmd_sends s1 by (fastforce simp: maxPayload_def sends_def)
    then show ?thesis using sends_trans [OF s1] None one by simp
  next
    case (Some a)
    then have "cs' = cs1" using assms(1) one by (simp add: control_Pause_def)
    then show ?thesis using s1 Some one by simp
  qed
qed

lemma Resume_sends:
  "\<not> cl_closed (cs k) \<Longrightarrow> sends cs k [''save-on''] (snd (control_Resume (\<lambda>_. None) k cs))"
  by (cases "control_cmd None k ''save-on'' cs") (simp add: control_Resume_def control_cmd_sends maxPayload_def)

text \<open>The calls \<open>Create\<close> makes in online mode, once the directory of the store is there.\<close>

lemma Create_calls:
  assumes "co_Mode opts = ModeOnline" and "co_SaveControl opts" and "cf_mkdir f = None"
  shows "fst (snd (Create rt ctx ts now sid tree opts f fs)) = (if cf_pause f = None then [PauseSaves, ResumeSaves] else [PauseSaves])"
    and "cf_pause f \<noteq> None \<Longrightarrow> isl (fst (Create rt ctx ts now sid tree opts f fs)) \<and> snd (snd (Create rt ctx ts now sid tree opts f fs)) = fs"
  using assms by (auto simp: Create_def ModeOnline_def Let_def split: option.split prod.split)

lemma controlled_create_sends:
  assumes "co_Mode opts = ModeOnline" and "cf_mkdir (ce_faults v) = None" and "\<not> cl_closed (cs k)"
    and "controlled_create r v (\<lambda>_. None) (Some k) sid opts (cs, fs) = (res, cs', fs')"
  shows "if fst (control_Pause (\<lambda>_. None) k cs) = None
    then sends cs k [''save-off'', ''save-all flush'', ''save-on''] cs'
    else isl res \<and> fs' = fs \<and> (sends cs k [''save-off'', ''save-all flush''] cs' \<or> sends cs k [''save-off''] cs')"
proof -
  obtain perr cs1 where p: "control_Pause (\<lambda>_. None) k cs = (perr, cs1)" by fastforce
  let ?f = "(ce_faults v)\<lparr>cf_pause := map_option (ce_text v) perr\<rparr>"
  let ?o = "opts\<lparr>co_SaveControl := True\<rparr>"
  obtain res0 calls fs0 where C: "Create r (ce_ctx v) (ce_stamp v) (ce_now v) sid (ce_tree v) ?o ?f fs = (res0, calls, fs0)"
    by (metis prod_cases3)
  have "co_Mode ?o = ModeOnline" "co_SaveControl ?o" "cf_mkdir ?f = None" using assms(1,2) by simp_all
  note calls = Create_calls [OF this, of r "ce_ctx v" "ce_stamp v" "ce_now v" sid "ce_tree v" fs, unfolded C]
  note P = Pause_sends [OF p assms(3)]
  show ?thesis
  proof (cases perr)
    case None
    then have first: "fst (control_cmd None k ''save-off'' cs) = None"
      using p by (auto simp: control_Pause_def split: prod.splits option.splits)
    have c': "cs' = snd (control_Resume (\<lambda>_. None) k cs1)"
      using assms(4) p C calls(1) None by (simp add: controlled_create_def Let_def)
    have s: "sends cs k [''save-off'', ''save-all flush''] cs1" using P first by simp
    then have "sends cs1 k [''save-on''] cs'"
      unfolding c' using Resume_sends by (simp add: sends_def)
    then show ?thesis using sends_trans [OF s] None p by simp
  next
    case (Some e)
    have "cs' = cs1" "res = res0" "fs' = fs0"
      using assms(4) p C calls(1) Some by (simp_all add: controlled_create_def Let_def)
    then show ?thesis using P calls(2) Some p by (auto split: if_splits)
  qed
qed

text \<open>
  C14: a backup of a running server with an RCON connection: if the server acknowledges \<open>save-off\<close> and
  \<open>save-all flush\<close>, then whatever happens to the archive the server is told exactly these two and then
  \<open>save-on\<close>.  If one of the two fails, the request fails and no file is touched, but \<open>save-on\<close> is not
  sent: a server that executed \<open>save-off\<close> keeps running without saving.
\<close>

theorem online_backup_brackets_saves:
  assumes "mg_slots m name = Some s" and "s_state s = StateRunning" and "s_server s = Some srv" and "s_rcon s = Some k"
    and "\<not> cl_closed (cs k)" and "cf_mkdir (ce_faults v) = None"
  shows "case handleBackupCreate (Some r) v (\<lambda>_. None) name (Body \<lparr>cr_Label = l, cr_StopServer = False, cr_IncludeLogs = i\<rparr>) m (cs, fs) of
    (reply, cs', fs') \<Rightarrow>
      (if fst (control_Pause (\<lambda>_. None) k cs) = None
       then sends cs k [''save-off'', ''save-all flush'', ''save-on''] cs'
       else reply = reply_error 500 ''internal'' \<and> fs' = fs
            \<and> (sends cs k [''save-off'', ''save-all flush''] cs' \<or> sends cs k [''save-off''] cs'))"
proof -
  let ?opts = "\<lparr>co_Label = l, co_Mode = ModeOnline, co_IncludeLogs = i, co_SaveControl = False\<rparr>"
  obtain res cs' fs' where C: "controlled_create r v (\<lambda>_. None) (Some k) (srv_ID srv) ?opts (cs, fs) = (res, cs', fs')"
    by (metis prod_cases3)
  have H: "handleBackupCreate (Some r) v (\<lambda>_. None) name (Body \<lparr>cr_Label = l, cr_StopServer = False, cr_IncludeLogs = i\<rparr>) m (cs, fs)
      = ((case res of Inl _ \<Rightarrow> reply_error 500 ''internal'' | Inr _ \<Rightarrow> reply_ok 201), cs', fs')"
    using assms(1-4) C
    by (simp add: handleBackupCreate_def gate_defs DecodeOptional_def DecodeJSON_def SaveControlForBackup_def Let_def split: sum.split)
  have "co_Mode ?opts = ModeOnline" by simp
  note sent = controlled_create_sends [OF this assms(6,5) C]
  show ?thesis
  proof (cases "fst (control_Pause (\<lambda>_. None) k cs) = None")
    case True
    then show ?thesis using sent unfolding H by simp
  next
    case False
    then have "isl res \<and> fs' = fs \<and> (sends cs k [''save-off'', ''save-all flush''] cs' \<or> sends cs k [''save-off''] cs')"
      using sent by simp
    then show ?thesis using False unfolding H by (auto split: sum.split)
  qed
qed

text \<open>A server that acknowledges nothing: the connection has no bytes to deliver.\<close>

definition silent :: client where
  "silent = \<lparr>cl_id = 0, cl_closed = False, cl_in = [], cl_out = []\<rparr>"

definition demo_create_env :: create_env where
  "demo_create_env = \<lparr>ce_ctx = (\<lambda>_. None), ce_stamp = ''20260101-000000'', ce_now = 5, ce_tree = [],
     ce_faults = \<lparr>cf_mkdir = None, cf_pause = None, cf_open = None, cf_root = None, cf_close = None, cf_rename = None, cf_meta = None\<rparr>,
     ce_text = (\<lambda>_. ''rcon'')\<rparr>"

definition running_slot :: slot where
  "running_slot = (y_slot run2)\<lparr>s_state := StateRunning, s_rcon := Some 3\<rparr>"

lemma silent_pause: "fst (control_Pause (\<lambda>_. None) 3 (\<lambda>_. silent)) \<noteq> None"
proof -
  obtain p where "writePacket 1 typeExecCmd ''save-off'' = Inr p" using Inr_writePacket by fastforce
  then have "fst (Cmd None ''save-off'' silent) = Inl ReadError"
    by (simp add: Cmd_def silent_def nextID_def send_packet_def maxPayload_def readPacket_def ReadFull_def)
  then show ?thesis by (auto simp: control_Pause_def control_cmd_def split: prod.split sum.split)
qed

theorem online_backup_brackets_saves_witness:
  "case handleBackupCreate (Some ''/b'') demo_create_env (\<lambda>_. None) ''a''
      (Body \<lparr>cr_Label = ''x'', cr_StopServer = False, cr_IncludeLogs = False\<rparr>) (one_slot running_slot) (\<lambda>_. silent, Map.empty) of
    (reply, cs', fs') \<Rightarrow> reply = reply_error 500 ''internal'' \<and> fs' = Map.empty"
proof -
  have "s_state running_slot = StateRunning" "s_server running_slot = Some paper_server" "s_rcon running_slot = Some 3"
    by (simp_all add: running_slot_def run2_slot)
  moreover have "mg_slots (one_slot running_slot) ''a'' = Some running_slot" by (simp add: one_slot_def)
  moreover have "\<not> cl_closed ((\<lambda>_. silent) (3 :: nat))" "cf_mkdir (ce_faults demo_create_env) = None"
    by (simp_all add: silent_def demo_create_env_def)
  ultimately show ?thesis
    using online_backup_brackets_saves [where m = "one_slot running_slot" and name = "''a''" and s = running_slot
        and srv = paper_server and k = 3 and cs = "\<lambda>_. silent" and v = demo_create_env and r = "''/b''" and l = "''x''"
        and i = False and fs = Map.empty] silent_pause by (auto split: prod.splits)
qed

end
