(* ===== verification/OpenApi.thy ===== *)
theory OpenApi
  imports Router
begin

text \<open>
  \<open>internal/openapi\<close>: the document that \<open>/openapi.json\<close> answers with, built path by path as in
  \<open>build.go\<close>, and its agreement with the routes that \<open>router.go\<close> registers.  Go's maps are
  association lists; a field that is not set is the empty string, the empty list or \<open>None\<close>.
  Encoding the document as JSON is the library's.
\<close>

subsection \<open>Documents\<close>

datatype schema = Schema
  (sc_Ref: string) (sc_Type: string) (sc_Format: string) (sc_Items: "schema option")
  (sc_Properties: "(string \<times> schema) list") (sc_Required: "string list") (sc_Enum: "string list")
  (sc_Description: string)

record parameter =
  pa_Name :: string
  pa_In :: string
  pa_Required :: bool
  pa_Description :: string
  pa_Schema :: schema

type_synonym content = "(string \<times> schema) list"

record request_body =
  rb_Required :: bool
  rb_Content :: content

record doc_response =
  dr_Description :: string
  dr_Content :: content

record operation =
  op_Tags :: "string list"
  op_Summary :: string
  op_Parameters :: "parameter list"
  op_RequestBody :: "request_body option"
  op_Responses :: "(string \<times> doc_response) list"

record path_item =
  pi_Get :: "operation option"
  pi_Post :: "operation option"
  pi_Put :: "operation option"
  pi_Patch :: "operation option"
  pi_Delete :: "operation option"

type_synonym paths = "(string \<times> path_item) list"

record security_scheme =
  ss_Type :: string
  ss_Scheme :: string
  ss_BearerFormat :: string
  ss_Description :: string

record info =
  in_Title :: string
  in_Version :: string
  in_Summary :: string

record doc =
  do_OpenAPI :: string
  do_Info :: info
  do_Servers :: "string list"
  do_Tags :: "(string \<times> string) list"
  do_Paths :: paths
  do_Security :: "(string \<times> string list) list list"
  do_Schemas :: "(string \<times> schema) list"
  do_SecuritySchemes :: "(string \<times> security_scheme) list"

subsection \<open>Helpers of the builder\<close>

definition no_schema :: schema where
  "no_schema = Schema [] [] [] None [] [] [] []"

definition ref :: "string \<Rightarrow> schema" where
  "ref name = Schema (''#/components/schemas/'' @ name) [] [] None [] [] [] []"

definition typed :: "string \<Rightarrow> schema" where
  "typed t = Schema [] t [] None [] [] [] []"

definition string_format :: "string \<Rightarrow> schema" where
  "string_format f = Schema [] ''string'' f None [] [] [] []"

definition string_enum :: "string list \<Rightarrow> schema" where
  "string_enum vs = Schema [] ''string'' [] None [] [] vs []"

definition array_of :: "schema \<Rightarrow> schema" where
  "array_of s = Schema [] ''array'' [] (Some s) [] [] [] []"

definition object_schema :: "(string \<times> schema) list \<Rightarrow> string list \<Rightarrow> schema" where
  "object_schema props req = Schema [] ''object'' [] None props req [] []"

definition errContent :: content where
  "errContent = [(''application/json'', ref ''Error'')]"

definition jsonContent :: "schema \<Rightarrow> content" where
  "jsonContent s = [(''application/json'', s)]"

definition op_of :: "string \<Rightarrow> string \<Rightarrow> operation" where
  "op_of tag summary =
     \<lparr>op_Tags = [tag], op_Summary = summary, op_Parameters = [], op_RequestBody = None,
      op_Responses =
        [(''200'', \<lparr>dr_Description = ''OK'', dr_Content = []\<rparr>),
         (''401'', \<lparr>dr_Description = ''missing or invalid token'', dr_Content = errContent\<rparr>),
         (''403'', \<lparr>dr_Description = ''scope denied'', dr_Content = errContent\<rparr>),
         (''500'', \<lparr>dr_Description = ''internal error'', dr_Content = errContent\<rparr>)]\<rparr>"

definition meta_op :: "string \<Rightarrow> string \<Rightarrow> (string \<times> doc_response) list \<Rightarrow> operation" where
  "meta_op tag summary responses =
     \<lparr>op_Tags = [tag], op_Summary = summary, op_Parameters = [], op_RequestBody = None, op_Responses = responses\<rparr>"

definition newPath :: path_item where
  "newPath = \<lparr>pi_Get = None, pi_Post = None, pi_Put = None, pi_Patch = None, pi_Delete = None\<rparr>"

definition on_get :: "operation \<Rightarrow> path_item" where "on_get oper = newPath\<lparr>pi_Get := Some oper\<rparr>"
definition on_post :: "operation \<Rightarrow> path_item" where "on_post oper = newPath\<lparr>pi_Post := Some oper\<rparr>"

definition nameParam :: "string \<Rightarrow> parameter" where
  "nameParam name =
     \<lparr>pa_Name = name, pa_In = ''path'', pa_Required = True, pa_Description = [], pa_Schema = typed ''string''\<rparr>"

definition query_param :: "string \<Rightarrow> bool \<Rightarrow> schema \<Rightarrow> string \<Rightarrow> parameter" where
  "query_param name req s descr =
     \<lparr>pa_Name = name, pa_In = ''query'', pa_Required = req, pa_Description = descr, pa_Schema = s\<rparr>"

definition with_params :: "parameter list \<Rightarrow> operation \<Rightarrow> operation" where
  "with_params ps oper = oper\<lparr>op_Parameters := ps\<rparr>"

definition withResponse :: "string \<Rightarrow> string \<Rightarrow> schema \<Rightarrow> operation \<Rightarrow> operation" where
  "withResponse code descr s oper =
     oper\<lparr>op_Responses := AList.update code \<lparr>dr_Description = descr, dr_Content = jsonContent s\<rparr> (op_Responses oper)\<rparr>"

definition withRequest :: "schema \<Rightarrow> operation \<Rightarrow> operation" where
  "withRequest s oper = oper\<lparr>op_RequestBody := Some \<lparr>rb_Required = True, rb_Content = jsonContent s\<rparr>\<rparr>"

definition put_path :: "string \<Rightarrow> path_item \<Rightarrow> doc \<Rightarrow> doc" where
  "put_path p item d = d\<lparr>do_Paths := AList.update p item (do_Paths d)\<rparr>"

definition put_paths :: "paths \<Rightarrow> doc \<Rightarrow> doc" where
  "put_paths items d = fold (\<lambda>(p, item). put_path p item) items d"

subsection \<open>The paths\<close>

definition addMeta :: paths where
  "addMeta =
     [(''/healthz'', on_get (meta_op ''meta'' ''Liveness check (no auth)''
         [(''200'', \<lparr>dr_Description = ''ok'', dr_Content = []\<rparr>)])),
      (''/readyz'', on_get (meta_op ''meta'' ''Readiness check (no auth)''
         [(''200'', \<lparr>dr_Description = ''ready'', dr_Content = []\<rparr>),
          (''503'', \<lparr>dr_Description = ''still starting'', dr_Content = errContent\<rparr>)])),
      (''/version'', on_get (withResponse ''200'' ''version info'' (ref ''Version'') (op_of ''meta'' ''Build metadata''))),
      (''/openapi.json'', on_get (meta_op ''meta'' ''This document''
         [(''200'', \<lparr>dr_Description = ''OpenAPI 3.1 document'', dr_Content = []\<rparr>)]))]"

definition addInstance :: paths where
  "addInstance =
     [(''/api/v1/instance'', (on_get (withResponse ''200'' ''instance info'' (ref ''Instance'') (op_of ''meta'' ''Instance identity''))))]"

definition addDiscovery :: paths where
  "addDiscovery =
     [(''/api/v1/discovery'', on_get (withResponse ''200'' ''discovery snapshot'' (ref ''DiscoveryResponse'')
         (with_params
           [query_param ''state'' False (string_enum [''free'', ''owned-self'', ''owned-other'', ''stale'']) [],
            query_param ''type'' False (string_enum [''paper'', ''vanilla'', ''fabric'', ''forge'']) []]
           (op_of ''discovery'' ''List discovered servers'')))),
      (''/api/v1/discovery/refresh'', on_post (withResponse ''200'' ''fresh snapshot'' (ref ''DiscoveryResponse'')
         (op_of ''discovery'' ''Force a discovery rescan''))),
      (''/api/v1/discovery/{server_id}/lock'', newPath\<lparr>pi_Delete := Some
         (with_params [nameParam ''server_id'', query_param ''force'' False (typed ''boolean'') ''Steal a stale lock'']
           (op_of ''discovery'' ''Release a server's ownership lock''))\<rparr>)]"

definition slot_action :: "string \<Rightarrow> string \<Rightarrow> string \<times> path_item" where
  "slot_action verb summary =
     (let o0 = with_params [nameParam ''name''] (op_of ''slots'' summary);
          o1 = (if verb = ''start'' then withRequest (ref ''StartRequest'') o0 else o0);
          o2 = (if verb = ''stop'' \<or> verb = ''restart'' then withRequest (ref ''StopRequest'') o1 else o1)
      in (''/api/v1/slots/{name}/'' @ verb, on_post (withResponse ''202'' ''transition accepted'' (ref ''Slot'') o2)))"

definition addSlots :: paths where
  "addSlots =
     ([(''/api/v1/slots'', on_get (withResponse ''200'' ''slot snapshots'' (ref ''SlotsListResponse'')
          (op_of ''slots'' ''List slots''))),
       (''/api/v1/slots/{name}'', on_get (withResponse ''200'' ''slot snapshot'' (ref ''Slot'')
          (with_params [nameParam ''name''] (op_of ''slots'' ''Slot detail'')))),
       (''/api/v1/slots/{name}/compatible-servers'', on_get
          (with_params [nameParam ''name''] (op_of ''slots'' ''Servers this slot can mount'')))]
      @ [slot_action ''start'' ''Mount and start a server in this slot'',
         slot_action ''stop'' ''Graceful shutdown'',
         slot_action ''restart'' ''Stop then start with the same server id'',
         slot_action ''abort-stop'' ''Cancel in-progress graceful shutdown''])"

definition control_entry :: "string \<Rightarrow> string \<Rightarrow> string \<Rightarrow> schema \<Rightarrow> schema \<Rightarrow> string \<times> path_item" where
  "control_entry verb path summary req resp =
     (let o0 = with_params [nameParam ''name''] (op_of ''server'' summary);
          o1 = (if sc_Ref req \<noteq> [] then withRequest req o0 else o0);
          o2 = (if sc_Ref resp \<noteq> [] then withResponse ''200'' summary resp o1 else o1)
      in (''/api/v1/slots/{name}/server/'' @ path,
          if verb = ''get'' then on_get o2 else if verb = ''post'' then on_post o2 else newPath))"

definition player_action :: "string \<Rightarrow> string \<times> path_item" where
  "player_action action =
     (''/api/v1/slots/{name}/server/players/{player}/'' @ action,
      on_post (with_params [nameParam ''name'', nameParam ''player''] (op_of ''server'' (''Player '' @ action))))"

definition addServerControl :: paths where
  "addServerControl =
     ([control_entry ''post'' ''command'' ''Raw RCON command'' (ref ''CommandRequest'') (ref ''CommandResponse''),
       control_entry ''post'' ''say'' ''Broadcast a message'' (ref ''SayRequest'') no_schema,
       control_entry ''get'' ''players'' ''List players'' no_schema (ref ''PlayersResponse'')]
      @ map player_action [''kick'', ''ban'', ''unban'', ''op'', ''deop''])"

definition addLists :: paths where
  "addLists =
     (let named = with_params [nameParam ''name''];
          player = with_params [nameParam ''name'', nameParam ''player'']
      in [(''/api/v1/slots/{name}/server/whitelist'', on_get (named (op_of ''server'' ''Whitelist (read)''))),
         (''/api/v1/slots/{name}/server/whitelist/{player}'',
            newPath\<lparr>pi_Put := Some (player (op_of ''server'' ''Whitelist add'')),
                    pi_Delete := Some (player (op_of ''server'' ''Whitelist remove''))\<rparr>),
         (''/api/v1/slots/{name}/server/whitelist/reload'', on_post (named (op_of ''server'' ''Whitelist reload''))),
         (''/api/v1/slots/{name}/server/banlist'', on_get (named (op_of ''server'' ''Banned players''))),
         (''/api/v1/slots/{name}/server/banlist/ips'', on_get (named (op_of ''server'' ''Banned IPs'')))])"

definition addProperties :: paths where
  "addProperties =
     [(''/api/v1/slots/{name}/server/properties'', (newPath\<lparr>pi_Get := Some (with_params [nameParam ''name''] (op_of ''server'' ''Read parsed server.properties'')),
              pi_Patch := Some (with_params [nameParam ''name'']
                (op_of ''server'' ''Update server.properties (rejects mcsm-managed keys)''))\<rparr>))]"

definition addLogs :: paths where
  "addLogs =
     [(''/api/v1/slots/{name}/server/logs'', on_get (with_params
         [nameParam ''name'', query_param ''tail'' False (typed ''integer'') [],
          query_param ''since'' False (string_format ''date-time'') [],
          query_param ''level'' False (string_enum [''info'', ''warn'', ''error'']) []]
         (op_of ''logs'' ''Historical log tail''))),
      (''/api/v1/slots/{name}/server/logs/stream'', on_get (with_params [nameParam ''name'']
         (op_of ''logs'' ''Live log stream (WebSocket Upgrade)''))),
      (''/api/v1/slots/{name}/events'', on_get (with_params [nameParam ''name'']
         (op_of ''slots'' ''Slot lifecycle event stream (WebSocket Upgrade)'')))]"

definition addBackups :: paths where
  "addBackups =
     (let named = with_params [nameParam ''name''];
          one = with_params [nameParam ''name'', nameParam ''id'']
      in [(''/api/v1/slots/{name}/server/backups'',
            newPath\<lparr>pi_Get := Some (named (op_of ''backups'' ''List backups'')),
                    pi_Post := Some (withRequest
                      (object_schema [(''label'', typed ''string''), (''stop_server'', typed ''boolean''),
                                      (''include_logs'', typed ''boolean'')] [])
                      (named (op_of ''backups'' ''Create a backup'')))\<rparr>),
         (''/api/v1/slots/{name}/server/backups/{id}'',
            newPath\<lparr>pi_Get := Some (one (op_of ''backups'' ''Backup detail'')),
                    pi_Delete := Some (one (op_of ''backups'' ''Delete a backup''))\<rparr>),
         (''/api/v1/slots/{name}/server/backups/{id}/restore'',
            on_post (one (op_of ''backups'' ''Restore (slot must be stopped)'')))])"

definition addUpdate :: paths where
  "addUpdate =
     [(''/api/v1/slots/{name}/server/update'', (newPath\<lparr>pi_Get := Some (with_params [nameParam ''name'', query_param ''mc_version'' True (typed ''string'') []]
                (op_of ''updates'' ''Check for the latest available release'')),
              pi_Post := Some (withRequest
                (object_schema [(''mc_version'', typed ''string''), (''backup'', typed ''boolean'')] [''mc_version''])
                (with_params [nameParam ''name''] (op_of ''updates'' ''Download + install (slot must be stopped)'')))\<rparr>))]"

definition addSystem :: paths where
  "addSystem =
     [(''/api/v1/system/temperature'', on_get (op_of ''system'' ''CPU temperature'')),
      (''/api/v1/system/resources'', on_get (op_of ''system'' ''Host CPU/mem/disk/load''))]"

definition addAudit :: paths where
  "addAudit =
     [(''/api/v1/audit'', (on_get (with_params
     [query_param ''since'' False (string_format ''date-time'') [],
      query_param ''until'' False (string_format ''date-time'') [],
      query_param ''actor'' False (typed ''string'') [], query_param ''kind'' False (typed ''string'') [],
      query_param ''limit'' False (typed ''integer'') [], query_param ''cursor'' False (typed ''string'') []]
     (op_of ''audit'' ''Audit log entries''))))]"

definition addPeers :: paths where
  "addPeers =
     [(''/api/v1/peers'', on_get (op_of ''federation'' ''List peers'')),
      (''/api/v1/peers/refresh'', on_post (op_of ''federation'' ''Force a peer ping round''))]"

definition addFederation :: paths where
  "addFederation =
     [(''/api/v1/federation/discovery'', on_get (op_of ''federation'' ''Aggregated discovery (self + peers)'')),
      (''/api/v1/federation/slots'', on_get (op_of ''federation'' ''Aggregated slots, tagged with instance''))]"

definition addMetrics :: paths where
  "addMetrics =
     [(''/metrics'', (on_get (meta_op ''metrics'' ''Prometheus exposition (no auth by default)''
     [(''200'', \<lparr>dr_Description = ''Prometheus text format'', dr_Content = [(''text/plain'', typed ''string'')]\<rparr>)])))]"

subsection \<open>Schemas, tags and the document\<close>

definition defaultSchemas :: "(string \<times> schema) list" where
  "defaultSchemas =
     (let str = typed ''string''; int = typed ''integer''; obj = typed ''object''; bool = typed ''boolean'';
          at = string_format ''date-time''
      in
       [(''Error'', object_schema [(''error'', object_schema
           [(''code'', str), (''message'', str), (''trace_id'', str)] [])] []),
        (''Version'', object_schema [(''version'', str), (''commit'', str), (''date'', str)] []),
        (''Instance'', object_schema
           [(''name'', str), (''version'', str), (''uptime_seconds'', int), (''discovery_roots'', array_of str),
            (''slot_count'', int)] []),
        (''DiscoveryResponse'', object_schema [(''scanned_at'', at), (''servers'', array_of obj)] []),
        (''Slot'', object_schema
           [(''name'', str), (''port'', int),
            (''state'', string_enum [''idle'', ''mounting'', ''starting'', ''running'', ''stopping'', ''crashed'', ''error'']),
            (''state_since'', at), (''mounted_server_id'', str), (''mounted_server'', obj)] []),
        (''SlotsListResponse'', object_schema [(''slots'', array_of (ref ''Slot''))] []),
        (''StartRequest'', object_schema [(''server_id'', str), (''force'', bool)] [''server_id'']),
        (''StopRequest'', object_schema
           [(''graceful_seconds'', int), (''broadcast_every'', int), (''broadcast_template'', str), (''kill_grace'', str)] []),
        (''CommandRequest'', object_schema [(''command'', str)] [''command'']),
        (''CommandResponse'', object_schema [(''command'', str), (''response'', str), (''elapsed_ms'', int)] []),
        (''SayRequest'', object_schema [(''message'', str)] [''message'']),
        (''PlayersResponse'', object_schema [(''online'', int), (''max'', int), (''players'', array_of obj)] [])])"

definition defaultTags :: "(string \<times> string) list" where
  "defaultTags =
     [(''meta'', ''Health, version, identity''), (''discovery'', ''Server pool + ownership locks''),
      (''slots'', ''Per-instance slot lifecycle''), (''server'', ''Mounted server control via RCON''),
      (''logs'', ''Log tail (REST + WebSocket)''), (''backups'', ''Snapshot + restore''),
      (''updates'', ''Server-jar update flow''), (''system'', ''Host metrics''), (''audit'', ''Mutation log''),
      (''federation'', ''Cross-instance aggregation''), (''metrics'', ''Prometheus scrape endpoint'')]"

definition base_doc :: "string \<Rightarrow> doc" where
  "base_doc version =
     \<lparr>do_OpenAPI = ''3.1.0'',
      do_Info = \<lparr>in_Title = ''MCSM API'', in_Version = version,
                 in_Summary = ''Minecraft Server Monitor '' @ [CHR 0xE2, CHR 0x80, CHR 0x94]
                   @ '' control plane for one or more Minecraft servers.''\<rparr>,
      do_Servers = [''/''], do_Tags = defaultTags, do_Paths = [], do_Security = [[(''bearer'', [])]],
      do_Schemas = defaultSchemas,
      do_SecuritySchemes = [(''bearer'', \<lparr>ss_Type = ''http'', ss_Scheme = ''bearer'', ss_BearerFormat = ''opaque'',
         ss_Description = ''Argon2id-hashed at rest. See docs/api.md '' @ [CHR 0xC2, CHR 0xA7] @ ''1.3.''\<rparr>)]\<rparr>"

definition parts :: "paths list" where
  "parts = [addMeta, addInstance, addDiscovery, addSlots, addServerControl, addLists, addProperties, addLogs,
     addBackups, addUpdate, addSystem, addAudit, addPeers, addFederation, addMetrics]"

definition Build :: "string \<Rightarrow> doc" where
  "Build version = fold put_paths parts (base_doc version)"

subsection \<open>The document describes the routes\<close>

definition operations :: "path_item \<Rightarrow> (string \<times> operation) list" where
  "operations p =
     (case pi_Get p of None \<Rightarrow> [] | Some oper \<Rightarrow> [(''GET'', oper)])
     @ (case pi_Post p of None \<Rightarrow> [] | Some oper \<Rightarrow> [(''POST'', oper)])
     @ (case pi_Put p of None \<Rightarrow> [] | Some oper \<Rightarrow> [(''PUT'', oper)])
     @ (case pi_Patch p of None \<Rightarrow> [] | Some oper \<Rightarrow> [(''PATCH'', oper)])
     @ (case pi_Delete p of None \<Rightarrow> [] | Some oper \<Rightarrow> [(''DELETE'', oper)])"

definition described :: "(string \<times> path_item) list \<Rightarrow> (string \<times> seg list) list" where
  "described paths = concat (map (\<lambda>(p, item). map (\<lambda>(m, _). (m, parse_pattern p)) (operations item)) paths)"

definition registered :: "route list \<Rightarrow> (string \<times> seg list) list" where
  "registered rs = map (\<lambda>r. (ro_Method r, ro_Pattern r)) rs"

lemma do_Paths_put [simp]: "do_Paths (put_path p item d) = AList.update p item (do_Paths d)"
  by (simp add: put_path_def)

lemma do_Paths_puts: "do_Paths (put_paths items d) = fold (\<lambda>(p, item). AList.update p item) items (do_Paths d)"
  unfolding put_paths_def by (induction items arbitrary: d) auto

lemma do_Paths_parts:
  "do_Paths (fold put_paths ps d) = fold (\<lambda>(p, item). AList.update p item) (concat ps) (do_Paths d)"
  by (induction ps arbitrary: d) (simp_all add: do_Paths_puts)

lemma fold_update_fresh:
  "distinct (map fst (xs @ items)) \<Longrightarrow> fold (\<lambda>(p, item). AList.update p item) items xs = xs @ items"
proof (induction items arbitrary: xs)
  case (Cons x items)
  then show ?case using update_fresh [of "fst x" xs "snd x"] by (cases x) auto
qed simp

lemma do_Schemas_put [simp]: "do_Schemas (put_path p item d) = do_Schemas d"
  by (simp add: put_path_def)

lemma do_Schemas_puts [simp]: "do_Schemas (put_paths items d) = do_Schemas d"
  unfolding put_paths_def by (induction items arbitrary: d) auto

lemma do_Schemas_parts [simp]: "do_Schemas (fold put_paths ps d) = do_Schemas d"
  by (induction ps arbitrary: d) simp_all

lemmas part_defs = parts_def addMeta_def addInstance_def addDiscovery_def addSlots_def addServerControl_def
  addLists_def addProperties_def addLogs_def addBackups_def addUpdate_def addSystem_def addAudit_def addPeers_def
  addFederation_def addMetrics_def slot_action_def control_entry_def player_action_def Let_def

lemma distinct_paths: "distinct (map fst (concat parts))"
proof -
  have "distinct (map rev (map fst (concat parts)))" by (simp add: part_defs)
  then show ?thesis by (simp only: distinct_map)
qed

lemma Build_paths: "do_Paths (Build v) = concat parts"
  using fold_update_fresh [of "[]" "concat parts"] distinct_paths by (simp add: Build_def base_doc_def do_Paths_parts)

lemma Build_schemas: "do_Schemas (Build v) = defaultSchemas"
  by (simp add: Build_def base_doc_def)

definition demo_cfg :: metrics_cfg where
  "demo_cfg = \<lparr>mc_Enabled = True, mc_Path = [], mc_RequireAuth = False\<rparr>"

text \<open>The order of the routes in the document.\<close>

definition doc_order :: "nat list" where
  "doc_order = [0..<34] @ [36, 37, 38, 40, 39, 34, 35] @ [41..<49]"

lemma described_registered:
  "described (concat parts) = map (\<lambda>i. registered (register demo_cfg) ! i) doc_order"
  by (simp add: part_defs described_def operations_def on_get_def on_post_def newPath_def registered_def
      register_def metrics_routes_def demo_cfg_def fixed_routes_def public_routes_def slot_routes_def
      server_routes_def other_routes_def open_route_def api_route_def doc_order_def upt_rec)

lemma length_registered: "length (registered (register demo_cfg)) = 49"
  by (simp add: registered_def register_def metrics_routes_def demo_cfg_def fixed_routes_def
      public_routes_def slot_routes_def server_routes_def other_routes_def)

lemma doc_order_all: "set doc_order = {..<length (registered (register demo_cfg))}"
proof -
  have "sort doc_order = [0..<49]" by code_simp
  then have "set doc_order = set [0..<49]" by (metis set_sort)
  then show ?thesis unfolding length_registered by (simp only: set_upt atLeast0LessThan)
qed

lemma registered_metrics:
  "mc_Enabled c \<Longrightarrow> mc_Path c = [] \<or> mc_Path c = ''/metrics'' \<Longrightarrow> registered (register c) = registered (register demo_cfg)"
  by (auto simp: registered_def register_def metrics_routes_def demo_cfg_def)

text \<open>
  C30: the document describes exactly the routes of the router: every method and path that is registered
  is an operation of the document and every operation is registered, when the metrics are served at
  their default path.
\<close>

theorem openapi_describes_routes:
  assumes "mc_Enabled c" and "mc_Path c = [] \<or> mc_Path c = ''/metrics''"
  shows "set (described (do_Paths (Build version))) = (\<lambda>r. (ro_Method r, ro_Pattern r)) ` set (register c)"
proof -
  have "set (described (do_Paths (Build version))) = set (registered (register c))"
    unfolding Build_paths registered_metrics [OF assms] described_registered set_map doc_order_all
    by (auto simp: set_conv_nth)
  then show ?thesis by (simp add: registered_def)
qed

theorem openapi_describes_routes_witness:
  "(''PATCH'', parse_pattern ''/api/v1/slots/{name}/server/properties'') \<in> set (described (do_Paths (Build ''2.0'')))"
proof -
  have "mc_Enabled demo_cfg" "mc_Path demo_cfg = [] \<or> mc_Path demo_cfg = ''/metrics''"
    by (simp_all add: demo_cfg_def)
  note openapi_describes_routes [OF this, of "''2.0''"]
  moreover have "api_route ''PATCH'' ''/slots/{name}/server/properties'' ''server:admin'' ''handleServerPropertiesPatch''
      \<in> set (register demo_cfg)"
    by (simp add: register_def fixed_routes_def server_routes_def)
  ultimately show ?thesis by (force simp: api_route_def)
qed

subsection \<open>The document is well formed\<close>

fun schema_refs :: "schema \<Rightarrow> string list" where
  "schema_refs (Schema r t f it ps rq en de) =
     (if r = [] then [] else [r]) @ (case it of None \<Rightarrow> [] | Some s \<Rightarrow> schema_refs s)
     @ concat (map (\<lambda>p. schema_refs (snd p)) ps)"

definition operation_schemas :: "operation \<Rightarrow> schema list" where
  "operation_schemas oper =
     map pa_Schema (op_Parameters oper)
     @ (case op_RequestBody oper of None \<Rightarrow> [] | Some b \<Rightarrow> map snd (rb_Content b))
     @ concat (map (\<lambda>(_, r). map snd (dr_Content r)) (op_Responses oper))"

definition path_params :: "operation \<Rightarrow> string list" where
  "path_params oper = map pa_Name (filter (\<lambda>p. pa_In p = ''path'') (op_Parameters oper))"

definition wildcards :: "string \<Rightarrow> string list" where
  "wildcards p = concat (map (\<lambda>s. case s of Wild n \<Rightarrow> [n] | Lit _ \<Rightarrow> []) (parse_pattern p))"

definition path_operations :: "paths \<Rightarrow> (string \<times> operation) list" where
  "path_operations ps = concat (map (\<lambda>(p, item). map (\<lambda>(_, oper). (p, oper)) (operations item)) ps)"

definition all_operations :: "doc \<Rightarrow> (string \<times> operation) list" where
  "all_operations d = path_operations (do_Paths d)"

definition resolved :: "(string \<times> schema) list \<Rightarrow> string \<Rightarrow> bool" where
  "resolved schemas r = list_ex (\<lambda>(n, _). r = ''#/components/schemas/'' @ n) schemas"

definition operation_ok :: "(string \<times> schema) list \<Rightarrow> string \<times> operation \<Rightarrow> bool" where
  "operation_ok schemas = (\<lambda>(p, oper).
     path_params oper = wildcards p
     \<and> list_all (\<lambda>q. pa_In q = ''path'' \<longrightarrow> pa_Required q) (op_Parameters oper)
     \<and> op_Responses oper \<noteq> []
     \<and> list_all (\<lambda>s. list_all (resolved schemas) (schema_refs s)) (operation_schemas oper))"

lemma list_ex_fst: "list_ex (\<lambda>(n, _). P n) xs \<longleftrightarrow> (\<exists>n \<in> fst ` set xs. P n)"
  by (induction xs) auto

lemma operations_ok: "list_all (operation_ok defaultSchemas) (path_operations (concat parts))"
  by code_simp

lemma schemas_ok: "list_all (\<lambda>x. list_all (resolved defaultSchemas) (schema_refs (snd x))) defaultSchemas"
  by code_simp

text \<open>
  The document is well formed: every operation declares exactly the wildcards of its path as its path
  parameters, in their order and as required, and has a response; every schema reference in a
  parameter, a request body, a response or another schema names a schema of the document.
\<close>

theorem openapi_well_formed:
  "(\<forall>(p, oper) \<in> set (all_operations (Build version)).
      path_params oper = wildcards p
      \<and> (\<forall>q \<in> set (op_Parameters oper). pa_In q = ''path'' \<longrightarrow> pa_Required q)
      \<and> op_Responses oper \<noteq> []
      \<and> (\<forall>s \<in> set (operation_schemas oper). \<forall>r \<in> set (schema_refs s).
           \<exists>n \<in> fst ` set (do_Schemas (Build version)). r = ''#/components/schemas/'' @ n))
   \<and> (\<forall>s \<in> snd ` set (do_Schemas (Build version)). \<forall>r \<in> set (schema_refs s).
        \<exists>n \<in> fst ` set (do_Schemas (Build version)). r = ''#/components/schemas/'' @ n)"
proof -
  have res: "resolved defaultSchemas = (\<lambda>r. \<exists>n \<in> fst ` set defaultSchemas. r = ''#/components/schemas/'' @ n)"
    unfolding resolved_def by (rule ext, rule list_ex_fst)
  have "all_operations (Build version) = path_operations (concat parts)"
    by (simp add: all_operations_def Build_paths)
  then have "operation_ok defaultSchemas x" if "x \<in> set (all_operations (Build version))" for x
    using operations_ok that by (simp add: list_all_iff)
  then have "case x of (p, oper) \<Rightarrow> path_params oper = wildcards p
      \<and> (\<forall>q \<in> set (op_Parameters oper). pa_In q = ''path'' \<longrightarrow> pa_Required q)
      \<and> op_Responses oper \<noteq> []
      \<and> (\<forall>s \<in> set (operation_schemas oper). \<forall>r \<in> set (schema_refs s).
           \<exists>n \<in> fst ` set defaultSchemas. r = ''#/components/schemas/'' @ n)"
    if "x \<in> set (all_operations (Build version))" for x
    using that unfolding operation_ok_def list_all_iff res by iprover
  moreover have "\<forall>s \<in> snd ` set defaultSchemas. \<forall>r \<in> set (schema_refs s).
      \<exists>n \<in> fst ` set defaultSchemas. r = ''#/components/schemas/'' @ n"
    using schemas_ok by (simp only: list_all_iff res) (simp only: ball_simps)
  ultimately show ?thesis unfolding Build_schemas by blast
qed

theorem openapi_well_formed_witness:
  "\<exists>oper. (''/api/v1/slots/{name}/start'', oper) \<in> set (all_operations (Build ''2.0'')) \<and> path_params oper = [''name'']"
proof -
  have "list_ex (\<lambda>(p, oper). p = ''/api/v1/slots/{name}/start'') (path_operations (concat parts))" by code_simp
  then obtain oper where "(''/api/v1/slots/{name}/start'', oper) \<in> set (path_operations (concat parts))"
    by (auto simp: list_ex_iff)
  then have m: "(''/api/v1/slots/{name}/start'', oper) \<in> set (all_operations (Build ''2.0''))"
    by (simp add: all_operations_def Build_paths)
  have "wildcards ''/api/v1/slots/{name}/start'' = [''name'']" by code_simp
  then have "path_params oper = [''name'']"
    using bspec [OF conjunct1 [OF openapi_well_formed [of "''2.0''"]] m] by simp
  then show ?thesis using m by blast
qed

end
