(* ===== verification/Metrics.thy ===== *)
theory Metrics
  imports GoStrings
begin

text \<open>
  \<open>internal/metrics\<close>: the registry of gauges and counters, the keys of their series and the text
  that \<open>/metrics\<close> answers with, and the collectors \<open>NewCollectors\<close> registers.  A \<open>float64\<close> is any type
  with addition and zero; \<open>formatFloat\<close> is an argument.  Go's maps are association lists.
\<close>

subsection \<open>Series keys\<close>

abbreviation backslash :: char where "backslash \<equiv> CHR 0x5C"
abbreviation quote :: char where "quote \<equiv> CHR 0x22"

definition escapeLabel :: "string \<Rightarrow> string" where
  "escapeLabel v =
     ReplaceAll_byte (ReplaceAll_byte (ReplaceAll_byte v backslash [backslash, backslash])
       quote [backslash, quote]) nl [backslash, CHR ''n'']"

definition escapeHelp :: "string \<Rightarrow> string" where
  "escapeHelp v = ReplaceAll_byte (ReplaceAll_byte v backslash [backslash, backslash]) nl [backslash, CHR ''n'']"

definition label_pair :: "string \<times> string \<Rightarrow> string" where
  "label_pair p = fst p @ ''='' @ [quote] @ escapeLabel (snd p) @ [quote]"

definition labelKey :: "string list \<Rightarrow> string list \<Rightarrow> string" where
  "labelKey names values = (if names = [] then [] else Join (map label_pair (zip names values)) '','')"

subsection \<open>The registry\<close>

record 'f metric =
  m_name :: string
  m_help :: string
  m_mtype :: string
  m_labels :: "string list"
  m_series :: "(string \<times> 'f) list"

type_synonym 'f registry = "(string \<times> 'f metric) list"

definition upsert :: "string \<Rightarrow> string \<Rightarrow> string \<Rightarrow> string list \<Rightarrow> 'f registry \<Rightarrow> 'f registry" where
  "upsert name help mtype labels r =
     (case map_of r name of
        Some _ \<Rightarrow> r
      | None \<Rightarrow> r @ [(name, \<lparr>m_name = name, m_help = help, m_mtype = mtype, m_labels = labels, m_series = []\<rparr>)])"

definition MustRegisterGauge :: "string \<Rightarrow> string \<Rightarrow> string list \<Rightarrow> 'f registry \<Rightarrow> 'f registry" where
  "MustRegisterGauge name help labels = upsert name help ''gauge'' labels"

definition MustRegisterCounter :: "string \<Rightarrow> string \<Rightarrow> string list \<Rightarrow> 'f registry \<Rightarrow> 'f registry" where
  "MustRegisterCounter name help labels = upsert name help ''counter'' labels"

text \<open>A call with the wrong number of label values is dropped.\<close>

definition metric_set :: "string list \<Rightarrow> 'f \<Rightarrow> 'f metric \<Rightarrow> 'f metric" where
  "metric_set labels v m =
     (if length labels \<noteq> length (m_labels m) then m
      else m\<lparr>m_series := AList.update (labelKey (m_labels m) labels) v (m_series m)\<rparr>)"

definition metric_add :: "string list \<Rightarrow> 'f :: {plus, zero} \<Rightarrow> 'f metric \<Rightarrow> 'f metric" where
  "metric_add labels delta m =
     (if length labels \<noteq> length (m_labels m) then m
      else let k = labelKey (m_labels m) labels;
               old = (case map_of (m_series m) k of None \<Rightarrow> 0 | Some x \<Rightarrow> x)
           in m\<lparr>m_series := AList.update k (old + delta) (m_series m)\<rparr>)"

subsection \<open>The exposition\<close>

definition header_text :: "'f metric \<Rightarrow> string" where
  "header_text m =
     ''# HELP '' @ m_name m @ '' '' @ escapeHelp (m_help m) @ [nl]
     @ ''# TYPE '' @ m_name m @ '' '' @ m_mtype m @ [nl]"

definition sample_text :: "('f \<Rightarrow> string) \<Rightarrow> string \<Rightarrow> string \<times> 'f \<Rightarrow> string" where
  "sample_text fmt name s =
     name @ (if fst s \<noteq> [] then ''{'' @ fst s @ ''}'' else []) @ '' '' @ fmt (snd s) @ [nl]"

definition by_key :: "(string \<times> 'v) list \<Rightarrow> (string \<times> 'v) list" where
  "by_key xs = map (\<lambda>k. (k, the (map_of xs k))) (sort (map fst xs))"

definition metric_chunks :: "('f \<Rightarrow> string) \<Rightarrow> 'f metric \<Rightarrow> string list" where
  "metric_chunks fmt m = header_text m # map (sample_text fmt (m_name m)) (by_key (m_series m))"

text \<open>
  \<open>fault\<close> is the write that fails, the bytes it still wrote and its error; the result is the text
  written, whose length is the number returned, and the error.
\<close>

definition WriteTo :: "('f \<Rightarrow> string) \<Rightarrow> (nat \<times> nat \<times> string) option \<Rightarrow> 'f registry \<Rightarrow> string \<times> string option" where
  "WriteTo fmt fault r =
     (let chunks = concat (map (metric_chunks fmt \<circ> snd) (by_key r))
      in case fault of
           None \<Rightarrow> (concat chunks, None)
         | Some (i, k, e) \<Rightarrow>
             if length chunks \<le> i then (concat chunks, None)
             else (concat (take i chunks) @ take k (chunks ! i), Some e))"

subsection \<open>The collectors\<close>

definition NewCollectors :: "'f registry" where
  "NewCollectors = fold (\<lambda>f. f)
     [MustRegisterGauge ''mcsm_instance_info'' ''Static info about this MCSM instance (always 1).'' [''name'', ''version''],
      MustRegisterGauge ''mcsm_slot_state'' ''Current state of each slot (1 for the active state, 0 for others).''
        [''slot'', ''state''],
      MustRegisterGauge ''mcsm_slot_uptime_seconds'' ''Seconds since the slot last entered its current state.'' [''slot''],
      MustRegisterGauge ''mcsm_server_players_online'' ''Currently online players (from SLP).'' [''slot'', ''server_id''],
      MustRegisterGauge ''mcsm_server_players_max'' ''Server max-players (from SLP).'' [''slot'', ''server_id''],
      MustRegisterCounter ''mcsm_server_restart_total'' ''Number of times a server has restarted in this slot.''
        [''slot'', ''reason''],
      MustRegisterCounter ''mcsm_rcon_command_total'' ''Total RCON commands issued.'' [''slot''],
      MustRegisterCounter ''mcsm_lock_steal_total'' ''Number of times a stale lock was stolen.'' [''server_id''],
      MustRegisterGauge ''mcsm_system_temperature_celsius'' ''Most recent CPU temperature reading.'' [''sensor''],
      MustRegisterCounter ''mcsm_api_request_total'' ''Total API requests served.'' [''route'', ''method'', ''status''],
      MustRegisterGauge ''mcsm_peer_reachable'' ''1 if the peer responded to its last ping, else 0.'' [''peer_name''],
      MustRegisterGauge ''mcsm_peer_rtt_seconds'' ''Last measured round-trip-time to a peer in seconds.'' [''peer_name''],
      MustRegisterCounter ''mcsm_audit_entries_total'' ''Total audit log entries written.'' [''kind'', ''result'']] []"

text \<open>The calls the daemon makes on them: \<open>Gauge.Set\<close>, \<open>Counter.Inc\<close> and \<open>Counter.Add\<close>.\<close>

datatype 'f metric_call =
    GaugeSet string 'f "string list"
  | CounterInc string "string list"
  | CounterAdd string 'f "string list"

definition on_metric :: "string \<Rightarrow> ('f metric \<Rightarrow> 'f metric) \<Rightarrow> 'f registry \<Rightarrow> 'f registry" where
  "on_metric name f r = (case map_of r name of None \<Rightarrow> r | Some m \<Rightarrow> AList.update name (f m) r)"

fun apply_call :: "'f :: {plus, zero, one} metric_call \<Rightarrow> 'f registry \<Rightarrow> 'f registry" where
  "apply_call (GaugeSet name v ls) r = on_metric name (metric_set ls v) r"
| "apply_call (CounterInc name ls) r = on_metric name (metric_add ls 1) r"
| "apply_call (CounterAdd name v ls) r = on_metric name (metric_add ls v) r"

subsection \<open>Keys do not collide\<close>

definition esc :: "char \<Rightarrow> string" where
  "esc c = (if c = backslash then [backslash, backslash] else if c = quote then [backslash, quote]
            else if c = nl then [backslash, CHR ''n''] else [c])"

lemma escapeLabel_esc: "escapeLabel v = concat (map esc v)"
  by (induction v) (simp_all add: escapeLabel_def ReplaceAll_byte_def esc_def)

lemma escapeLabel_simps [simp]: "escapeLabel [] = []" "escapeLabel (c # v) = esc c @ escapeLabel v"
  by (simp_all add: escapeLabel_esc)

lemma escapeLabel_no_nl: "nl \<notin> set (escapeLabel v)"
  by (induction v) (simp_all add: esc_def)

lemma escapeHelp_no_nl: "nl \<notin> set (escapeHelp v)"
  by (auto simp: escapeHelp_def ReplaceAll_byte_def split: if_splits)

lemma escaped_value_ends:
  "escapeLabel v @ quote # r = escapeLabel w @ quote # s \<Longrightarrow> v = w \<and> r = s"
proof (induction v arbitrary: w)
  case Nil
  then show ?case by (cases w) (auto simp: esc_def split: if_splits)
next
  case (Cons c v)
  show ?case
  proof (cases w)
    case Nil
    with Cons.prems show ?thesis by (auto simp: esc_def split: if_splits)
  next
    case w: (Cons d w')
    with Cons.prems have "esc c @ escapeLabel v @ quote # r = esc d @ escapeLabel w' @ quote # s" by simp
    then have "c = d" by (auto simp: esc_def split: if_splits)
    with Cons.prems Cons.IH [of w'] w show ?thesis by simp
  qed
qed

lemma labelKey_Cons:
  "labelKey (n # ns) (v # vs) =
     n @ ''='' @ [quote] @ escapeLabel v @ quote # (if ns = [] \<or> vs = [] then [] else CHR '','' # labelKey ns vs)"
  by (cases ns; cases vs) (simp_all add: labelKey_def label_pair_def)

lemma labelKey_inject:
  "length vs = length names \<Longrightarrow> length ws = length names \<Longrightarrow> labelKey names vs = labelKey names ws \<longleftrightarrow> vs = ws"
proof (induction names arbitrary: vs ws)
  case (Cons n ns)
  then obtain v vs' w ws' where vw: "vs = v # vs'" "ws = w # ws'"
    by (metis length_Suc_conv length_Cons)
  have "v = w \<and> vs' = ws'" if "labelKey (n # ns) (v # vs') = labelKey (n # ns) (w # ws')"
  proof -
    have e: "escapeLabel v @ quote # (if ns = [] \<or> vs' = [] then [] else CHR '','' # labelKey ns vs')
        = escapeLabel w @ quote # (if ns = [] \<or> ws' = [] then [] else CHR '','' # labelKey ns ws')"
      using that by (simp add: labelKey_Cons)
    have "v = w" "(if ns = [] \<or> vs' = [] then [] else CHR '','' # labelKey ns vs')
        = (if ns = [] \<or> ws' = [] then [] else CHR '','' # labelKey ns ws')"
      using escaped_value_ends [OF e] by simp_all
    then show ?thesis using Cons.IH [of vs' ws'] Cons.prems vw by (cases ns) (auto split: if_splits)
  qed
  then show ?case using vw by auto
qed simp

definition series_value :: "'f metric \<Rightarrow> string list \<Rightarrow> 'f option" where
  "series_value m ls = map_of (m_series m) (labelKey (m_labels m) ls)"

text \<open>
  The series of a metric are separate: setting or adding to the series of one label set gives that
  label set its value and leaves every other one as it was, whatever quotes, commas, backslashes or
  newlines the values contain.
\<close>

theorem series_are_separate:
  assumes "length ls = length (m_labels m)" and "length ls' = length (m_labels m)"
  shows "series_value (metric_set ls v m) ls' = (if ls' = ls then Some v else series_value m ls') \<and>
    series_value (metric_add ls d m) ls' =
      (if ls' = ls then Some ((case series_value m ls of None \<Rightarrow> 0 | Some x \<Rightarrow> x) + d) else series_value m ls')"
  using assms by (auto simp: series_value_def metric_set_def metric_add_def Let_def update_conv labelKey_inject)

definition demo_metric :: "int metric" where
  "demo_metric = \<lparr>m_name = ''mcsm_audit_entries_total'', m_help = [], m_mtype = ''counter'',
     m_labels = [''kind'', ''result''], m_series = []\<rparr>"

theorem series_are_separate_witness:
  "series_value (metric_set [''a'', ''ok''] 3 demo_metric) [''a'' @ [quote] @ '',result='' @ [quote] @ ''ok'', []] = None \<and>
   series_value (metric_add [''a'', ''ok''] 1 demo_metric) [''a'', ''ok''] = Some 1"
proof -
  have l: "length [''a'', ''ok''] = length (m_labels demo_metric)"
    "length [''a'' @ [quote] @ '',result='' @ [quote] @ ''ok'', []] = length (m_labels demo_metric)"
    by (simp_all add: demo_metric_def)
  show ?thesis
    using series_are_separate [OF l, of 3 0] series_are_separate [OF l(1) l(1), of 0 1]
    by (simp add: series_value_def demo_metric_def)
qed

subsection \<open>The text has one line per sample\<close>

definition header_lines :: "'f metric \<Rightarrow> string list" where
  "header_lines m =
     [''# HELP '' @ m_name m @ '' '' @ escapeHelp (m_help m), ''# TYPE '' @ m_name m @ '' '' @ m_mtype m]"

definition sample_line :: "('f \<Rightarrow> string) \<Rightarrow> string \<Rightarrow> string \<times> 'f \<Rightarrow> string" where
  "sample_line fmt name s = name @ (if fst s \<noteq> [] then ''{'' @ fst s @ ''}'' else []) @ '' '' @ fmt (snd s)"

definition metric_lines :: "('f \<Rightarrow> string) \<Rightarrow> 'f metric \<Rightarrow> string list" where
  "metric_lines fmt m = header_lines m @ map (sample_line fmt (m_name m)) (by_key (m_series m))"

definition metric_ok :: "'f metric \<Rightarrow> bool" where
  "metric_ok m \<longleftrightarrow> nl \<notin> set (m_name m) \<and> nl \<notin> set (m_mtype m) \<and> (\<forall>l\<in>set (m_labels m). nl \<notin> set l)
     \<and> (\<forall>s\<in>set (m_series m). nl \<notin> set (fst s))"

definition registry_ok :: "'f registry \<Rightarrow> bool" where
  "registry_ok r \<longleftrightarrow> (\<forall>p\<in>set r. metric_ok (snd p))"

lemma set_by_key: "set (by_key xs) \<subseteq> set xs"
proof
  fix p assume "p \<in> set (by_key xs)"
  then obtain k where k: "k \<in> fst ` set xs" "p = (k, the (map_of xs k))" by (auto simp: by_key_def)
  then obtain v where "map_of xs k = Some v" by (metis map_of_eq_None_iff not_Some_eq)
  with k show "p \<in> set xs" by (simp add: map_of_SomeD)
qed

lemma labelKey_no_nl:
  "\<forall>l\<in>set names. nl \<notin> set l \<Longrightarrow> length vs = length names \<Longrightarrow> nl \<notin> set (labelKey names vs)"
proof (induction names arbitrary: vs)
  case (Cons n ns)
  then obtain v vs' where "vs = v # vs'" by (cases vs) auto
  with Cons show ?case by (auto simp: labelKey_Cons escapeLabel_no_nl)
qed (simp add: labelKey_def)

lemma metric_ok_update:
  "metric_ok m \<Longrightarrow> length ls = length (m_labels m) \<Longrightarrow>
     metric_ok (m\<lparr>m_series := AList.update (labelKey (m_labels m) ls) v (m_series m)\<rparr>)"
  using set_update_snd [of "labelKey (m_labels m) ls" v "m_series m"]
  by (fastforce simp: metric_ok_def labelKey_no_nl)

lemma metric_ok_ops [simp]:
  "metric_ok m \<Longrightarrow> metric_ok (metric_set ls v m)" "metric_ok m \<Longrightarrow> metric_ok (metric_add ls d m)"
  by (simp_all add: metric_set_def metric_add_def Let_def metric_ok_update)

lemma registry_ok_on_metric:
  assumes "registry_ok r" and "\<And>m. metric_ok m \<Longrightarrow> metric_ok (f m)"
  shows "registry_ok (on_metric name f r)"
proof (cases "map_of r name")
  case (Some m)
  then have "metric_ok m" using assms(1) by (fastforce simp: registry_ok_def dest: map_of_SomeD)
  then show ?thesis
    using assms Some set_update_snd [of name "f m" r] by (fastforce simp: registry_ok_def on_metric_def)
qed (simp add: on_metric_def assms)

lemma registry_ok_call: "registry_ok r \<Longrightarrow> registry_ok (apply_call c r)"
  by (cases c) (simp_all add: registry_ok_on_metric)

lemma registry_ok_calls: "registry_ok r \<Longrightarrow> registry_ok (fold apply_call calls r)"
  by (induction calls arbitrary: r) (simp_all add: registry_ok_call)

lemma registry_ok_collectors: "registry_ok NewCollectors"
  by (simp add: NewCollectors_def MustRegisterGauge_def MustRegisterCounter_def upsert_def registry_ok_def metric_ok_def)

lemma Split_lines: "\<forall>l\<in>set ls. nl \<notin> set l \<Longrightarrow> Split (concat (map (\<lambda>l. l @ [nl]) ls)) nl = ls @ [[]]"
  by (induction ls) (simp_all add: Split_append_sep Split_no_sep)

lemma sample_text_line: "sample_text fmt name = (\<lambda>s. sample_line fmt name s @ [nl])"
  by (rule ext) (simp add: sample_text_def sample_line_def)

lemma metric_chunks_lines: "concat (metric_chunks fmt m) = concat (map (\<lambda>l. l @ [nl]) (metric_lines fmt m))"
  by (simp add: metric_chunks_def metric_lines_def header_text_def header_lines_def sample_text_line comp_def)

lemma concat_chunks: "concat (concat (map f xs)) = concat (map (concat \<circ> f) xs)"
  by (induction xs) simp_all

lemma metric_lines_no_nl:
  assumes "metric_ok m" and "\<And>x. nl \<notin> set (fmt x)" and "l \<in> set (metric_lines fmt m)"
  shows "nl \<notin> set l"
  using assms set_by_key [of "m_series m"]
  by (fastforce simp: metric_lines_def header_lines_def sample_line_def metric_ok_def escapeHelp_no_nl split: if_splits)

text \<open>
  The exposition is never broken by what is in a label.  After any calls on the registered collectors,
  the text \<open>WriteTo\<close> writes splits at its newlines into the two header lines of each metric and one
  line per series, the metrics in the order of their names and the series in the order of their keys,
  although the kind of an audit entry carries the path of an unauthenticated request.
\<close>

theorem exposition_is_line_structured:
  assumes "\<And>x. nl \<notin> set (fmt x)"
  shows "Split (fst (WriteTo fmt None (fold apply_call calls NewCollectors))) nl =
    concat (map (metric_lines fmt \<circ> snd) (by_key (fold apply_call calls NewCollectors))) @ [[]]"
proof -
  let ?r = "fold apply_call calls NewCollectors"
  let ?ls = "concat (map (metric_lines fmt \<circ> snd) (by_key ?r))"
  have ok: "metric_ok m" if "(k, m) \<in> set (by_key ?r)" for k m
    using that set_by_key [of ?r] registry_ok_calls [OF registry_ok_collectors, of calls]
    by (fastforce simp: registry_ok_def)
  have no_nl: "\<forall>l\<in>set ?ls. nl \<notin> set l"
    using ok metric_lines_no_nl [of _ fmt] assms by fastforce
  have "fst (WriteTo fmt None ?r) = concat (map (\<lambda>l. l @ [nl]) ?ls)"
    by (simp add: WriteTo_def map_concat concat_chunks comp_def metric_chunks_lines)
  then show ?thesis by (simp only: Split_lines [OF no_nl])
qed

theorem exposition_is_line_structured_witness:
  "last (Split (fst (WriteTo (\<lambda>n. if n = 0 then ''0'' else ''1'') None
      (fold apply_call [CounterInc ''mcsm_audit_entries_total'' [''get'' @ [nl] @ ''x'', ''ok'']] (NewCollectors :: int registry)))) nl) = []"
  by (subst exposition_is_line_structured) simp_all

end
