(* ===== verification/Daemon.thy ===== *)
theory Daemon
  imports LogStream CatalogApi BackupApi Host OpenApi Metrics
begin

text \<open>
  The daemon as one state, and the table that sends every route of \<open>internal/api/router.go\<close> to its handler:
  the composition of the handlers with the guards of the router.  A \<open>call\<close> is what comes with a request
  and from outside while it is served: decoded bodies and query parameters, the clock, and what the calls
  into the operating system return.  The small handlers of \<open>handlers_meta.go\<close>, \<open>handlers_metrics.go\<close> and
  \<open>handlers_stub.go\<close> are here too.  The files of the disk are in separate components of the state: what
  the slots share (properties and locks) in \<open>dm_disk\<close>, backup files, jars, and the directory a restore
  writes.
\<close>

subsection \<open>The small handlers\<close>

definition handleHealthz :: reply where "handleHealthz = reply_ok 200"

definition handleReadyz :: "bool \<Rightarrow> reply" where
  "handleReadyz ready = (if \<not> ready then reply_error 503 ''not_ready'' else reply_ok 200)"

record build_info =
  bi_Version :: string
  bi_Commit :: string
  bi_Date :: string

definition handleVersion :: "build_info \<Rightarrow> reply \<times> build_info" where
  "handleVersion b = (reply_ok 200, b)"

record instance_view =
  iv_Name :: string
  iv_Build :: build_info
  iv_StartedAt :: time
  iv_UptimeSeconds :: int
  iv_Roots :: "string list"
  iv_SlotCount :: nat

definition handleInstance :: "build_info \<Rightarrow> daemon_cfg \<Rightarrow> time \<Rightarrow> time \<Rightarrow> reply \<times> instance_view" where
  "handleInstance b c startedAt now =
     (reply_ok 200, \<lparr>iv_Name = dc_InstanceName c, iv_Build = b, iv_StartedAt = startedAt,
        iv_UptimeSeconds = go_div (now - startedAt) second, iv_Roots = dc_Roots c, iv_SlotCount = length (dc_Slots c)\<rparr>)"

definition handleOpenAPI :: "build_info \<Rightarrow> reply \<times> doc" where
  "handleOpenAPI b = (reply_ok 200, Build (bi_Version b))"

definition handleMetrics :: "(rat \<Rightarrow> string) \<Rightarrow> rat registry option \<Rightarrow> reply \<times> string" where
  "handleMetrics formatFloat m =
     (case m of None \<Rightarrow> (reply_error 503 ''internal'', []) | Some r \<Rightarrow> (reply_ok 200, fst (WriteTo formatFloat None r)))"

definition notImplemented :: "string \<Rightarrow> reply" where
  "notImplemented endpoint = reply_error 501 ''not_implemented''"

subsection \<open>The state and the calls\<close>

record daemon =
  dm_fleet :: fleet
  dm_disk :: host_fs
  dm_store :: store
  dm_blobs :: blobs
  dm_jars :: files
  dm_world :: host_dir
  dm_pool :: "pool option"

text \<open>What does not change after the start.\<close>

record fixed =
  fx_cfg :: daemon_cfg
  fx_build :: build_info
  fx_started :: time
  fx_backups :: "string option"
  fx_updater :: updater
  fx_sha :: "string \<Rightarrow> string"

record call =
  ca_now :: time
  ca_fresh :: nat
  ca_ready :: bool
  ca_start :: "start_opts body"
  ca_start_env :: start_env
  ca_stop :: "stop_req body"
  ca_parse_dur :: "string \<Rightarrow> duration option"
  ca_parse_time :: "string \<Rightarrow> time option"
  ca_werr :: write_errors
  ca_text :: "string body"
  ca_ban :: "ban_req body"
  ca_level :: "int body"
  ca_force :: bool
  ca_lock_io :: "go_error option"
  ca_filters :: "string list \<times> string list"
  ca_format :: "rat \<Rightarrow> string"
  ca_patch :: "json_map body"
  ca_patch_io :: "write_fault \<times> string"
  ca_logs :: log_query
  ca_zone :: duration
  ca_procs :: "nat \<rightharpoonup> process"
  ca_log_stream :: log_stream_env
  ca_tailers :: "nat \<Rightarrow> tailer"
  ca_event_stream :: "bool \<times> (nat \<Rightarrow> bool) \<times> (time \<Rightarrow> string) \<times> event live list"
  ca_refusal :: response
  ca_buses :: "string \<Rightarrow> bus"
  ca_whitelist :: "string \<Rightarrow> whitelist_entry list option"
  ca_players :: "string \<Rightarrow> banned_player list option"
  ca_ips :: "string \<Rightarrow> banned_ip list option"
  ca_files :: "string \<Rightarrow> file_read"
  ca_version :: string
  ca_apply :: "apply_req body"
  ca_install :: install_env
  ca_create :: "create_req body"
  ca_create_env :: create_env
  ca_listing :: "go_error + string list"
  ca_delete_io :: "string \<Rightarrow> go_error option"
  ca_ctx :: "nat \<Rightarrow> go_error option"
  ca_zip :: "string \<Rightarrow> zip_read"
  ca_temperature :: "rat temperature option"
  ca_host :: host_view
  ca_floats :: "string \<Rightarrow> rat"
  ca_audit :: "audit_query \<times> logger option"
  ca_peer_text :: "peer_error \<Rightarrow> string"
  ca_pings :: "ping list"
  ca_answers :: "fetched list"
  ca_metrics :: "rat registry option"

abbreviation dm_mgr :: "daemon \<Rightarrow> manager" where "dm_mgr w \<equiv> fl_mgr (dm_fleet w)"
abbreviation dm_clients :: "daemon \<Rightarrow> clients" where "dm_clients w \<equiv> fl_clients (dm_fleet w)"

type_synonym serve_fn = "(string \<times> string) list \<Rightarrow> daemon \<Rightarrow> reply \<times> daemon"

subsection \<open>Handlers on the state of the daemon\<close>

text \<open>A handler that changes nothing.\<close>

definition reading :: "((string \<times> string) list \<Rightarrow> daemon \<Rightarrow> reply) \<Rightarrow> serve_fn" where
  "reading f = (\<lambda>b w. (f b w, w))"

definition on_fleet :: "((string \<times> string) list \<Rightarrow> fleet \<Rightarrow> reply \<times> fleet) \<Rightarrow> serve_fn" where
  "on_fleet f = (\<lambda>b w. case f b (dm_fleet w) of (r, fl) \<Rightarrow> (r, w\<lparr>dm_fleet := fl\<rparr>))"

definition on_mgr :: "((string \<times> string) list \<Rightarrow> manager \<Rightarrow> reply \<times> manager) \<Rightarrow> serve_fn" where
  "on_mgr f = (\<lambda>b w. case f b (dm_mgr w) of (r, m) \<Rightarrow> (r, w\<lparr>dm_fleet := (dm_fleet w)\<lparr>fl_mgr := m\<rparr>\<rparr>))"

text \<open>
  A start looks a server up in the catalog of the store, and refreshes the store when it is not there.
\<close>

definition refreshes :: "string \<Rightarrow> start_opts body \<Rightarrow> manager \<Rightarrow> store \<Rightarrow> bool" where
  "refreshes name body m st \<longleftrightarrow>
     (case (mg_slots m name, body) of
        (Some s, Body opts) \<Rightarrow> so_ServerID opts \<noteq> [] \<and> CanStartFrom (s_state s) \<and> FindByID (so_ServerID opts) (st_cur st) = None
      | _ \<Rightarrow> False)"

definition serve_start :: "call \<Rightarrow> serve_fn" where
  "serve_start c b w =
     (let name = PathValue b ''name'';
          (fresh, st') = store_Refresh (dm_disk w) (ca_now c) (dm_store w);
          env = (ca_start_env c)\<lparr>se_catalog := st_cur (dm_store w), se_refresh := Some fresh\<rparr>;
          st = (if refreshes name (ca_start c) (dm_mgr w) (dm_store w) then st' else dm_store w)
      in case handleSlotStart (ca_now c) (ca_fresh c) env name (ca_start c) (dm_mgr w, dm_disk w) of
           (r, m, fs) \<Rightarrow> (r, w\<lparr>dm_fleet := (dm_fleet w)\<lparr>fl_mgr := m\<rparr>, dm_disk := fs, dm_store := st\<rparr>))"

definition serve_unlock :: "call \<Rightarrow> serve_fn" where
  "serve_unlock c b w =
     (case handleDiscoveryUnlock (ca_lock_io c) (ca_now c) (PathValue b ''server_id'') (ca_force c) (dm_store w, dm_disk w) of
        ((r, _), st, fs) \<Rightarrow> (r, w\<lparr>dm_store := st, dm_disk := fs\<rparr>))"

definition serve_patch :: "call \<Rightarrow> serve_fn" where
  "serve_patch c b w =
     (case handleServerPropertiesPatch (ca_format c) (fst (ca_patch_io c)) (snd (ca_patch_io c)) (PathValue b ''name'')
             (ca_patch c) (dm_mgr w) (fs_props (dm_disk w)) of
        ((r, _), d) \<Rightarrow> (r, w\<lparr>dm_disk := (dm_disk w)\<lparr>fs_props := d\<rparr>\<rparr>))"

definition serve_backup :: "fixed \<Rightarrow> call \<Rightarrow> serve_fn" where
  "serve_backup x c b w =
     (case handleBackupCreate (fx_backups x) (ca_create_env c) (ca_werr c) (PathValue b ''name'') (ca_create c) (dm_mgr w)
             (dm_clients w, dm_blobs w) of
        (r, cs, bs) \<Rightarrow> (r, w\<lparr>dm_fleet := (dm_fleet w)\<lparr>fl_clients := cs\<rparr>, dm_blobs := bs\<rparr>))"

definition serve_update :: "fixed \<Rightarrow> call \<Rightarrow> serve_fn" where
  "serve_update x c b w =
     (case handleUpdateApply (fx_backups x) (ca_create_env c) (fx_updater x) (fx_sha x) (ca_install c) (dm_disk w)
             (PathValue b ''name'') (ca_apply c) (dm_mgr w) (dm_blobs w, dm_jars w) of
        (r, bs, js) \<Rightarrow> (r, w\<lparr>dm_blobs := bs, dm_jars := js\<rparr>))"

text \<open>A stream that is accepted is answered with 101, one that is not with \<open>refusal\<close>, by the WebSocket library.\<close>

definition stream_reply :: "response \<Rightarrow> 'f stream \<Rightarrow> reply" where
  "stream_reply refusal s = (case s of Refused r \<Rightarrow> r | NotUpgraded \<Rightarrow> [refusal] | Streamed _ _ \<Rightarrow> reply_ok 101)"

definition meta_handlers :: "fixed \<Rightarrow> call \<Rightarrow> (string \<times> serve_fn) list" where
  "meta_handlers x c =
     [(''handleHealthz'', reading (\<lambda>b w. handleHealthz)),
      (''handleReadyz'', reading (\<lambda>b w. handleReadyz (ca_ready c))),
      (''handleVersion'', reading (\<lambda>b w. fst (handleVersion (fx_build x)))),
      (''handleOpenAPI'', reading (\<lambda>b w. fst (handleOpenAPI (fx_build x)))),
      (''handleInstance'', reading (\<lambda>b w. fst (handleInstance (fx_build x) (fx_cfg x) (fx_started x) (ca_now c)))),
      (''handleMetrics'', reading (\<lambda>b w. fst (handleMetrics (ca_format c) (ca_metrics c)))),
      (''handleSystemTemperature'', reading (\<lambda>b w. fst (handleSystemTemperature (ca_temperature c)))),
      (''handleSystemResources'', reading (\<lambda>b w. fst (handleSystemResources (ca_floats c) (ca_host c) (dc_DataDir (fx_cfg x))))),
      (''handleAudit'', reading (\<lambda>b w. fst (handleAudit (ca_parse_time c) (fst (ca_audit c)) (snd (ca_audit c))))),
      (''handlePeersList'', reading (\<lambda>b w. fst (handlePeersList (dm_pool w)))),
      (''handlePeersRefresh'',
         \<lambda>b w. case handlePeersRefresh (ca_peer_text c) (ca_pings c) (dm_pool w) of ((r, _), p) \<Rightarrow> (r, w\<lparr>dm_pool := p\<rparr>)),
      (''handleFederationDiscovery'', reading (\<lambda>b w. reply_ok 200)),
      (''handleFederationSlots'', reading (\<lambda>b w. reply_ok 200))]"

definition slot_handlers :: "fixed \<Rightarrow> call \<Rightarrow> (string \<times> serve_fn) list" where
  "slot_handlers x c =
     [(''handleDiscovery'', reading (\<lambda>b w. fst (handleDiscovery (fst (ca_filters c)) (snd (ca_filters c)) (dm_store w)))),
      (''handleDiscoveryRefresh'',
         \<lambda>b w. case handleDiscoveryRefresh (dm_disk w) (ca_now c) (dm_store w) of ((r, _), st) \<Rightarrow> (r, w\<lparr>dm_store := st\<rparr>)),
      (''handleDiscoveryUnlock'', serve_unlock c),
      (''handleSlotsList'', reading (\<lambda>b w. reply_ok 200)),
      (''handleSlotGet'', reading (\<lambda>b w. handleSlotGet (PathValue b ''name'') (dm_mgr w))),
      (''handleSlotCompatible'',
         reading (\<lambda>b w. fst (handleSlotCompatible (dc_Slots (fx_cfg x)) (PathValue b ''name'') (dm_mgr w) (dm_store w)))),
      (''handleSlotStart'', serve_start c),
      (''handleSlotStop'',
         on_mgr (\<lambda>b m. case handleSlotStop (ca_parse_dur c) (ca_now c) (ca_fresh c) (PathValue b ''name'') (ca_stop c) m of (r, _, m') \<Rightarrow> (r, m'))),
      (''handleSlotRestart'',
         on_mgr (\<lambda>b m. case handleSlotRestart (ca_parse_dur c) (ca_now c) (ca_fresh c) (PathValue b ''name'') (ca_stop c) m of (r, _, m') \<Rightarrow> (r, m'))),
      (''handleSlotAbortStop'',
         on_mgr (\<lambda>b m. case handleSlotAbortStop (PathValue b ''name'') m of (r, _, m') \<Rightarrow> (r, m'))),
      (''handleServerLogs'',
         reading (\<lambda>b w. fst (handleServerLogs (ca_parse_time c) (ca_zone c) (PathValue b ''name'') (ca_logs c) (dm_mgr w) (ca_procs c)))),
      (''handleServerLogsStream'',
         reading (\<lambda>b w. stream_reply (ca_refusal c) (handleServerLogsStream (ca_log_stream c) (PathValue b ''name'') (ca_logs c) (dm_mgr w) (ca_tailers c)))),
      (''handleSlotEventsStream'',
         reading (\<lambda>b w. case ca_event_stream c of (accept, writes, shown, live) \<Rightarrow>
           stream_reply (ca_refusal c) (handleSlotEventsStream accept writes shown live (PathValue b ''name'') (dm_mgr w) (ca_buses c))))]"

definition server_handlers :: "call \<Rightarrow> (string \<times> serve_fn) list" where
  "server_handlers c =
     (let name = (\<lambda>b. PathValue b ''name''); player = (\<lambda>b. PathValue b ''player''); we = ca_werr c
      in [(''handleServerCommand'', on_fleet (\<lambda>b. handleServerCommand we (name b) (ca_text c))),
          (''handleServerSay'', on_fleet (\<lambda>b. handleServerSay we (name b) (ca_text c))),
          (''handleServerPlayers'', on_fleet (\<lambda>b fl. case handleServerPlayers we (name b) fl of ((r, _), fl') \<Rightarrow> (r, fl'))),
          (''handleServerKick'', on_fleet (\<lambda>b. handleServerKick we (name b) (player b) (ca_text c))),
          (''handleServerBan'', on_fleet (\<lambda>b. handleServerBan (ca_parse_dur c) (ca_now c) we (name b) (player b) (ca_ban c))),
          (''handleServerUnban'', on_fleet (\<lambda>b. handleServerUnban we (name b) (player b))),
          (''handleServerOp'', on_fleet (\<lambda>b. handleServerOp we (name b) (player b) (ca_level c))),
          (''handleServerDeop'', on_fleet (\<lambda>b. handleServerDeop we (name b) (player b))),
          (''handleWhitelistAdd'', on_fleet (\<lambda>b. handleWhitelistAdd we (name b) (player b))),
          (''handleWhitelistRemove'', on_fleet (\<lambda>b. handleWhitelistRemove we (name b) (player b))),
          (''handleWhitelistReload'', on_fleet (\<lambda>b. handleWhitelistReload we (name b)))])"

definition file_handlers :: "fixed \<Rightarrow> call \<Rightarrow> (string \<times> serve_fn) list" where
  "file_handlers x c =
     (let name = (\<lambda>b. PathValue b ''name''); bid = (\<lambda>b. PathValue b ''id'')
      in [(''handleWhitelistGet'',
             reading (\<lambda>b w. fst (handleWhitelistGet (ca_whitelist c) (ca_files c) (fs_props (dm_disk w)) (name b) (dm_mgr w)))),
          (''handleBanlistGet'', reading (\<lambda>b w. fst (handleBanlistGet (ca_players c) (ca_files c) (name b) (dm_mgr w)))),
          (''handleBanlistIPsGet'', reading (\<lambda>b w. fst (handleBanlistIPsGet (ca_ips c) (ca_files c) (name b) (dm_mgr w)))),
          (''handleServerPropertiesGet'',
             reading (\<lambda>b w. fst (handleServerPropertiesGet (name b) (dm_mgr w) (fs_props (dm_disk w))))),
          (''handleServerPropertiesPatch'', serve_patch c),
          (''handleUpdateCheck'',
             reading (\<lambda>b w. fst (handleUpdateCheck (fx_updater x) (dm_disk w) (name b) (ca_version c) (dm_mgr w)))),
          (''handleUpdateApply'', serve_update x c),
          (''handleBackupsList'',
             reading (\<lambda>b w. fst (handleBackupsList (fx_backups x) (ca_listing c) (name b) (dm_mgr w) (dm_blobs w)))),
          (''handleBackupCreate'', serve_backup x c),
          (''handleBackupGet'',
             reading (\<lambda>b w. fst (handleBackupGet (fx_backups x) (name b) (bid b) (dm_mgr w) (dm_blobs w)))),
          (''handleBackupRestore'',
             \<lambda>b w. case handleBackupRestore (fx_backups x) (ca_ctx c) (ca_zip c) (name b) (bid b) (dm_mgr w) (dm_world w) of
                      (r, h) \<Rightarrow> (r, w\<lparr>dm_world := h\<rparr>)),
          (''handleBackupDelete'',
             \<lambda>b w. case handleBackupDelete (fx_backups x) (ca_delete_io c) (name b) (bid b) (dm_mgr w) (dm_blobs w) of
                      (r, bs) \<Rightarrow> (r, w\<lparr>dm_blobs := bs\<rparr>))])"

definition handler_table :: "fixed \<Rightarrow> call \<Rightarrow> (string \<times> serve_fn) list" where
  "handler_table x c = meta_handlers x c @ slot_handlers x c @ server_handlers c @ file_handlers x c"

definition daemon_handlers :: "fixed \<Rightarrow> call \<Rightarrow> string \<Rightarrow> daemon handler" where
  "daemon_handlers x c h b rq w =
     (case map_of (handler_table x c) h of
        None \<Rightarrow> Responds (on_wire (notImplemented h)) w
      | Some f \<Rightarrow> (case f b w of (r, w') \<Rightarrow> Responds (on_wire r) w'))"

subsection \<open>What each handler may touch\<close>

lemma runCmd_frame [frame_simps]:
  "fl_mgr (snd (runCmd e s cmd w)) = fl_mgr w" "fl_later (snd (runCmd e s cmd w)) = fl_later w"
  by (simp_all add: runCmd_def split: prod.splits)

lemma after_cmd_frame:
  assumes "\<And>resp w'. p (snd (k resp w')) = p w'" and "p (snd (runCmd e s cmd w)) = p w"
  shows "p (snd (after_cmd e s cmd k w)) = p w"
  using assms by (cases "runCmd e s cmd w") (auto simp: after_cmd_def split: sum.splits)

lemma on_running_frame:
  "(\<And>s. p (snd (f s)) = p w) \<Longrightarrow> p (snd (on_running name f w)) = p w"
  by (simp add: on_running_def split: sum.splits)

lemmas fleet_handler_defs = handleServerCommand_def handleServerSay_def handleServerPlayers_def handleServerKick_def
  handleServerUnban_def handleServerOp_def handleServerDeop_def handleWhitelistAdd_def handleWhitelistRemove_def
  handleWhitelistReload_def one_cmd_def text_cmd_def

text \<open>The commands leave the slots alone, and all but a ban schedule nothing.\<close>

lemma fleet_frame:
  assumes p: "\<And>e s cmd w. p (snd (runCmd e s cmd w)) = p w"
  shows
  "p (snd (handleServerCommand we name t w)) = p w"
  "p (snd (handleServerSay we name t w)) = p w"
  "p (snd (handleServerPlayers we name w)) = p w"
  "p (snd (handleServerKick we name player t w)) = p w"
  "p (snd (handleServerUnban we name player w)) = p w"
  "p (snd (handleServerOp we name player lb w)) = p w"
  "p (snd (handleServerDeop we name player w)) = p w"
  "p (snd (handleWhitelistAdd we name player w)) = p w"
  "p (snd (handleWhitelistRemove we name player w)) = p w"
  "p (snd (handleWhitelistReload we name w)) = p w"
proof -
  have r: "p w' = p w" if "runCmd e s cmd w = (res, w')" for e s cmd w res w' using p [of e s cmd w] that by simp
  have a: "p w' = p w" if "after_cmd e s cmd (\<lambda>_ w'. (reply_ok 200, w')) w = (res, w')" for e s cmd w res w'
    using after_cmd_frame [of p "\<lambda>_ w'. (reply_ok 200, w')", OF _ p, of e s cmd w] that by simp
  show
  "p (snd (handleServerCommand we name t w)) = p w"
  "p (snd (handleServerSay we name t w)) = p w"
  "p (snd (handleServerPlayers we name w)) = p w"
  "p (snd (handleServerKick we name player t w)) = p w"
  "p (snd (handleServerUnban we name player w)) = p w"
  "p (snd (handleServerOp we name player lb w)) = p w"
  "p (snd (handleServerDeop we name player w)) = p w"
  "p (snd (handleWhitelistAdd we name player w)) = p w"
  "p (snd (handleWhitelistRemove we name player w)) = p w"
  "p (snd (handleWhitelistReload we name w)) = p w"
    by (auto simp: fleet_handler_defs Let_def p dest: r a intro!: on_running_frame after_cmd_frame split: sum.splits prod.splits)
qed

lemma ban_mgr: "fl_mgr (snd (handleServerBan pd now we name player bb w)) = fl_mgr w"
  by (auto simp: handleServerBan_def Let_def frame_simps intro!: on_running_frame after_cmd_frame split: sum.splits prod.splits)

lemmas fleet_mgr [frame_simps] = fleet_frame [of fl_mgr, OF runCmd_frame(1)] ban_mgr
lemmas fleet_later [frame_simps] = fleet_frame [of fl_later, OF runCmd_frame(2)]


lemma unlock_keeps: "handleDiscoveryUnlock io now sid force (st, fs) = ((r, act), st', fs') \<Longrightarrow> fs_props fs' = fs_props fs"
  by (auto simp: handleDiscoveryUnlock_def remove_lock_def Let_def split: prod.splits option.splits if_splits lock_state.splits)

text \<open>The handlers that may change a part of the state.\<close>

definition slot_changers :: "string list" where
  "slot_changers = [''handleSlotStart'', ''handleSlotStop'', ''handleSlotRestart'', ''handleSlotAbortStop'']"
definition lock_changers :: "string list" where
  "lock_changers = [''handleSlotStart'', ''handleDiscoveryUnlock'']"
definition props_changers :: "string list" where
  "props_changers = [''handleSlotStart'', ''handleServerPropertiesPatch'']"
definition file_changers :: "string list" where
  "file_changers = [''handleUpdateApply'', ''handleBackupCreate'', ''handleBackupRestore'', ''handleBackupDelete'']"
definition command_senders :: "string list" where
  "command_senders = map fst (server_handlers undefined) @ [''handleBackupCreate'']"
definition store_changers :: "string list" where
  "store_changers = [''handleSlotStart'', ''handleDiscoveryRefresh'', ''handleDiscoveryUnlock'']"

definition all_but :: "string list \<Rightarrow> (daemon \<Rightarrow> 'p) \<Rightarrow> (string \<times> serve_fn) list \<Rightarrow> bool" where
  "all_but hs p tbl \<longleftrightarrow> (\<forall>(h, f)\<in>set tbl. h \<in> set hs \<or> (\<forall>b w. p (snd (f b w)) = p w))"

lemma all_but_append [simp]: "all_but hs p (xs @ ys) \<longleftrightarrow> all_but hs p xs \<and> all_but hs p ys"
  by (simp add: all_but_def ball_Un)

lemma all_but_simps [simp]:
  "all_but hs p []" "all_but hs p ((h, f) # tbl) \<longleftrightarrow> (h \<in> set hs \<or> (\<forall>b w. p (snd (f b w)) = p w)) \<and> all_but hs p tbl"
  by (simp_all add: all_but_def)

lemmas table_defs = meta_handlers_def slot_handlers_def server_handlers_def file_handlers_def Let_def reading_def on_fleet_def on_mgr_def

lemmas kept_simps = handler_table_def table_defs case_prod_beta frame_simps
  serve_start_def serve_unlock_def serve_patch_def serve_update_def serve_backup_def

lemma slots_kept: "all_but slot_changers dm_mgr (handler_table x c)"
  by (auto simp: kept_simps slot_changers_def)

lemma unlock_props: "fs_props (snd (snd (handleDiscoveryUnlock io now sid force (st, fs)))) = fs_props fs"
  using unlock_keeps by (metis prod.collapse)

lemma locks_kept: "all_but lock_changers (\<lambda>w. fs_owners (dm_disk w)) (handler_table x c)"
  by (auto simp: kept_simps lock_changers_def)

lemma props_kept: "all_but props_changers (\<lambda>w. fs_props (dm_disk w)) (handler_table x c)"
  by (auto simp: kept_simps props_changers_def unlock_props)

lemma files_kept: "all_but file_changers (\<lambda>w. (dm_blobs w, dm_jars w, dm_world w)) (handler_table x c)"
  by (auto simp: kept_simps file_changers_def)

lemma later_kept: "all_but [''handleServerBan''] (\<lambda>w. fl_later (dm_fleet w)) (handler_table x c)"
  by (auto simp: kept_simps)

lemma clients_kept: "all_but command_senders dm_clients (handler_table x c)"
  by (auto simp: kept_simps command_senders_def)

lemma store_kept: "all_but store_changers dm_store (handler_table x c)"
  by (auto simp: kept_simps store_changers_def)

lemma pool_kept: "all_but [''handlePeersRefresh''] dm_pool (handler_table x c)"
  by (auto simp: kept_simps)


subsection \<open>What a token can do\<close>

text \<open>The handlers of a list stand behind scopes of a set.\<close>

definition guarded_by :: "string list \<Rightarrow> string list \<Rightarrow> bool" where
  "guarded_by scopes hs \<longleftrightarrow>
     list_all (\<lambda>r. ro_Handler r \<in> set hs \<longrightarrow> list_ex (\<lambda>s. ro_Scope r = Some s) scopes) fixed_routes"

lemma changers_guarded:
  "guarded_by [''slot:write''] slot_changers" "guarded_by [''slot:write'', ''discovery:write''] lock_changers"
  "guarded_by [''slot:write'', ''server:admin''] props_changers" "guarded_by [''server:admin''] file_changers"
  "guarded_by [''server:moderate''] [''handleServerBan'']"
  "guarded_by [''server:read'', ''server:command'', ''server:moderate'', ''server:admin''] command_senders"
  "guarded_by [''slot:write'', ''discovery:write''] store_changers" "guarded_by [''peer:read''] [''handlePeersRefresh'']"
  by code_simp+

lemma served_keeps:
  assumes "r \<in> set fixed_routes" and "ro_Scope r = Some scope" and "daemon_handlers x c (ro_Handler r) b rq w = Responds resp w'"
    and "all_but hs p (handler_table x c)" and "guarded_by scopes hs" and "scope \<notin> set scopes"
  shows "p w' = p w"
proof (cases "map_of (handler_table x c) (ro_Handler r)")
  case None
  then show ?thesis using assms(3) by (simp add: daemon_handlers_def)
next
  case (Some f)
  then have f: "(ro_Handler r, f) \<in> set (handler_table x c)" by (rule map_of_SomeD)
  have "ro_Handler r \<notin> set hs" using assms(1,2,5,6) by (auto simp: guarded_by_def list_all_iff list_ex_iff)
  then have "p (snd (f b w)) = p w" using assms(4) f by (auto simp: all_but_def)
  moreover have "w' = snd (f b w)" using assms(3) Some by (auto simp: daemon_handlers_def split: prod.splits)
  ultimately show ?thesis by simp
qed



definition list_request :: request where
  "list_request = \<lparr>rq_Method = ''GET'', rq_Path = [''api'', ''v1'', ''slots''], rq_Authorization = ''Bearer s3cret'',
     rq_Body = [], rq_TraceID = ''t''\<rparr>"

lemma demo_token_auth:
  assumes "NewAuthenticator [demo_token] = Inr a"
  shows "\<exists>t. Auth.authenticate pad_kdf a ''Bearer s3cret'' = Inr t \<and> ti_Scopes t = [''slot:read'']"
proof -
  have p: "parseArgon2id demo_line = Inr \<lparr>ah_m = 65536, ah_t = 3, ah_p = 2, ah_salt = ''NaCl'',
     ah_hash = pad_kdf ''s3cret'' ''NaCl'' 3 65536 2 32, ah_keyLen = 32\<rparr>"
    using parse_token_hash_line [OF demo_line] by (simp add: pad_kdf_def)
  have t: "TrimSpace ''s3cret'' = ''s3cret''" by (simp add: TrimSpace_def is_space_def)
  show ?thesis using assms by (auto simp: demo_token_def p Auth.authenticate_def Let_def IDKey_def t)
qed


end
