(* ===== verification/Startup.thy ===== *)
theory Startup
  imports Daemon Loops
begin

text \<open>
  Starting and stopping the daemon: \<open>internal/logging/logging.go\<close>, \<open>internal/api/server.go\<close> (\<open>New\<close>, \<open>Run\<close>,
  \<open>tlsConfig\<close>) and \<open>cmd/mcsm/main.go\<close>.  What the operating system does while it starts is the record
  \<open>boot_env\<close>; a server that serves ends in one of the ways of \<open>serve_end\<close>.
\<close>

subsection \<open>Logging\<close>

datatype log_level = LevelDebug | LevelInfo | LevelWarn | LevelError
datatype log_output = Stdout | Stderr | LogFile string
datatype log_format = JSONHandler | TextHandler
datatype setup_error = OpenLogFails go_error | UnknownLevel string | UnknownFormat string

definition parseLevel :: "string \<Rightarrow> setup_error + log_level" where
  "parseLevel s =
     (let l = ToLower s
      in if l = ''debug'' then Inr LevelDebug
         else if l = ''info'' \<or> l = [] then Inr LevelInfo
         else if l = ''warn'' \<or> l = ''warning'' then Inr LevelWarn
         else if l = ''error'' then Inr LevelError
         else Inl (UnknownLevel s))"

definition openOutput :: "(string \<Rightarrow> go_error option) \<Rightarrow> string \<Rightarrow> setup_error + log_output" where
  "openOutput open_file out =
     (if out = [] \<or> out = ''stdout'' then Inr Stdout
      else if out = ''stderr'' then Inr Stderr
      else case open_file out of Some e \<Rightarrow> Inl (OpenLogFails e) | None \<Rightarrow> Inr (LogFile out))"

definition Setup :: "(string \<Rightarrow> go_error option) \<Rightarrow> daemon_cfg \<Rightarrow> setup_error + log_level \<times> log_format \<times> log_output" where
  "Setup open_file c =
     (case openOutput open_file (dc_LogOutput c) of
        Inl e \<Rightarrow> Inl e
      | Inr w \<Rightarrow>
     (case parseLevel (dc_LogLevel c) of
        Inl e \<Rightarrow> Inl e
      | Inr level \<Rightarrow>
          if dc_LogFormat c = ''json'' then Inr (level, JSONHandler, w)
          else if dc_LogFormat c = ''text'' then Inr (level, TextHandler, w)
          else Inl (UnknownFormat (dc_LogFormat c))))"

text \<open>The levels are ordered as the integers of \<open>log/slog\<close>; a handler drops the records below its level.\<close>

definition slog_value :: "log_level \<Rightarrow> int" where
  "slog_value l = (case l of LevelDebug \<Rightarrow> - 4 | LevelInfo \<Rightarrow> 0 | LevelWarn \<Rightarrow> 4 | LevelError \<Rightarrow> 8)"

lemma slog_value_inject [simp]: "slog_value a = slog_value b \<longleftrightarrow> a = b"
  by (cases a; cases b) (simp_all add: slog_value_def)

instantiation log_level :: linorder
begin

definition less_eq_log_level :: "log_level \<Rightarrow> log_level \<Rightarrow> bool" where
  "less_eq_log_level a b \<longleftrightarrow> slog_value a \<le> slog_value b"

definition less_log_level :: "log_level \<Rightarrow> log_level \<Rightarrow> bool" where
  "less_log_level a b \<longleftrightarrow> slog_value a < slog_value b"

instance
proof
  fix a b :: log_level
  assume "a \<le> b" and "b \<le> a"
  thus "a = b" by (simp add: less_eq_log_level_def flip: slog_value_inject)
qed (auto simp: less_eq_log_level_def less_log_level_def)

end

definition handler_enabled :: "log_level \<times> log_format \<times> log_output \<Rightarrow> log_level \<Rightarrow> bool" where
  "handler_enabled h r \<longleftrightarrow> fst h \<le> r"

lemma errors_are_logged: "handler_enabled h LevelError"
  by (cases "fst h") (simp_all add: handler_enabled_def less_eq_log_level_def slog_value_def)

lemma handler_enabled_mono:
  assumes "handler_enabled h r" and "r \<le> r'"
  shows "handler_enabled h r'"
  using assms unfolding handler_enabled_def by (rule order_trans)

text \<open>The warnings of a subsystem that is disabled at startup are dropped exactly under the level \<open>error\<close>.\<close>

lemma warnings_are_dropped_iff:
  "handler_enabled h LevelWarn \<longleftrightarrow> fst h \<noteq> LevelError"
  by (cases "fst h") (simp_all add: handler_enabled_def less_eq_log_level_def slog_value_def)

subsection \<open>The server\<close>

text \<open>Which subsystems it is given.\<close>

record deps =
  dp_store :: store
  dp_slots :: manager
  dp_temp :: "rat temperature option"
  dp_audit :: "logger option"
  dp_metrics :: "rat registry option"
  dp_peers :: "pool option"
  dp_backups :: "string option"

record api_server =
  sv_cfg :: daemon_cfg
  sv_auth :: authenticator
  sv_deps :: deps
  sv_startedAt :: time
  sv_ready :: bool

definition NewServer :: "time \<Rightarrow> daemon_cfg \<Rightarrow> deps \<Rightarrow> argon_error + api_server" where
  "NewServer now c d =
     (case NewAuthenticator (dc_Tokens c) of
        Inl e \<Rightarrow> Inl e
      | Inr a \<Rightarrow> Inr \<lparr>sv_cfg = c, sv_auth = a, sv_deps = d, sv_startedAt = now, sv_ready = False\<rparr>)"

datatype tls_version = TLS12 | TLS13

record tls_settings =
  ts_Cert :: string
  ts_MinVersion :: tls_version
  ts_NextProtos :: "string list"

definition tlsConfig :: "(string \<Rightarrow> string \<Rightarrow> go_error + string) \<Rightarrow> tls_cfg option \<Rightarrow> go_error + tls_settings option" where
  "tlsConfig load_pair t =
     (case t of
        None \<Rightarrow> Inr None
      | Some t \<Rightarrow>
          (case load_pair (tls_CertFile t) (tls_KeyFile t) of
             Inl e \<Rightarrow> Inl e
           | Inr cert \<Rightarrow>
               Inr (Some \<lparr>ts_Cert = cert, ts_MinVersion = (if tls_MinVersion t = ''1.3'' then TLS13 else TLS12),
                          ts_NextProtos = [''h2'', ''http/1.1'']\<rparr>)))"

text \<open>
  How serving ends: \<open>Serve\<close> returns (with an error, unless the server was closed), or the context is canceled
  and \<open>Shutdown\<close> returns.
\<close>

datatype serve_end = ServeReturns "go_error option" | Canceled "go_error option"

datatype server_error = ListenFails go_error | TLSFails go_error | ServeFails go_error | ShutdownFails go_error

record run_env =
  re_listen :: "go_error option"
  re_load_pair :: "string \<Rightarrow> string \<Rightarrow> go_error + string"
  re_end :: serve_end

text \<open>The error, the values readiness takes, and whether connections are wrapped in TLS.\<close>

definition server_Run :: "run_env \<Rightarrow> api_server \<Rightarrow> server_error option \<times> bool list \<times> bool" where
  "server_Run v s =
     (case re_listen v of
        Some e \<Rightarrow> (Some (ListenFails e), [sv_ready s], False)
      | None \<Rightarrow>
     (case tlsConfig (re_load_pair v) (dc_TLS (sv_cfg s)) of
        Inl e \<Rightarrow> (Some (TLSFails e), [sv_ready s], False)
      | Inr tls \<Rightarrow>
          (case re_end v of
             ServeReturns e \<Rightarrow> (map_option ServeFails e, [sv_ready s, True], tls \<noteq> None)
           | Canceled e \<Rightarrow> (map_option ShutdownFails e, [sv_ready s, True, False], tls \<noteq> None))))"

subsection \<open>The daemon\<close>

definition tempAdapter_Snapshot :: "rat temperature \<Rightarrow> rat \<times> bool" where
  "tempAdapter_Snapshot t = (case tm_last t of None \<Rightarrow> (0, False) | Some s \<Rightarrow> (sm_Celsius s, True))"

text \<open>What the pool's observer sets.\<close>

definition peer_observer :: "string \<times> bool \<times> int \<Rightarrow> rat registry \<Rightarrow> rat registry" where
  "peer_observer x r =
     (case x of (name, reachable, rttMS) \<Rightarrow>
        if reachable
        then apply_call (GaugeSet ''mcsm_peer_rtt_seconds'' (of_int rttMS / 1000) [name])
               (apply_call (GaugeSet ''mcsm_peer_reachable'' 1 [name]) r)
        else apply_call (GaugeSet ''mcsm_peer_reachable'' 0 [name]) r)"

record boot_env =
  bo_print_version :: bool
  bo_load :: "load_error + daemon_cfg"
  bo_audit_enabled :: bool        \<comment> \<open>two switches of the configuration file\<close>
  bo_metrics_enabled :: bool
  bo_open_log :: "string \<Rightarrow> go_error option"
  bo_hostname :: string
  bo_now :: time
  bo_version :: string
  bo_sensor :: "string option"    \<comment> \<open>the contents of the sensor's file\<close>
  bo_milli :: "int \<Rightarrow> rat"
  bo_parse_float :: "string \<Rightarrow> rat option"
  bo_audit_io :: "go_error option"
  bo_audit_dec :: entry_dec
  bo_audit_month :: string
  bo_audit_files :: "audit_file list"
  bo_backup_io :: "go_error option"
  bo_run :: run_env
  bo_scanned :: bool              \<comment> \<open>the first scan and the first round of pings end before the process does\<close>
  bo_pinged :: bool

definition boot_temperature :: "boot_env \<Rightarrow> daemon_cfg \<Rightarrow> rat temperature option" where
  "boot_temperature v c =
     (case dc_TempSensor c of
        None \<Rightarrow> None
      | Some sensor \<Rightarrow>
          if sensor = [] then None
          else (case NewTemperature (bo_milli v) (bo_parse_float v) (bo_sensor v) (bo_now v) sensor (30 * second) 60 of
                  (succeeded, t) \<Rightarrow> if succeeded then t else None))"

definition boot_audit :: "boot_env \<Rightarrow> daemon_cfg \<Rightarrow> logger option" where
  "boot_audit v c =
     (if \<not> bo_audit_enabled v then None
      else case bo_audit_io v of
             Some _ \<Rightarrow> None
           | None \<Rightarrow> Some (NewLogger (bo_audit_dec v) (currentFile (bo_audit_month v)) (dc_Retention c) (bo_audit_files v)))"

definition boot_metrics :: "boot_env \<Rightarrow> daemon_cfg \<Rightarrow> rat registry option" where
  "boot_metrics v c =
     (if \<not> bo_metrics_enabled v then None
      else Some (apply_call (GaugeSet ''mcsm_instance_info'' 1 [dc_InstanceName c, bo_version v]) NewCollectors))"

definition boot_deps :: "boot_env \<Rightarrow> daemon_cfg \<Rightarrow> deps" where
  "boot_deps v c =
     \<lparr>dp_store = NewStore (dc_Roots c) (dc_InstanceName c),
      dp_slots = NewManager (bo_now v) (dc_Slots c) (dc_InstanceName c) (bo_hostname v),
      dp_temp = boot_temperature v c,
      dp_audit = boot_audit v c,
      dp_metrics = boot_metrics v c,
      dp_peers = (if dc_Peers c = [] then None else Some (NewPool (dc_PeerTimeout c) (dc_Peers c))),
      dp_backups = (case bo_backup_io v of Some _ \<Rightarrow> None | None \<Rightarrow> Some (path_Join [dc_DataDir c, ''backups'']))\<rparr>"

datatype run_error = ConfigFails load_error | LoggingFails setup_error | ApiFails argon_error | ServerFails server_error

definition daemon_run :: "boot_env \<Rightarrow> run_error option \<times> api_server option" where
  "daemon_run v =
     (if bo_print_version v then (None, None)
      else
     (case bo_load v of
        Inl e \<Rightarrow> (Some (ConfigFails e), None)
      | Inr c \<Rightarrow>
     (case Setup (bo_open_log v) c of
        Inl e \<Rightarrow> (Some (LoggingFails e), None)
      | Inr _ \<Rightarrow>
     (case NewServer (bo_now v) c (boot_deps v c) of
        Inl e \<Rightarrow> (Some (ApiFails e), None)
      | Inr s \<Rightarrow> (map_option ServerFails (fst (server_Run (bo_run v) s)), Some s)))))"

text \<open>
  The goroutines started on the way: the store's loop, and the pool's if there are peers.  Each makes its
  ticker after its first round, and a ticker with an interval that is not positive panics.  (The intervals
  of the sampler and the janitor are constants.)
\<close>

definition loop_panics :: "boot_env \<Rightarrow> bool" where
  "loop_panics v \<longleftrightarrow>
     (case bo_load v of
        Inl _ \<Rightarrow> False
      | Inr c \<Rightarrow>
          \<not> bo_print_version v \<and> \<not> isl (Setup (bo_open_log v) c)
          \<and> ((bo_scanned v \<and> ticker_panics (dc_ScanInterval c))
             \<or> (bo_pinged v \<and> dc_Peers c \<noteq> [] \<and> ticker_panics (dc_PingInterval c))))"

text \<open>The exit code of the process; a panic in a goroutine ends it with 2.\<close>

definition exit_code :: "boot_env \<Rightarrow> nat" where
  "exit_code v = (if loop_panics v then 2 else if fst (daemon_run v) = None then 0 else 1)"

subsection \<open>When the daemon refuses to start\<close>

lemma valid_levels:
  assumes "s \<in> {''debug'', ''info'', ''warn'', ''error''}"
  shows "\<exists>l. parseLevel s = Inr l"
proof -
  have "ToLower s = s" using assms by (auto simp: ToLower_def lower_char_def)
  then show ?thesis using assms by (auto simp: parseLevel_def Let_def)
qed

lemma valid_logging:
  assumes "Validate hp url c = []"
  shows "isl (Setup open_file c) = isl (openOutput open_file (dc_LogOutput c))"
proof -
  obtain l where "parseLevel (dc_LogLevel c) = Inr l" using valid_levels [of "dc_LogLevel c"] assms by (auto simp: Validate_def)
  moreover have "dc_LogFormat c = ''json'' \<or> dc_LogFormat c = ''text''" using assms by (simp add: Validate_def)
  ultimately show ?thesis by (auto simp: Setup_def split: sum.splits)
qed

lemma NewAuthenticator_total:
  "isl (NewAuthenticator ts) \<longleftrightarrow> (\<exists>t\<in>set ts. isl (parseArgon2id (tok_Hash t)))"
  by (induction ts) (auto split: sum.splits)

lemma server_Run_ok:
  "fst (server_Run v s) = None \<longleftrightarrow> re_listen v = None
     \<and> (\<forall>t. dc_TLS (sv_cfg s) = Some t \<longrightarrow> \<not> isl (re_load_pair v (tls_CertFile t) (tls_KeyFile t)))
     \<and> re_end v \<in> {ServeReturns None, Canceled None}"
  by (cases "re_end v") (auto simp: server_Run_def tlsConfig_def split: option.splits sum.splits)

lemma loaded_intervals:
  assumes "Load unmarshal hp url env path raw = Inr c"
  shows "ticker_panics (dc_ScanInterval c) \<longleftrightarrow> dc_ScanInterval c < 0"
    and "ticker_panics (dc_PingInterval c) \<longleftrightarrow> dc_PingInterval c < 0"
proof -
  obtain c0 where "c = applyDefaults c0" using assms by (auto simp: Load_def Let_def split: option.splits if_splits)
  then have "dc_ScanInterval c \<noteq> 0" "dc_PingInterval c \<noteq> 0" by (simp_all add: applyDefaults_def default_dur_def)
  then show "ticker_panics (dc_ScanInterval c) \<longleftrightarrow> dc_ScanInterval c < 0"
    and "ticker_panics (dc_PingInterval c) \<longleftrightarrow> dc_PingInterval c < 0" by (auto simp: ticker_panics_def)
qed

text \<open>
  C20: what keeps a daemon with a valid configuration from starting, and what does not.  It exits with 0 exactly
  if its log can be opened, every token's hash can be parsed, its address can be bound, the TLS key pair (if
  there is one) can be loaded, serving ends without an error, and neither the scan interval nor, with
  peers, the ping interval is negative once its loop gets to make its ticker.  A sensor that cannot be read, an audit
  directory or a backup directory that cannot be made, and every error of the logger's level or format are
  none of the reasons.
\<close>

theorem startup_succeeds_iff:
  assumes "bo_load v = Load unmarshal hp url env path raw" and "bo_load v = Inr c" and "\<not> bo_print_version v"
  shows "exit_code v = 0 \<longleftrightarrow>
     (dc_LogOutput c \<in> {[], ''stdout'', ''stderr''} \<or> bo_open_log v (dc_LogOutput c) = None)
     \<and> (\<forall>t\<in>set (dc_Tokens c). \<not> isl (parseArgon2id (tok_Hash t)))
     \<and> re_listen (bo_run v) = None
     \<and> (\<forall>t. dc_TLS c = Some t \<longrightarrow> \<not> isl (re_load_pair (bo_run v) (tls_CertFile t) (tls_KeyFile t)))
     \<and> re_end (bo_run v) \<in> {ServeReturns None, Canceled None}
     \<and> \<not> (bo_scanned v \<and> dc_ScanInterval c < 0) \<and> \<not> (bo_pinged v \<and> dc_Peers c \<noteq> [] \<and> dc_PingInterval c < 0)"
proof -
  note intervals = loaded_intervals [OF trans [OF assms(1) [symmetric] assms(2)]]
  have "Validate hp url c = []" using assms(1,2) by (auto simp: Load_def Let_def split: option.splits if_splits)
  note log = valid_logging [OF this, of "bo_open_log v"]
  have out: "isl (openOutput (bo_open_log v) (dc_LogOutput c)) \<longleftrightarrow>
      \<not> (dc_LogOutput c \<in> {[], ''stdout'', ''stderr''} \<or> bo_open_log v (dc_LogOutput c) = None)"
    by (auto simp: openOutput_def split: option.splits)
  show ?thesis
  proof (cases "Setup (bo_open_log v) c")
    case (Inl e)
    then show ?thesis using log out assms(2,3) by (simp add: exit_code_def daemon_run_def loop_panics_def)
  next
    case (Inr x)
    note logged = this
    show ?thesis
    proof (cases "NewAuthenticator (dc_Tokens c)")
      case (Inl e)
      then have "\<exists>t\<in>set (dc_Tokens c). isl (parseArgon2id (tok_Hash t))" by (simp flip: NewAuthenticator_total)
      then show ?thesis using logged Inl assms(2,3) by (auto simp: exit_code_def daemon_run_def NewServer_def)
    next
      case (Inr a)
      then have "\<forall>t\<in>set (dc_Tokens c). \<not> isl (parseArgon2id (tok_Hash t))"
        using NewAuthenticator_total [of "dc_Tokens c"] by auto
      then show ?thesis
        using logged Inr log out assms(2,3) intervals
        by (auto simp: exit_code_def daemon_run_def NewServer_def server_Run_ok loop_panics_def)
    qed
  qed
qed


definition booted_cfg :: daemon_cfg where
  "booted_cfg = (Config.demo_cfg [demo_slot ''a'' 25565])\<lparr>dc_Tokens := [demo_token]\<rparr>"

definition demo_boot :: boot_env where
  "demo_boot = \<lparr>bo_print_version = False, bo_load = Inr (applyDefaults booted_cfg), bo_audit_enabled = True,
     bo_metrics_enabled = True, bo_open_log = (\<lambda>_. Some ''denied''), bo_hostname = ''h'', bo_now = 0, bo_version = ''v'',
     bo_sensor = None, bo_milli = of_int, bo_parse_float = (\<lambda>_. None), bo_audit_io = Some ''denied'', bo_audit_dec = (\<lambda>_. None),
     bo_audit_month = ''2026-01'', bo_audit_files = [], bo_backup_io = Some ''denied'',
     bo_run = \<lparr>re_listen = None, re_load_pair = (\<lambda>_ _. Inl ''none''), re_end = Canceled None\<rparr>,
     bo_scanned = True, bo_pinged = True\<rparr>"

lemma booted_cfg_loads:
  "Load (\<lambda>_. Some booted_cfg) (\<lambda>_. True) (\<lambda>_. True) Map.empty (Some ''/c'') (Some []) = Inr (applyDefaults booted_cfg)"
proof -
  have "HasPrefix demo_line ''$argon2id$''"
    using demo_line unfolding token_hash_line_def map_option_eq_Some by (elim exE conjE) (erule subst, simp)
  then show ?thesis
    by (simp add: Load_def Let_def Validate_def applyDefaults_def booted_cfg_def Config.demo_cfg_def demo_slot_def demo_token_def
      check_slots_Nil check_tokens_Nil default_str_def err_if_def name_re_def keys_of_def)
qed

theorem startup_succeeds_iff_witness: "exit_code demo_boot = 0"
proof -
  have "\<exists>x. parseArgon2id demo_line = Inr x" using parse_token_hash_line [OF demo_line] by simp
  then show ?thesis
    using startup_succeeds_iff [OF trans [OF _ booted_cfg_loads [symmetric]], of demo_boot "applyDefaults booted_cfg"]
    by (auto simp: demo_boot_def booted_cfg_def Config.demo_cfg_def applyDefaults_def default_str_def default_dur_def demo_token_def)
qed

text \<open>A negative interval passes validation and ends the daemon when the loop of the store makes its ticker.\<close>

theorem negative_interval_crashes:
  assumes "Load unmarshal hp url env path raw = Inr c" and "dc_ScanInterval c < 0"
    and "bo_load v = Inr c" "\<not> bo_print_version v" "\<not> isl (Setup (bo_open_log v) c)" "bo_scanned v"
  shows "exit_code v = 2"
  using assms by (simp add: exit_code_def loop_panics_def ticker_panics_def)

theorem negative_interval_crashes_witness:
  "\<exists>c. Load (\<lambda>_. Some (booted_cfg\<lparr>dc_ScanInterval := - 1\<rparr>)) (\<lambda>_. True) (\<lambda>_. True) Map.empty (Some ''/c'') (Some []) = Inr c
     \<and> exit_code (demo_boot\<lparr>bo_load := Inr c\<rparr>) = 2"
proof -
  let ?c = "applyDefaults (booted_cfg\<lparr>dc_ScanInterval := - 1\<rparr>)"
  have "Validate (\<lambda>_. True) (\<lambda>_. True) ?c = Validate (\<lambda>_. True) (\<lambda>_. True) (applyDefaults booted_cfg)"
    by (simp add: Validate_def applyDefaults_def)
  then have l: "Load (\<lambda>_. Some (booted_cfg\<lparr>dc_ScanInterval := - 1\<rparr>)) (\<lambda>_. True) (\<lambda>_. True) Map.empty (Some ''/c'') (Some []) = Inr ?c"
    using booted_cfg_loads by (simp add: Load_def Let_def split: if_splits)
  have "dc_ScanInterval ?c < 0" by (simp add: applyDefaults_def default_dur_def)
  moreover have "\<not> isl (Setup (bo_open_log (demo_boot\<lparr>bo_load := Inr ?c\<rparr>)) ?c)"
    by (simp add: Setup_def openOutput_def parseLevel_def applyDefaults_def booted_cfg_def Config.demo_cfg_def default_str_def
        ToLower_def lower_char_def Let_def)
  ultimately show ?thesis
    using negative_interval_crashes [OF l, of "demo_boot\<lparr>bo_load := Inr ?c\<rparr>"] l by (auto simp: demo_boot_def)
qed

subsection \<open>The gauges of the peers\<close>

definition gauge :: "string \<Rightarrow> string \<Rightarrow> rat registry \<Rightarrow> rat option" where
  "gauge name peer r = Option.bind (map_of r name) (\<lambda>m. series_value m [peer])"

definition peer_registry :: "rat registry \<Rightarrow> bool" where
  "peer_registry r \<longleftrightarrow> (\<forall>n\<in>{''mcsm_peer_reachable'', ''mcsm_peer_rtt_seconds''}. \<exists>m. map_of r n = Some m \<and> m_labels m = [''peer_name''])"

lemma peer_registry_set: "peer_registry r \<Longrightarrow> peer_registry (apply_call (GaugeSet n v ls) r)"
  by (auto simp: peer_registry_def on_metric_def update_conv metric_set_def split: option.splits)

lemma gauge_set:
  assumes "map_of r n = Some m" and "m_labels m = [''peer_name'']"
  shows "gauge n' peer (apply_call (GaugeSet n v [p]) r) = (if n' = n \<and> peer = p then Some v else gauge n' peer r)"
  using assms
  by (simp add: gauge_def on_metric_def update_conv series_value_def metric_set_def labelKey_inject)

lemma gauge_observer:
  assumes "peer_registry r"
  shows "gauge ''mcsm_peer_reachable'' peer (peer_observer (name, up, ms) r) =
      (if peer = name then Some (if up then 1 else 0) else gauge ''mcsm_peer_reachable'' peer r)"
    and "gauge ''mcsm_peer_rtt_seconds'' peer (peer_observer (name, up, ms) r) =
      (if peer = name \<and> up then Some (of_int ms / 1000) else gauge ''mcsm_peer_rtt_seconds'' peer r)"
proof -
  obtain m1 m2 where m: "map_of r ''mcsm_peer_reachable'' = Some m1" "m_labels m1 = [''peer_name'']"
      "map_of r ''mcsm_peer_rtt_seconds'' = Some m2" "m_labels m2 = [''peer_name'']"
    using assms by (auto simp: peer_registry_def)
  have m2: "map_of (apply_call (GaugeSet ''mcsm_peer_reachable'' 1 [name]) r) ''mcsm_peer_rtt_seconds'' = Some m2"
    using m by (simp add: on_metric_def update_conv)
  note set1 = gauge_set [OF m(1,2)] and set2 = gauge_set [OF m2 m(4)]
  show "gauge ''mcsm_peer_reachable'' peer (peer_observer (name, up, ms) r) =
      (if peer = name then Some (if up then 1 else 0) else gauge ''mcsm_peer_reachable'' peer r)"
    by (simp add: peer_observer_def set1 set2 del: apply_call.simps)
  show "gauge ''mcsm_peer_rtt_seconds'' peer (peer_observer (name, up, ms) r) =
      (if peer = name \<and> up then Some (of_int ms / 1000) else gauge ''mcsm_peer_rtt_seconds'' peer r)"
    by (simp add: peer_observer_def set1 set2 del: apply_call.simps)
qed

lemma peer_registry_observer: "peer_registry r \<Longrightarrow> peer_registry (peer_observer x r)"
  by (cases x) (auto simp: peer_observer_def intro!: peer_registry_set simp del: apply_call.simps)

lemma peer_registry_observers: "peer_registry r \<Longrightarrow> peer_registry (fold peer_observer obs r)"
  by (induction obs arbitrary: r) (auto intro: peer_registry_observer)

definition observes :: "string \<Rightarrow> (string \<times> bool \<times> int) list \<Rightarrow> (bool \<times> int) list" where
  "observes peer obs = map snd (filter (\<lambda>x. fst x = peer) obs)"

text \<open>
  The gauges show the pings: after any sequence of observations \<open>mcsm_peer_reachable\<close> of a peer says whether
  its last ping succeeded, and \<open>mcsm_peer_rtt_seconds\<close> is the round trip of the last one that did, also when
  the peer has been gone since.
\<close>

theorem peer_gauges:
  assumes "peer_registry r"
  shows "gauge ''mcsm_peer_reachable'' peer (fold peer_observer obs r) =
      (if observes peer obs = [] then gauge ''mcsm_peer_reachable'' peer r
       else Some (if fst (last (observes peer obs)) then 1 else 0))
    \<and> gauge ''mcsm_peer_rtt_seconds'' peer (fold peer_observer obs r) =
      (let ok = filter fst (observes peer obs)
       in if ok = [] then gauge ''mcsm_peer_rtt_seconds'' peer r else Some (of_int (snd (last ok)) / 1000))"
proof (induction obs rule: rev_induct)
  case (snoc x obs)
  obtain name up ms where x: "x = (name, up, ms)" by (cases x)
  note g = gauge_observer [OF peer_registry_observers [OF assms, of obs], of peer name up ms]
  show ?case using snoc.IH by (simp add: x g observes_def Let_def)
qed (simp add: observes_def)

lemma collectors_peer_registry: "peer_registry (apply_call (GaugeSet ''mcsm_instance_info'' v ls) NewCollectors)"
  by (rule peer_registry_set)
    (simp add: peer_registry_def NewCollectors_def MustRegisterGauge_def MustRegisterCounter_def upsert_def)

theorem peer_gauges_witness:
  "gauge ''mcsm_peer_rtt_seconds'' ''b''
     (fold peer_observer [(''b'', True, 20), (''b'', False, 0)] (apply_call (GaugeSet ''mcsm_instance_info'' 1 [''i'', ''v'']) NewCollectors))
   = Some (1 / 50)"
  using peer_gauges [OF collectors_peer_registry, of "''b''" "[(''b'', True, 20), (''b'', False, 0)]" 1 "[''i'', ''v'']"]
  by (simp add: observes_def Let_def)

end
