(* ===== verification/AuditTrail.thy ===== *)
theory AuditTrail
  imports Router AuditLog
begin

text \<open>
  \<open>internal/api/audit_middleware.go\<close> around the router, and the order of the middleware of
  \<open>server.go\<close> (\<open>Run\<close>): the request identifier, the recoverer, the access log and the audit
  middleware, innermost.  The state is the daemon's and the audit log's, in memory and on disk.
\<close>

definition URL_Path :: "request \<Rightarrow> string" where
  "URL_Path rq = ''/'' @ Join (rq_Path rq) ''/''"

definition shouldAudit :: "string \<Rightarrow> string \<Rightarrow> bool" where
  "shouldAudit m path \<longleftrightarrow>
     (if m = ''GET'' \<or> m = ''HEAD'' \<or> m = ''OPTIONS'' then False
      else path \<noteq> ''/healthz'' \<and> path \<noteq> ''/readyz'')"

definition Trim_slash :: "string \<Rightarrow> string" where
  "Trim_slash s = TrimRight (TrimLeft s ''/'') ''/''"

definition classifyRoute :: "string \<Rightarrow> string \<Rightarrow> string" where
  "classifyRoute m path =
     (let parts0 = Split (Trim_slash path) CHR ''/'';
          parts = (if 2 \<le> length parts0 \<and> parts0 ! 0 = ''api'' then drop 2 parts0 else parts0);
          fallback = ToLower m @ ''.'' @ Join parts ''.''
      in if parts = [] then m @ ''.unknown''
         else if parts ! 0 = ''discovery'' then
           (if length parts = 1 then ''discovery.refresh''
            else if 3 \<le> length parts \<and> parts ! 2 = ''lock'' then ''discovery.unlock'' else fallback)
         else if parts ! 0 = ''slots'' then
           (if 3 \<le> length parts then
              (if 4 \<le> length parts \<and> parts ! 2 = ''server'' then ''server.'' @ Join (drop 3 parts) ''.''
               else ''slot.'' @ last parts)
            else fallback)
         else if parts ! 0 = ''peers'' then ''peers.'' @ Join (drop 1 parts) ''.''
         else fallback)"

definition extractSubject :: "(string \<times> string) list \<Rightarrow> (string \<times> string) list" where
  "extractSubject binds =
     filter (\<lambda>(k, v). v \<noteq> [])
       [(''slot'', PathValue binds ''name''), (''server_id'', PathValue binds ''server_id''),
        (''player'', PathValue binds ''player''), (''id'', PathValue binds ''id'')]"

text \<open>The name the authentication middleware leaves in the status recorder, and the path values.\<close>

definition recorded_token :: "kdf \<Rightarrow> authenticator \<Rightarrow> route list \<Rightarrow> request \<Rightarrow> string" where
  "recorded_token kdf a rs rq =
     (case dispatch rs rq of
        None \<Rightarrow> []
      | Some (r, _) \<Rightarrow>
          (case ro_Scope r of None \<Rightarrow> []
           | Some _ \<Rightarrow> (case authenticate kdf a (rq_Authorization rq) of Inl _ \<Rightarrow> [] | Inr t \<Rightarrow> ti_Name t)))"

definition path_values :: "route list \<Rightarrow> request \<Rightarrow> (string \<times> string) list" where
  "path_values rs rq = (case dispatch rs rq of None \<Rightarrow> [] | Some (_, b) \<Rightarrow> b)"

definition audit_entry :: "kdf \<Rightarrow> authenticator \<Rightarrow> route list \<Rightarrow> request \<Rightarrow> response \<Rightarrow> entry" where
  "audit_entry kdf a rs rq resp =
     \<lparr>ae_ID = 0, ae_At = 0,
      ae_Actor = (let n = recorded_token kdf a rs rq
                  in if n \<noteq> [] then \<lparr>act_Kind = ''token'', act_Name = n\<rparr>
                     else \<lparr>act_Kind = ''anonymous'', act_Name = []\<rparr>),
      ae_Kind = classifyRoute (rq_Method rq) (URL_Path rq),
      ae_Subject = extractSubject (path_values rs rq),
      ae_Result = (if 400 \<le> rs_Status resp then ''error'' else ''ok''),
      ae_Status = rs_Status resp, ae_TraceID = rq_TraceID rq\<rparr>"

record audit_env =
  av_enc :: entry_enc
  av_month :: string
  av_now :: time
  av_written :: "nat option"

definition auditMiddleware ::
  "kdf \<Rightarrow> authenticator \<Rightarrow> route list \<Rightarrow> (string \<Rightarrow> 'w handler) \<Rightarrow> audit_env \<Rightarrow> request \<Rightarrow>
   'w \<times> logger \<times> audit_file list \<Rightarrow> ('w \<times> logger \<times> audit_file list) outcome" where
  "auditMiddleware kdf a rs handlers v rq s =
     (case s of (w, log) \<Rightarrow>
        (case serve_mux kdf a rs handlers rq w of
           Panics w' \<Rightarrow> Panics (w', log)
         | Responds resp w' \<Rightarrow>
             if \<not> shouldAudit (rq_Method rq) (URL_Path rq) then Responds resp (w', log)
             else Responds resp (w', snd (Append (av_enc v) (currentFile (av_month v)) (av_now v) (av_written v)
                                           (audit_entry kdf a rs rq resp) log))))"

definition serve ::
  "kdf \<Rightarrow> authenticator \<Rightarrow> route list \<Rightarrow> (string \<Rightarrow> 'w handler) \<Rightarrow> audit_env \<Rightarrow> request \<Rightarrow>
   'w \<times> logger \<times> audit_file list \<Rightarrow> response \<times> 'w \<times> logger \<times> audit_file list" where
  "serve kdf a rs handlers v rq s = recoverer (auditMiddleware kdf a rs handlers v rq s)"

subsection \<open>What is recorded\<close>


definition demo_env :: audit_env where
  "demo_env = \<lparr>av_enc = demo_enc, av_month = ''2026-01'', av_now = 77, av_written = None\<rparr>"

lemma demo_logger_ok: "ring_ok demo_logger"
  by (simp add: ring_ok_def demo_logger_def)


subsection \<open>Kinds\<close>

lemma Trim_slash_plain: "p \<noteq> [] \<Longrightarrow> last p \<noteq> CHR ''/'' \<Longrightarrow> hd p \<noteq> CHR ''/'' \<Longrightarrow> Trim_slash (CHR ''/'' # p) = p"
proof -
  assume p: "p \<noteq> []" "last p \<noteq> CHR ''/''" "hd p \<noteq> CHR ''/''"
  then have "TrimLeft (CHR ''/'' # p) ''/'' = p" by (cases p) (simp_all add: TrimLeft_def)
  moreover have "dropWhile (\<lambda>c. c \<in> set ''/'') (rev p) = rev p"
    using p by (cases "rev p") (auto simp: last_rev [symmetric] hd_rev)
  ultimately show ?thesis by (simp add: Trim_slash_def TrimRight_def)
qed

definition plain_seg :: "string \<Rightarrow> bool" where
  "plain_seg s \<longleftrightarrow> s \<noteq> [] \<and> CHR ''/'' \<notin> set s"

text \<open>
  The kind of an entry: an operation on a slot is \<open>slot.\<close> and its verb whatever the slot's name,
  but an operation on a player carries the player's name, and a refresh of the discovery is
  recorded as \<open>post.discovery.refresh\<close> and not as the \<open>discovery.refresh\<close> the code provides for.
\<close>

theorem audit_kinds:
  assumes "plain_seg slot" "plain_seg verb" "plain_seg player"
  shows "classifyRoute ''POST'' (''/api/v1/slots/'' @ slot @ ''/'' @ verb) = ''slot.'' @ verb
       \<and> classifyRoute ''POST'' (''/api/v1/slots/'' @ slot @ ''/server/players/'' @ player @ ''/kick'')
           = ''server.players.'' @ player @ ''.kick''
       \<and> classifyRoute ''POST'' ''/api/v1/discovery/refresh'' = ''post.discovery.refresh''"
proof -
  have sp: "Split (Join ws ''/'') CHR ''/'' = ws" if "ws \<noteq> []" "\<forall>w\<in>set ws. CHR ''/'' \<notin> set w" for ws
    using that by (rule Split_Join)
  have "verb \<noteq> []" "last verb \<in> set verb" using assms(2) by (simp_all add: plain_seg_def)
  then have v: "last verb \<noteq> CHR ''/''" "verb \<noteq> []" using assms(2) by (metis plain_seg_def)+
  have "Trim_slash (''/api/v1/slots/'' @ slot @ ''/'' @ verb) = Join [''api'', ''v1'', ''slots'', slot, verb] ''/''"
    using v Trim_slash_plain [of "''api/v1/slots/'' @ slot @ ''/'' @ verb"] by simp
  then have 1: "Split (Trim_slash (''/api/v1/slots/'' @ slot @ ''/'' @ verb)) CHR ''/''
      = [''api'', ''v1'', ''slots'', slot, verb]"
    using assms by (simp only:, intro sp) (auto simp: plain_seg_def)
  have "Trim_slash (''/api/v1/slots/'' @ slot @ ''/server/players/'' @ player @ ''/kick'')
      = Join [''api'', ''v1'', ''slots'', slot, ''server'', ''players'', player, ''kick''] ''/''"
    using Trim_slash_plain [of "''api/v1/slots/'' @ slot @ ''/server/players/'' @ player @ ''/kick''"] by simp
  then have 2: "Split (Trim_slash (''/api/v1/slots/'' @ slot @ ''/server/players/'' @ player @ ''/kick'')) CHR ''/''
      = [''api'', ''v1'', ''slots'', slot, ''server'', ''players'', player, ''kick'']"
    using assms by (simp only:, intro sp) (auto simp: plain_seg_def)
  have 3: "classifyRoute ''POST'' ''/api/v1/discovery/refresh'' = ''post.discovery.refresh''" by code_simp
  have "classifyRoute ''POST'' (''/api/v1/slots/'' @ slot @ ''/'' @ verb) = ''slot.'' @ verb"
    unfolding classifyRoute_def Let_def 1 by simp
  moreover have "classifyRoute ''POST'' (''/api/v1/slots/'' @ slot @ ''/server/players/'' @ player @ ''/kick'')
      = ''server.players.'' @ player @ ''.kick''"
    unfolding classifyRoute_def Let_def 2 by simp
  ultimately show ?thesis using 3 by simp
qed

theorem audit_kinds_witness:
  "classifyRoute ''POST'' (''/api/v1/slots/'' @ ''creative'' @ ''/server/players/'' @ ''Steve'' @ ''/kick'')
     = ''server.players.Steve.kick''"
  using audit_kinds [of "''creative''" "''start''" "''Steve''"] by (simp add: plain_seg_def)

end
