(* ===== verification/Middleware.thy ===== *)
theory Middleware
  imports AuditTrail ServerApi
begin

text \<open>
  \<open>internal/api/middleware.go\<close>: the recorder that remembers a response's status on its way out, the chain of
  the middleware, the trace identifier and the access log.  The writer of \<open>net/http\<close> under it sends the
  first status it is given and ignores later ones.
\<close>

subsection \<open>Writers\<close>

record http_writer =
  hw_status :: "int option"
  hw_body :: string

text \<open>\<open>fails\<close> is the number of bytes that get through when a write fails.\<close>

definition hw_WriteHeader :: "int \<Rightarrow> http_writer \<Rightarrow> http_writer" where
  "hw_WriteHeader code w = (if hw_status w = None then w\<lparr>hw_status := Some code\<rparr> else w)"

definition hw_Write :: "nat option \<Rightarrow> string \<Rightarrow> http_writer \<Rightarrow> nat \<times> http_writer" where
  "hw_Write fails b w =
     (let n = (case fails of None \<Rightarrow> length b | Some k \<Rightarrow> min k (length b));
          w = (if hw_status w = None then w\<lparr>hw_status := Some 200\<rparr> else w)
      in (n, w\<lparr>hw_body := hw_body w @ take n b\<rparr>))"

record recorder =
  rec_writer :: http_writer
  rec_status :: int
  rec_bytes :: nat
  rec_tokenName :: string

definition new_recorder :: "http_writer \<Rightarrow> recorder" where
  "new_recorder w = \<lparr>rec_writer = w, rec_status = 0, rec_bytes = 0, rec_tokenName = []\<rparr>"

definition SetTokenName :: "string \<Rightarrow> recorder \<Rightarrow> recorder" where
  "SetTokenName n r = r\<lparr>rec_tokenName := n\<rparr>"

definition rec_WriteHeader :: "int \<Rightarrow> recorder \<Rightarrow> recorder" where
  "rec_WriteHeader code r = r\<lparr>rec_status := code, rec_writer := hw_WriteHeader code (rec_writer r)\<rparr>"

definition rec_Write :: "nat option \<Rightarrow> string \<Rightarrow> recorder \<Rightarrow> recorder" where
  "rec_Write fails b r =
     (let status = (if rec_status r = 0 then 200 else rec_status r)
      in case hw_Write fails b (rec_writer r) of
           (n, w) \<Rightarrow> r\<lparr>rec_status := status, rec_writer := w, rec_bytes := rec_bytes r + n\<rparr>)"

text \<open>Only a writer that can be hijacked is; the message is the error.\<close>

definition rec_Hijack :: "'c option \<Rightarrow> go_error + 'c" where
  "rec_Hijack hijack = (case hijack of Some c \<Rightarrow> Inr c | None \<Rightarrow> Inl ''underlying writer does not support hijacking'')"

subsection \<open>The chain\<close>

fun chain_back :: "('h \<Rightarrow> 'h) list \<Rightarrow> nat \<Rightarrow> 'h \<Rightarrow> 'h" where
  "chain_back mws 0 h = h"
| "chain_back mws (Suc i) h = chain_back mws i ((mws ! i) h)"

definition chain :: "('h \<Rightarrow> 'h) list \<Rightarrow> 'h \<Rightarrow> 'h" where
  "chain mws h = chain_back mws (length mws) h"

lemma chain_back_foldr: "i \<le> length mws \<Longrightarrow> chain_back mws i h = foldr (\<lambda>m. m) (take i mws) h"
  by (induction i arbitrary: h) (simp_all add: take_Suc_conv_app_nth)

lemma chain_foldr: "chain mws h = foldr (\<lambda>m. m) mws h"
  by (simp add: chain_def chain_back_foldr)

subsection \<open>Identifiers and the access log\<close>

definition trace_id :: "string \<Rightarrow> string \<Rightarrow> string" where
  "trace_id header fresh = (if header = [] then fresh else header)"

definition clientIP :: "string \<Rightarrow> string \<Rightarrow> string" where
  "clientIP forwarded remote = (if forwarded \<noteq> [] then forwarded else remote)"

record access_line =
  al_method :: string
  al_path :: string
  al_status :: int
  al_bytes :: nat
  al_remote :: string
  al_trace :: string

text \<open>
  The access log writes its line after the handler; a panic passes through it, and no line is written.
  \<open>serve\<close> is the rest of the chain on the recorder.
\<close>

datatype 'a passes = Returns 'a | Unwinds 'a

definition accessLog :: "request \<Rightarrow> string \<Rightarrow> (recorder \<Rightarrow> recorder passes) \<Rightarrow> http_writer \<Rightarrow> http_writer passes \<times> access_line list" where
  "accessLog rq remote next_handler w =
     (case next_handler (new_recorder w) of
        Unwinds r \<Rightarrow> (Unwinds (rec_writer r), [])
      | Returns r \<Rightarrow>
          (Returns (rec_writer r),
           [\<lparr>al_method = rq_Method rq, al_path = URL_Path rq, al_status = rec_status r, al_bytes = rec_bytes r,
             al_remote = remote, al_trace = rq_TraceID rq\<rparr>]))"

subsection \<open>What is sent and what is recorded\<close>

text \<open>One response as \<open>WriteError\<close> and \<open>WriteJSON\<close> write it: the status and then the body.\<close>

definition put_response :: "response \<times> string \<Rightarrow> recorder \<Rightarrow> recorder" where
  "put_response x r = rec_Write None (snd x) (rec_WriteHeader (rs_Status (fst x)) r)"

lemma put_response_view:
  assumes "rs_Status (fst x) \<noteq> 0"
  shows "rec_status (put_response x r) = rs_Status (fst x)"
    and "hw_status (rec_writer (put_response x r)) = Some (case hw_status (rec_writer r) of None \<Rightarrow> rs_Status (fst x) | Some s \<Rightarrow> s)"
    and "rec_bytes (put_response x r) = rec_bytes r + length (snd x)"
    and "hw_body (rec_writer (put_response x r)) = hw_body (rec_writer r) @ snd x"
    and "rec_tokenName (put_response x r) = rec_tokenName r"
  using assms by (auto simp: put_response_def rec_Write_def rec_WriteHeader_def hw_Write_def hw_WriteHeader_def Let_def
      split: prod.splits option.splits)

text \<open>
  C38: a reply is a list of responses because a handler may write more than one.  The client gets the status of
  the first one and the bodies of all of them; the access log and the audit log record the status
  of the last one, and the bytes of all.
\<close>

theorem recorded_and_sent:
  assumes "rs \<noteq> []" and "\<forall>x\<in>set rs. rs_Status (fst x) \<noteq> 0" and "w = \<lparr>hw_status = None, hw_body = []\<rparr>"
  shows "let r = fold put_response rs (new_recorder w); reply = map fst rs
    in hw_status (rec_writer r) = Some (rs_Status (on_wire reply)) \<and> rec_status r = rs_Status (recorded reply)
       \<and> hw_body (rec_writer r) = concat (map snd rs) \<and> rec_bytes r = length (concat (map snd rs))"
  using assms(1,2)
proof (induction rs rule: rev_nonempty_induct)
  case (single x)
  then show ?case
    by (simp add: put_response_view on_wire_def recorded_def) (simp add: new_recorder_def assms(3))
next
  case (snoc x rs)
  then show ?case by (simp add: put_response_view on_wire_def recorded_def Let_def hd_append)
qed

definition double_reply :: "(response \<times> string) list" where
  "double_reply = [(Router.WriteError 400 ''bad_request'', ''bad''), (ok_response 200, ''ok'')]"

theorem recorded_and_sent_witness:
  "let r = fold put_response double_reply (new_recorder \<lparr>hw_status = None, hw_body = []\<rparr>)
   in hw_status (rec_writer r) = Some 400 \<and> rec_status r = 200 \<and> hw_body (rec_writer r) = ''badok''"
proof -
  have "double_reply \<noteq> []" "\<forall>x\<in>set double_reply. rs_Status (fst x) \<noteq> 0"
    by (simp_all add: double_reply_def Router.WriteError_def ok_response_def)
  from recorded_and_sent [OF this refl] show ?thesis
    by (simp add: Let_def double_reply_def on_wire_def recorded_def Router.WriteError_def ok_response_def)
qed

text \<open>
  The chain of \<open>Run\<close>: a request whose handler panics is answered by the recoverer, outside the access log,
  which writes no line for it.
\<close>

lemma panics_leave_no_line: "accessLog rq remote (\<lambda>r. Unwinds (f r)) w = (Unwinds (rec_writer (f (new_recorder w))), [])"
  by (simp add: accessLog_def)

end
