(* ===== verification/Discord.thy ===== *)
theory Discord
  imports ReadApi "HOL-Library.Multiset"
begin

text \<open>
  The Discord bot of a slot: \<open>internal/discord/bot.go\<close> and \<open>internal/slot/discord_adapter.go\<close>.  The
  gateway is a parameter: whether a session opens, what a channel lookup returns.  Messages are the
  bytes that are sent; their emoji are written as \<open>UTF-8\<close>.
\<close>

subsection \<open>The bot\<close>

record bot =
  bt_sess :: nat
  bt_channels :: "string list"
  bt_closed :: bool

text \<open>
  \<open>Connect\<close>: no bot without a token.  \<open>new\<close> and \<open>open\<close> are what creating and opening the session
  return; a session that opened is numbered.
\<close>

definition Connect :: "(go_error + unit) \<Rightarrow> (go_error + nat) \<Rightarrow> string \<Rightarrow> string list \<Rightarrow> go_error + bot option" where
  "Connect made opened token channels =
     (if token = [] then Inr None
      else case made of Inl e \<Rightarrow> Inl e
           | Inr _ \<Rightarrow> (case opened of Inl e \<Rightarrow> Inl e
                       | Inr s \<Rightarrow> Inr (Some \<lparr>bt_sess = s, bt_channels = channels, bt_closed = False\<rparr>)))"

definition slash_commands :: "string list" where
  "slash_commands = [''list'', ''version'', ''temp'', ''banlist'', ''server'']"

text \<open>
  The commands that are created, guild by guild; a channel that cannot be looked up is skipped, and a
  guild is served once.  Go visits the guilds in no particular order, here in that of their channels.
\<close>

definition registerCommands :: "(string \<Rightarrow> string option) \<Rightarrow> bot \<Rightarrow> (string \<times> string) list" where
  "registerCommands guild b =
     List.product (rev (remdups (rev (List.map_filter guild (bt_channels b))))) slash_commands"

text \<open>Closing twice is closing once; a closed bot sends nothing.  The result says whether the session is closed.\<close>

definition bot_Close :: "bot \<Rightarrow> bot \<times> bool" where
  "bot_Close b = (if bt_closed b then (b, False) else (b\<lparr>bt_closed := True\<rparr>, True))"

definition bot_Notify :: "string \<Rightarrow> bot \<Rightarrow> (string \<times> string) list" where
  "bot_Notify msg b = (if bt_closed b then [] else map (\<lambda>ch. (ch, msg)) (bt_channels b))"

definition channelAllowed :: "bot \<Rightarrow> string \<Rightarrow> bool" where
  "channelAllowed b ch \<longleftrightarrow> list_ex (\<lambda>c. c = ch) (bt_channels b)"

subsection \<open>Commands\<close>

text \<open>What the provider answers; the error is its text.\<close>

record 'f provider =
  pv_ServerName :: string
  pv_PublicAddress :: string
  pv_Players :: "go_error + string list \<times> int"
  pv_Version :: "go_error + string"
  pv_Temperature :: "'f option"
  pv_Banlist :: "go_error + string list"

definition degree :: string where "degree = [CHR 0xC2, CHR 0xB0]"
definition bullet :: string where "bullet = [CHR 0xE2, CHR 0x80, CHR 0xA2, CHR '' '']"

definition list_text :: "go_error + string list \<times> int \<Rightarrow> string" where
  "list_text r =
     (case r of
        Inl e \<Rightarrow> ''Couldn'' @ [CHR 0x27] @ ''t fetch player list: '' @ e
      | Inr (names, most) \<Rightarrow>
          if names = [] then ''0/'' @ Itoa most @ '' players online.''
          else Itoa (int (length names)) @ ''/'' @ Itoa most @ '' online: '' @ Join names '', '')"

definition banlist_text :: "go_error + string list \<Rightarrow> string" where
  "banlist_text r =
     (case r of
        Inl e \<Rightarrow> ''Couldn'' @ [CHR 0x27] @ ''t fetch banlist: '' @ e
      | Inr bans \<Rightarrow>
          if bans = [] then ''No banned players.''
          else ''Banned players ('' @ Itoa (int (length bans)) @ ''):'' @ [nl] @ bullet @ Join bans ([nl] @ bullet))"

text \<open>
  The reply to an interaction, and whether only its sender sees it.  \<open>fmt1\<close> renders a number with one
  decimal.
\<close>

definition handleInteraction :: "('f \<Rightarrow> string) \<Rightarrow> bot \<Rightarrow> 'f provider \<Rightarrow> bool \<Rightarrow> string \<Rightarrow> string \<Rightarrow> (string \<times> bool) option" where
  "handleInteraction fmt1 b p is_command ch cmd =
     (if \<not> is_command then None
      else if \<not> channelAllowed b ch then Some (''This bot isn'' @ [CHR 0x27] @ ''t linked to this channel.'', True)
      else if cmd = ''list'' then Some (list_text (pv_Players p), False)
      else if cmd = ''version'' then
        Some ((case pv_Version p of Inl e \<Rightarrow> ''Version unknown: '' @ e | Inr v \<Rightarrow> ''Server version: '' @ v), False)
      else if cmd = ''temp'' then
        Some ((case pv_Temperature p of None \<Rightarrow> ''Temperature monitoring is not enabled.''
               | Some c \<Rightarrow> ''CPU temperature: '' @ fmt1 c @ degree @ ''C''), False)
      else if cmd = ''banlist'' then Some (banlist_text (pv_Banlist p), False)
      else if cmd = ''server'' then
        Some (''Connect at `'' @ pv_PublicAddress p @ ''` (server: '' @ pv_ServerName p @ '')'', False)
      else Some (''Unknown command.'', True))"

subsection \<open>The adapter of a slot\<close>

definition adapter_ServerName :: "slot \<Rightarrow> string" where
  "adapter_ServerName s = (case MountedServer s of None \<Rightarrow> ''<unmounted>'' | Some srv \<Rightarrow> srv_Name srv)"

definition adapter_PublicAddress :: "slot_cfg \<Rightarrow> string" where
  "adapter_PublicAddress c =
     (if sc_PublicAddress c \<noteq> [] then sc_PublicAddress c else ''localhost'') @ '':'' @ Itoa (sc_Port c)"

text \<open>\<open>probe\<close> is what a status probe of the slot's port gives; a failed \<open>list\<close> leaves no names.\<close>

definition adapter_Players ::
  "go_error option \<Rightarrow> go_error + status \<Rightarrow> slot \<Rightarrow> fleet \<Rightarrow> (go_error + string list \<times> int) \<times> fleet" where
  "adapter_Players werr probe s w =
     (case probe of
        Inl e \<Rightarrow> (Inl e, w)
      | Inr st \<Rightarrow>
         (case runCmd werr s ''list'' w of
            (Inl _, w') \<Rightarrow> (Inr ([], pl_max (st_players st)), w')
          | (Inr resp, w') \<Rightarrow> (Inr (listed_players resp, pl_max (st_players st)), w')))"

definition adapter_Version :: "go_error + status \<Rightarrow> go_error + string" where
  "adapter_Version probe = (case probe of Inl e \<Rightarrow> Inl e | Inr st \<Rightarrow> Inr (st_version st))"

definition adapter_Banlist :: "(string \<Rightarrow> string list option) \<Rightarrow> (string \<Rightarrow> file_read) \<Rightarrow> slot \<Rightarrow> go_error + string list" where
  "adapter_Banlist decode files s =
     (case MountedServer s of
        None \<Rightarrow> Inr []
      | Some srv \<Rightarrow>
          (case files (path_Join [srv_Path srv, ''banned-players.json'']) of
             FileMissing \<Rightarrow> Inr []
           | FileFails e \<Rightarrow> Inl e
           | FileBytes b \<Rightarrow> (case decode b of None \<Rightarrow> Inl ''json'' | Some ns \<Rightarrow> Inr (filter (\<lambda>n. n \<noteq> []) ns))))"

text \<open>\<open>source\<close>: the temperature source that was attached to the slot, with what it answers.\<close>

definition adapter_Temperature :: "('f \<times> bool) option \<Rightarrow> 'f option" where
  "adapter_Temperature source = (case source of None \<Rightarrow> None | Some (c, ok) \<Rightarrow> if ok then Some c else None)"

definition notifyDiscord :: "bot option \<Rightarrow> string \<Rightarrow> (string \<times> string) list" where
  "notifyDiscord b msg = (case b of None \<Rightarrow> [] | Some b \<Rightarrow> bot_Notify msg b)"

text \<open>The adapter as the provider of the slot's bot.\<close>

definition discordAdapter ::
  "go_error option \<Rightarrow> go_error + status \<Rightarrow> ('f \<times> bool) option \<Rightarrow> (string \<Rightarrow> string list option) \<Rightarrow> (string \<Rightarrow> file_read) \<Rightarrow>
   slot \<Rightarrow> fleet \<Rightarrow> 'f provider" where
  "discordAdapter werr probe source decode files s w =
     \<lparr>pv_ServerName = adapter_ServerName s, pv_PublicAddress = adapter_PublicAddress (s_cfg s),
      pv_Players = fst (adapter_Players werr probe s w), pv_Version = adapter_Version probe,
      pv_Temperature = adapter_Temperature source, pv_Banlist = adapter_Banlist decode files s\<rparr>"

text \<open>Every command to the bot of a slot whose server cannot be reached is answered, without a crash or an invention.\<close>

theorem unreachable_server_is_reported:
  assumes "MountedServer s = None" and "probe = Inl e" and "ch \<in> set (bt_channels b)"
  shows "map (\<lambda>cmd. map_option fst (handleInteraction fmt1 b (discordAdapter werr probe None decode files s w) True ch cmd)) slash_commands
     = [Some (''Couldn'' @ [CHR 0x27] @ ''t fetch player list: '' @ e), Some (''Version unknown: '' @ e),
        Some ''Temperature monitoring is not enabled.'', Some ''No banned players.'',
        Some (''Connect at `'' @ adapter_PublicAddress (s_cfg s) @ ''` (server: <unmounted>)'')]"
  using assms
  by (simp add: handleInteraction_def channelAllowed_def list_ex_iff slash_commands_def discordAdapter_def adapter_ServerName_def
      adapter_Players_def adapter_Version_def adapter_Temperature_def adapter_Banlist_def list_text_def banlist_text_def)

theorem unreachable_server_is_reported_witness:
  "map (\<lambda>cmd. map_option fst (handleInteraction Itoa (\<lparr>bt_sess = 1, bt_channels = [''c1''], bt_closed = False\<rparr>)
      (discordAdapter None (Inl ''refused'') None (\<lambda>_. None) (\<lambda>_. FileMissing) free_slot w) True ''c1'' cmd)) [''banlist'']
     = [Some ''No banned players.'']"
proof -
  have "MountedServer free_slot = None" by (simp add: MountedServer_def free_slot_def NewSlot_def)
  from unreachable_server_is_reported [OF this refl, of "''c1''" "\<lparr>bt_sess = 1, bt_channels = [''c1''], bt_closed = False\<rparr>" Itoa None
      "''refused''" "\<lambda>_. None" "\<lambda>_. FileMissing" w]
  show ?thesis by (simp add: slash_commands_def)
qed

text \<open>
  A command from a channel the bot is not linked to learns nothing about the server: the reply is the same
  whatever the server's state, and only its sender sees it.  Every known command from a linked
  channel is answered in the open.
\<close>

theorem foreign_channels_learn_nothing:
  "(ch \<notin> set (bt_channels b) \<longrightarrow>
      handleInteraction fmt1 b p True ch cmd = handleInteraction fmt1 b q True ch cmd'
      \<and> map_option snd (handleInteraction fmt1 b p True ch cmd) = Some True)
   \<and> (ch \<in> set (bt_channels b) \<longrightarrow>
      map_option snd (handleInteraction fmt1 b p True ch cmd) = Some (cmd \<notin> set slash_commands))"
  by (auto simp: handleInteraction_def channelAllowed_def list_ex_iff slash_commands_def)

definition demo_bot :: bot where
  "demo_bot = \<lparr>bt_sess = 1, bt_channels = [''c1''], bt_closed = False\<rparr>"

definition demo_provider :: "int provider" where
  "demo_provider = \<lparr>pv_ServerName = ''n'', pv_PublicAddress = ''h:1'', pv_Players = Inr ([''Alex''], 20), pv_Version = Inr ''1.21'',
     pv_Temperature = None, pv_Banlist = Inr []\<rparr>"

theorem foreign_channels_learn_nothing_witness:
  "map_option snd (handleInteraction Itoa demo_bot demo_provider True ''c2'' ''list'') = Some True
   \<and> map_option snd (handleInteraction Itoa demo_bot demo_provider True ''c1'' ''list'') = Some False"
  using foreign_channels_learn_nothing [of "''c2''" demo_bot Itoa demo_provider "''list''" demo_provider "''list''"]
    foreign_channels_learn_nothing [of "''c1''" demo_bot Itoa demo_provider "''list''" demo_provider "''list''"]
  by (simp add: demo_bot_def slash_commands_def)

subsection \<open>Sessions over the life of a slot\<close>

text \<open>
  The goroutines that open and close sessions, as a step relation.  A session that is open is in
  \<open>bw_open\<close>; closing one that is closed is no step.  A mount may start \<open>startDiscordBot\<close>, which connects,
  stores its bot under the mutex (closing the one it finds there) and then notifies; \<open>watchExit\<close> clears the
  server and then runs \<open>closeDiscordBot\<close>, which takes the bot under the mutex, notifies and closes it.
\<close>

datatype bot_thread =
    BStart "string list"             \<comment> \<open>\<open>startDiscordBot\<close>, connecting\<close>
  | BConnected nat "string list"     \<comment> \<open>connected, about to take the mutex\<close>
  | BNotify nat "string list" string
  | BTake                            \<comment> \<open>\<open>closeDiscordBot\<close>, about to take the mutex\<close>
  | BClosing nat "string list" string

record bot_world =
  bw_server :: "string option"       \<comment> \<open>the name of the mounted server\<close>
  bw_bot :: "(nat \<times> string list) option"
  bw_threads :: "bot_thread multiset"
  bw_open :: "nat set"
  bw_next :: nat
  bw_sent :: "(string \<times> string) list"

definition server_name :: "bot_world \<Rightarrow> string" where
  "server_name w = (case bw_server w of None \<Rightarrow> [] | Some n \<Rightarrow> n)"

definition starting_text :: "string \<Rightarrow> string" where
  "starting_text n = [CHR 0xE2, CHR 0x9C, CHR 0x85, CHR '' ''] @ n @ '' is starting up.''"

definition stopped_text :: "string \<Rightarrow> string" where
  "stopped_text n = [CHR 0xF0, CHR 0x9F, CHR 0x9B, CHR 0x91, CHR '' ''] @ n @ '' stopped.''"

definition notify :: "nat \<Rightarrow> string list \<Rightarrow> string \<Rightarrow> bot_world \<Rightarrow> bot_world" where
  "notify sess chs msg w =
     w\<lparr>bw_sent := bw_sent w @ bot_Notify msg \<lparr>bt_sess = sess, bt_channels = chs, bt_closed = sess \<notin> bw_open w\<rparr>\<rparr>"

definition swap_thread :: "bot_thread \<Rightarrow> bot_thread multiset \<Rightarrow> bot_world \<Rightarrow> bot_world" where
  "swap_thread t ts w = w\<lparr>bw_threads := (bw_threads w - {#t#}) + ts\<rparr>"

inductive bot_step :: "bot_world \<Rightarrow> bot_world \<Rightarrow> bool" where
  bw_mount: "bot_step w (w\<lparr>bw_server := Some n, bw_threads := bw_threads w + (if chs = [] then {#} else {#BStart chs#})\<rparr>)"
| bw_fail: "BStart chs \<in># bw_threads w \<Longrightarrow> bot_step w (swap_thread (BStart chs) {#} w)"
| bw_connect: "BStart chs \<in># bw_threads w \<Longrightarrow>
     bot_step w (swap_thread (BStart chs) {#BConnected (bw_next w) chs#}
       (w\<lparr>bw_open := insert (bw_next w) (bw_open w), bw_next := bw_next w + 1\<rparr>))"
| bw_store: "BConnected b chs \<in># bw_threads w \<Longrightarrow>
     bot_step w (swap_thread (BConnected b chs) {#BNotify b chs (starting_text (server_name w))#}
       (w\<lparr>bw_open := bw_open w - set_option (map_option fst (bw_bot w)), bw_bot := Some (b, chs)\<rparr>))"
| bw_notify: "BNotify b chs msg \<in># bw_threads w \<Longrightarrow>
     bot_step w (swap_thread (BNotify b chs msg) {#} (notify b chs msg w))"
| bw_exit: "bot_step w (w\<lparr>bw_server := None, bw_threads := bw_threads w + {#BTake#}\<rparr>)"
| bw_take: "BTake \<in># bw_threads w \<Longrightarrow>
     bot_step w (swap_thread BTake
       (case bw_bot w of None \<Rightarrow> {#} | Some (b, chs) \<Rightarrow> {#BClosing b chs (stopped_text (server_name w))#})
       (w\<lparr>bw_bot := None\<rparr>))"
| bw_close: "BClosing b chs msg \<in># bw_threads w \<Longrightarrow>
     bot_step w (swap_thread (BClosing b chs msg) {#} ((notify b chs msg w)\<lparr>bw_open := bw_open w - {b}\<rparr>))"

definition no_bots :: bot_world where
  "no_bots = \<lparr>bw_server = None, bw_bot = None, bw_threads = {#}, bw_open = {}, bw_next = 0, bw_sent = []\<rparr>"

text \<open>Who is responsible for closing a session: the slot, or the goroutine that holds it.\<close>

fun owner_of :: "bot_thread \<Rightarrow> nat multiset" where
  "owner_of (BConnected b chs) = {#b#}"
| "owner_of (BClosing b chs msg) = {#b#}"
| "owner_of _ = {#}"

definition owned_by_slot :: "bot_world \<Rightarrow> nat multiset" where
  "owned_by_slot w = (case bw_bot w of None \<Rightarrow> {#} | Some (b, _) \<Rightarrow> {#b#})"

definition responsible :: "bot_world \<Rightarrow> nat multiset" where
  "responsible w = owned_by_slot w + sum_mset (image_mset owner_of (bw_threads w))"

definition bots_ok :: "bot_world \<Rightarrow> bool" where
  [inv_defs]: "bots_ok w \<longleftrightarrow> finite (bw_open w) \<and> responsible w = mset_set (bw_open w) \<and> (\<forall>b\<in>bw_open w. b < bw_next w)"

lemma owners_swap:
  assumes "t \<in># T"
  shows "sum_mset (image_mset owner_of (T - {#t#} + ts)) + owner_of t = sum_mset (image_mset owner_of T) + sum_mset (image_mset owner_of ts)"
proof -
  obtain T' where "T = add_mset t T'" using assms by (metis insert_DiffM)
  then show ?thesis by simp
qed

lemma responsible_swap:
  assumes "t \<in># bw_threads w" and "bw_threads w' = bw_threads w - {#t#} + ts"
  shows "responsible w' + owned_by_slot w + owner_of t = responsible w + owned_by_slot w' + sum_mset (image_mset owner_of ts)"
  using owners_swap [OF assms(1), of ts] by (simp add: responsible_def assms(2) add.assoc add.commute add.left_commute)

lemma mset_set_remove1: "finite A \<Longrightarrow> mset_set (A - {x}) = mset_set A - {#x#}"
  by (cases "x \<in> A") (auto simp: mset_set.remove)

lemma bots_ok_step: "bot_step w w' \<Longrightarrow> bots_ok w \<Longrightarrow> bots_ok w'"
proof (induction rule: bot_step.induct)
  case (bw_mount w n chs)
  then show ?case by (auto simp: bots_ok_def responsible_def owned_by_slot_def)
next
  case (bw_fail chs w)
  then show ?case
    using responsible_swap [OF bw_fail(1), of "swap_thread (BStart chs) {#} w" "{#}"]
    by (simp add: bots_ok_def swap_thread_def owned_by_slot_def)
next
  case (bw_connect chs w)
  let ?w = "swap_thread (BStart chs) {#BConnected (bw_next w) chs#}
       (w\<lparr>bw_open := insert (bw_next w) (bw_open w), bw_next := bw_next w + 1\<rparr>)"
  have "responsible ?w = add_mset (bw_next w) (responsible w)"
    using responsible_swap [OF bw_connect(1), of ?w "{#BConnected (bw_next w) chs#}"]
    by (simp add: swap_thread_def owned_by_slot_def)
  moreover have "bw_next w \<notin> bw_open w" using bw_connect(2) by (auto simp: bots_ok_def)
  ultimately show ?case using bw_connect(2) by (auto simp: bots_ok_def swap_thread_def)
next
  case (bw_store b chs w)
  let ?t = "BNotify b chs (starting_text (server_name w))"
  let ?w = "swap_thread (BConnected b chs) {#?t#}
       (w\<lparr>bw_open := bw_open w - set_option (map_option fst (bw_bot w)), bw_bot := Some (b, chs)\<rparr>)"
  have r: "responsible ?w + owned_by_slot w = responsible w"
    using responsible_swap [OF bw_store(1), of ?w "{#?t#}"]
    by (simp add: swap_thread_def owned_by_slot_def split: option.splits prod.splits)
  have ok: "finite (bw_open w)" "responsible w = mset_set (bw_open w)" "\<forall>x\<in>bw_open w. x < bw_next w"
    using bw_store(2) by (simp_all add: bots_ok_def)
  have "responsible ?w = mset_set (bw_open ?w)"
  proof (cases "bw_bot w")
    case None
    then show ?thesis using r ok by (simp add: owned_by_slot_def swap_thread_def)
  next
    case (Some o')
    then have "owned_by_slot w = {#fst o'#}" by (simp add: owned_by_slot_def split: prod.split)
    then have "responsible ?w = mset_set (bw_open w) - {#fst o'#}" using r ok(2) by (metis add_diff_cancel_right')
    then show ?thesis using Some by (simp add: swap_thread_def mset_set_remove1 [OF ok(1)])
  qed
  then show ?case using ok by (auto simp: bots_ok_def swap_thread_def)
next
  case (bw_notify b chs msg w)
  then show ?case
    using responsible_swap [OF bw_notify(1), of "swap_thread (BNotify b chs msg) {#} (notify b chs msg w)" "{#}"]
    by (simp add: bots_ok_def swap_thread_def owned_by_slot_def notify_def)
next
  case (bw_exit w)
  then show ?case by (auto simp: bots_ok_def responsible_def owned_by_slot_def)
next
  case (bw_take w)
  let ?ts = "case bw_bot w of None \<Rightarrow> {#} | Some (b, chs) \<Rightarrow> {#BClosing b chs (stopped_text (server_name w))#}"
  let ?w = "swap_thread BTake ?ts (w\<lparr>bw_bot := None\<rparr>)"
  have "sum_mset (image_mset owner_of ?ts) = owned_by_slot w"
    by (simp add: owned_by_slot_def split: option.split prod.split)
  then have "responsible ?w = responsible w"
    using responsible_swap [OF bw_take(1), of ?w ?ts] by (simp add: swap_thread_def owned_by_slot_def)
  then show ?case using bw_take(2) by (simp add: bots_ok_def swap_thread_def)
next
  case (bw_close b chs msg w)
  let ?w = "swap_thread (BClosing b chs msg) {#} ((notify b chs msg w)\<lparr>bw_open := bw_open w - {b}\<rparr>)"
  have "responsible ?w + {#b#} = responsible w"
    using responsible_swap [OF bw_close(1), of ?w "{#}"] by (simp add: swap_thread_def owned_by_slot_def notify_def)
  then have "responsible ?w = responsible w - {#b#}" by (metis add_diff_cancel_right')
  then show ?case
    using bw_close(2) mset_set_remove1 [of "bw_open w" b] by (auto simp: bots_ok_def swap_thread_def notify_def)
qed

lemma bots_ok_reachable: "bot_step\<^sup>*\<^sup>* no_bots w \<Longrightarrow> bots_ok w"
proof (induction rule: rtranclp_induct)
  case base
  show ?case by (simp add: bots_ok_def no_bots_def responsible_def owned_by_slot_def)
qed (rule bots_ok_step)

text \<open>
  C19: no session is lost or shared: at every moment each open session is held exactly once, by the slot or
  by one goroutine that has just connected it or is about to close it.  So when no goroutine is under
  way, the only session that can be open is the slot's bot.
\<close>

theorem sessions_are_accounted:
  assumes "bot_step\<^sup>*\<^sup>* no_bots w"
  shows "responsible w = mset_set (bw_open w)
    \<and> (bw_threads w = {#} \<longrightarrow> bw_open w = set_option (map_option fst (bw_bot w)))"
proof -
  have ok: "finite (bw_open w)" "responsible w = mset_set (bw_open w)"
    using bots_ok_reachable [OF assms] by (simp_all add: bots_ok_def)
  have "bw_open w = set_option (map_option fst (bw_bot w))" if "bw_threads w = {#}"
  proof -
    have "bw_open w = set_mset (responsible w)" using ok by simp
    then show ?thesis using that by (simp add: responsible_def owned_by_slot_def split: option.splits prod.splits)
  qed
  then show ?thesis using ok by simp
qed

text \<open>
  A server that exits while its bot is still connecting: \<open>closeDiscordBot\<close> finds no bot, and the session
  that is stored afterwards announces the start of a server without a name and stays open, with no
  server mounted, until the next one.
\<close>

definition late_bot1 :: bot_world where
  "late_bot1 = no_bots\<lparr>bw_server := Some ''n'', bw_threads := {#BStart [''c'']#}\<rparr>"
definition late_bot2 :: bot_world where
  "late_bot2 = no_bots\<lparr>bw_threads := {#BTake, BStart [''c'']#}\<rparr>"
definition late_bot3 :: bot_world where
  "late_bot3 = no_bots\<lparr>bw_threads := {#BStart [''c'']#}\<rparr>"
definition late_bot4 :: bot_world where
  "late_bot4 = no_bots\<lparr>bw_threads := {#BConnected 0 [''c'']#}, bw_open := {0}, bw_next := 1\<rparr>"
definition late_bot5 :: bot_world where
  "late_bot5 = late_bot4\<lparr>bw_threads := {#BNotify 0 [''c''] (starting_text [])#}, bw_bot := Some (0, [''c''])\<rparr>"
definition late_bot6 :: bot_world where
  "late_bot6 = late_bot5\<lparr>bw_threads := {#}, bw_sent := [(''c'', starting_text [])]\<rparr>"

lemmas late_bot_defs = late_bot1_def late_bot2_def late_bot3_def late_bot4_def late_bot5_def late_bot6_def no_bots_def
  swap_thread_def server_name_def notify_def bot_Notify_def

lemma late_bot_run: "bot_step\<^sup>*\<^sup>* no_bots late_bot6"
proof -
  have "bot_step no_bots late_bot1"
    using bw_mount [where w = no_bots and n = "''n''" and chs = "[''c'']"] by (simp add: late_bot_defs)
  moreover have "bot_step late_bot1 late_bot2"
    using bw_exit [where w = late_bot1] by (simp add: late_bot_defs)
  moreover have "bot_step late_bot2 late_bot3"
    using bw_take [where w = late_bot2] by (simp add: late_bot_defs)
  moreover have "bot_step late_bot3 late_bot4"
    using bw_connect [where w = late_bot3 and chs = "[''c'']"] by (simp add: late_bot_defs)
  moreover have "bot_step late_bot4 late_bot5"
    using bw_store [where w = late_bot4 and b = 0 and chs = "[''c'']"] by (simp add: late_bot_defs)
  moreover have "bot_step late_bot5 late_bot6"
    using bw_notify [where w = late_bot5 and b = 0 and chs = "[''c'']" and msg = "starting_text []"] by (simp add: late_bot_defs)
  ultimately show ?thesis by (meson converse_rtranclp_into_rtranclp r_into_rtranclp)
qed

theorem sessions_are_accounted_witness:
  "responsible late_bot6 = {#0#} \<and> bw_open late_bot6 = {0}"
  using sessions_are_accounted [OF late_bot_run] by (simp add: late_bot_defs)

theorem late_bot_outlives_server:
  "\<exists>w. bot_step\<^sup>*\<^sup>* no_bots w \<and> bw_server w = None \<and> bw_threads w = {#} \<and> bw_open w = {0} \<and> bw_bot w = Some (0, [''c''])
     \<and> bw_sent w = [(''c'', starting_text [])]"
  by (intro exI [of _ late_bot6] conjI late_bot_run) (simp_all add: late_bot_defs)

end
