(* ===== verification/Restart.thy ===== *)
theory Restart
  imports Slot
begin

text \<open>
  The two waits of \<open>internal/slot/slot.go\<close> that are bounded by the clock: how long \<open>Stop\<close> waits for a
  graceful exit, and the loop in which \<open>Restart\<close> waits for the slot to become startable.

  The clock is a parameter: \<open>slept k\<close> is how much longer than asked the \<open>k\<close>-th sleep took, and
  \<open>sees t\<close> is the state of the slot that is read at \<open>t\<close>.
\<close>

definition graceWindow :: "stop_opts \<Rightarrow> duration" where
  "graceWindow opts = wrap64 (sp_GracefulSeconds (stop_defaults opts) * second)"

definition restart_patience :: duration where "restart_patience = 2 * 60 * second"
definition restart_poll :: duration where "restart_poll = 500 * 1000000"

text \<open>The moment \<open>Start\<close> is called, if it is, and the number of polls.\<close>

function restart_wait :: "(time \<Rightarrow> state) \<Rightarrow> (nat \<Rightarrow> nat) \<Rightarrow> time \<Rightarrow> nat \<Rightarrow> time \<Rightarrow> time option \<times> nat" where
  "restart_wait sees slept deadline k now =
     (if now < deadline then
        (if CanStartFrom (sees now) then (Some now, Suc k)
         else restart_wait sees slept deadline (Suc k) (now + restart_poll + int (slept k)))
      else (None, k))"
  by pat_completeness auto
termination
  by (relation "measure (\<lambda>(_, _, deadline, _, now). nat (deadline - now))") (auto simp: restart_poll_def)

declare restart_wait.simps [simp del]

text \<open>The moments of the polls, as long as none finds the slot startable.\<close>

fun poll_time :: "(nat \<Rightarrow> nat) \<Rightarrow> time \<Rightarrow> nat \<Rightarrow> time" where
  "poll_time slept t0 0 = t0"
| "poll_time slept t0 (Suc k) = poll_time slept t0 k + restart_poll + int (slept k)"

lemma poll_time_lower: "t0 + int k * restart_poll \<le> poll_time slept t0 k"
  by (induction k) (auto simp: algebra_simps)

lemma restart_wait_from:
  assumes "now = poll_time slept t0 k" and "\<forall>j<k. poll_time slept t0 j < deadline \<and> \<not> CanStartFrom (sees (poll_time slept t0 j))"
    and "restart_wait sees slept deadline k now = (res, n)"
  shows "k \<le> n \<and> (\<forall>j<n. poll_time slept t0 j < deadline)
    \<and> (case res of
         Some t \<Rightarrow> 0 < n \<and> t = poll_time slept t0 (n - 1) \<and> CanStartFrom (sees t)
           \<and> (\<forall>j<n - 1. \<not> CanStartFrom (sees (poll_time slept t0 j)))
       | None \<Rightarrow> deadline \<le> poll_time slept t0 n \<and> (\<forall>j<n. \<not> CanStartFrom (sees (poll_time slept t0 j))))"
  using assms
proof (induction sees slept deadline k now rule: restart_wait.induct)
  case (1 sees slept deadline k now)
  show ?case
  proof (cases "now < deadline \<and> \<not> CanStartFrom (sees now)")
    case True
    have "restart_wait sees slept deadline (Suc k) (now + restart_poll + int (slept k)) = (res, n)"
      using 1(4) True restart_wait.simps [of sees slept deadline k now] by simp
    moreover have "\<forall>j<Suc k. poll_time slept t0 j < deadline \<and> \<not> CanStartFrom (sees (poll_time slept t0 j))"
      using 1(3) True 1(2) by (auto simp: less_Suc_eq)
    moreover have "now + restart_poll + int (slept k) = poll_time slept t0 (Suc k)" using 1(2) by simp
    ultimately show ?thesis using 1(1) True by (auto dest: Suc_leD)
  next
    case False
    show ?thesis
    proof (cases "now < deadline")
      case True
      then have "res = Some now \<and> n = Suc k"
        using False 1(4) restart_wait.simps [of sees slept deadline k now] by auto
      then show ?thesis using True False 1(2,3) by (auto simp: less_Suc_eq)
    next
      case False
      then have "res = None \<and> n = k" using 1(4) restart_wait.simps [of sees slept deadline k now] by auto
      then show ?thesis using False 1(2,3) by auto
    qed
  qed
qed

text \<open>
  C24: the waiting of a restart always ends, after at most 240 polls: with a call of \<open>Start\<close> at the first
  poll that finds the slot startable, or without one, if no poll of the two minutes did.
\<close>

theorem restart_wait_ends:
  "case restart_wait sees slept (t0 + restart_patience) 0 t0 of (res, n) \<Rightarrow> n \<le> 240
    \<and> (case res of
         Some t \<Rightarrow> t < t0 + restart_patience \<and> CanStartFrom (sees t) \<and> (\<exists>k<n. t = poll_time slept t0 k
           \<and> (\<forall>j<k. \<not> CanStartFrom (sees (poll_time slept t0 j))))
       | None \<Rightarrow> (\<forall>j. poll_time slept t0 j < t0 + restart_patience \<longrightarrow> \<not> CanStartFrom (sees (poll_time slept t0 j))))"
proof -
  obtain res n where r: "restart_wait sees slept (t0 + restart_patience) 0 t0 = (res, n)" by fastforce
  note w = restart_wait_from [OF _ _ r, of t0, simplified]
  have "n \<le> 240"
  proof (rule ccontr)
    assume "\<not> n \<le> 240"
    then have "poll_time slept t0 240 < t0 + restart_patience" using w by simp
    then show False using poll_time_lower [of t0 240 slept] by (simp add: restart_patience_def restart_poll_def)
  qed
  moreover have later: "poll_time slept t0 i \<le> poll_time slept t0 j" if "i \<le> j" for i j
    using that by (induction j) (auto simp: le_Suc_eq restart_poll_def)
  have "j < n" if "res = None" "poll_time slept t0 j < t0 + restart_patience" for j
    using w that later [of n j] by (cases "j < n") auto
  ultimately show ?thesis using w by (cases res) (auto simp: r intro!: exI [of _ "n - 1"])
qed

theorem restart_wait_ends_witness:
  "case restart_wait (\<lambda>t. if t < second then StateStopping else StateIdle) (\<lambda>_. 0) (0 + restart_patience) 0 0 of
     (res, n) \<Rightarrow> n \<le> 240 \<and> res \<noteq> None"
proof -
  let ?sees = "\<lambda>t. if t < second then StateStopping else StateIdle"
  have "poll_time (\<lambda>_. 0) 0 2 < 0 + restart_patience" "CanStartFrom (?sees (poll_time (\<lambda>_. 0) 0 2))"
    by (simp_all add: numeral_2_eq_2 restart_poll_def restart_patience_def CanStartFrom_def)
  then show ?thesis
    using restart_wait_ends [where sees = ?sees and slept = "\<lambda>_. 0" and ?t0.0 = 0] by (auto split: prod.splits option.splits)
qed



text \<open>
  A restart with a grace period of two minutes or more does not restart a server that uses it up: when
  the slot becomes startable, the loop has given up, and the slot stays down.
\<close>

theorem long_grace_restart_gives_up:
  assumes "120 \<le> sp_GracefulSeconds opts" and "sp_GracefulSeconds opts \<le> 9223372036"
    and "\<And>t. t < t0 + graceWindow opts \<Longrightarrow> sees t = StateStopping"
  shows "fst (restart_wait sees slept (t0 + restart_patience) 0 t0) = None"
proof -
  obtain res n where r: "restart_wait sees slept (t0 + restart_patience) 0 t0 = (res, n)" by fastforce
  have "graceWindow opts = sp_GracefulSeconds opts * second"
    using assms(1,2) by (simp add: graceWindow_def stop_defaults_def in_int64_def)
  then have g: "restart_patience \<le> graceWindow opts" using assms(1) by (simp add: restart_patience_def)
  have "\<not> CanStartFrom (sees t)" if "t < t0 + restart_patience" for t
    using assms(3) [of t] g that by (simp add: CanStartFrom_def)
  then show ?thesis using restart_wait_from [OF _ _ r, of t0] r by (auto split: option.splits)
qed

theorem long_grace_restart_gives_up_witness:
  "fst (restart_wait (\<lambda>t. if t < 120 * second then StateStopping else StateIdle) (\<lambda>_. 0) (0 + restart_patience) 0 0) = None"
proof -
  have "graceWindow \<lparr>sp_GracefulSeconds = 120, sp_KillGrace = 0\<rparr> = 120 * second"
    by (simp add: graceWindow_def stop_defaults_def in_int64_def)
  then show ?thesis
    using long_grace_restart_gives_up [of "\<lparr>sp_GracefulSeconds = 120, sp_KillGrace = 0\<rparr>" 0
        "\<lambda>t. if t < 120 * second then StateStopping else StateIdle" "\<lambda>_. 0"] by simp
qed

end
